theory Spec2Isabelle
  imports Main "HOL-Library.Sublist"
begin

section \<open>Values of the scripts: strings, thrown values, process environment\<close>

text \<open>
  The repository is five browser-automation scripts (Fandom, PCPartPicker, Zillow,
  weather.com, Wikipedia). Each exports one async entry function that obtains a page
  from the remote browser provider, validates its inputs, drives the page through a
  fixed sequence of operations and returns \<open>{ success, message }\<close>.

  The page and the provider are external. A run is modelled against an environment
  that fixes the outcome of the n-th operation the script issues; the script's own
  control flow, its log lines and its result are computed from those outcomes.
\<close>

text \<open>\<open>String.prototype.includes\<close>.\<close>

primrec str_includes :: "string \<Rightarrow> string \<Rightarrow> bool" where
  "str_includes [] t = (t = [])"
| "str_includes (c # s) t = (prefix t (c # s) \<or> str_includes s t)"

text \<open>\<open>Array.prototype.join\<close>.\<close>

fun join :: "string \<Rightarrow> string list \<Rightarrow> string" where
  "join sep [] = []"
| "join sep [x] = x"
| "join sep (x # y # ys) = x @ sep @ join sep (y # ys)"

text \<open>\<open>s.replace(/\/$/, '')\<close>: one trailing slash is removed.\<close>

definition stripTrailingSlash :: "string \<Rightarrow> string" where
  \<open>stripTrailingSlash s = (if s \<noteq> [] \<and> last s = CHR ''/'' then butlast s else s)\<close>

text \<open>
  A thrown value: an \<open>Error\<close> object with a name and a message, or \<open>undefined\<close>
  (what \<open>throw lastErr\<close> throws when \<open>lastErr\<close> was never assigned).
\<close>

datatype js_error = JsUndefined | JsError (err_name: string) (err_message: string)

text \<open>\<open>String(err)\<close>, as \<open>Error.prototype.toString\<close> defines it.\<close>

fun String_err :: "js_error \<Rightarrow> string" where
  \<open>String_err JsUndefined = ''undefined''\<close>
| \<open>String_err (JsError n m) =
     (if m = [] then n else if n = [] then m else n @ '': '' @ m)\<close>

text \<open>The template fragment \<open>${err?.message || err}\<close>.\<close>

fun message_or_err :: "js_error \<Rightarrow> string" where
  \<open>message_or_err JsUndefined = ''undefined''\<close>
| \<open>message_or_err (JsError n m) = (if m \<noteq> [] then m else String_err (JsError n m))\<close>

text \<open>
  \<open>process.env\<close>: a variable is absent (\<open>None\<close>) or a string. JavaScript's \<open>!x\<close> holds
  for \<open>undefined\<close> and for the empty string.
\<close>

type_synonym penv = "string \<Rightarrow> string option"

definition truthy :: "string option \<Rightarrow> bool" where
  "truthy v = (case v of None \<Rightarrow> False | Some s \<Rightarrow> s \<noteq> [])"

text \<open>\<open>a || b\<close> on two possibly undefined strings, and \<open>a || 'literal'\<close>.\<close>

definition js_or :: "string option \<Rightarrow> string option \<Rightarrow> string option" where
  "js_or a b = (if truthy a then a else b)"

definition or_default :: "string option \<Rightarrow> string \<Rightarrow> string" where
  "or_default a d = (case a of None \<Rightarrow> d | Some s \<Rightarrow> if s \<noteq> [] then s else d)"

fun bool_str :: "bool \<Rightarrow> string" where
  \<open>bool_str True = ''true''\<close>
| \<open>bool_str False = ''false''\<close>

section \<open>Page operations, environment and the run monad\<close>

datatype wait_state = Visible | Hidden | Detached

text \<open>Locator expressions, as the scripts build them.\<close>

datatype locator =
    Locator string
  | GetByLabel string
  | GetByRole string string
  | First locator
  | FilterHas locator locator
  | SubLocator locator string

text \<open>
  Every call that reaches the provider or the page. A timeout is \<open>Some ms\<close> when the call
  passes one and \<open>None\<close> when it leaves the library's default in force. Every \<open>goto\<close> in the
  repository passes \<open>waitUntil: 'load'\<close>, so that option is not recorded.
\<close>

datatype op =
    BrowserConnect string
  | BrowserCreate
  | ContextsPages
  | Goto string "nat option"
  | WaitForSelector string wait_state "nat option"
  | WaitFor locator wait_state "nat option"
  | Click locator "nat option" "nat option"
  | Fill locator string "nat option"
  | TypeText locator string nat
  | Press locator string
  | Url
  | IsVisible locator "nat option"
  | CountOf locator
  | InnerText locator
  | WaitForNavigation "nat option"
  | WaitForLoadState string "nat option"
  | WaitForURLHost string nat
  | WaitForTimeout nat
  | EventsWaitFor string

datatype http_resp = HttpResp (resp_ok: bool) (resp_status: nat) (resp_statusText: string)

text \<open>What the environment answers to one operation.\<close>

datatype response =
    RUnit
  | RBool bool
  | RNat nat
  | RStr string
  | RResp "http_resp option"
  | REvent "string option"
  | RThrow js_error

text \<open>
  The environment: the answer to the n-th operation of the run, the platform's URL parser
  (\<open>new URL(s).host\<close> and \<open>.hostname\<close>, \<open>None\<close> where the constructor throws), and which
  side of a \<open>Promise.all\<close> rejects first when both reject.
\<close>

record env =
  resp :: "nat \<Rightarrow> response"
  url_host :: "string \<Rightarrow> string option"
  url_hostname :: "string \<Rightarrow> string option"
  left_first :: "nat \<Rightarrow> bool"

datatype level = Log | Info | Warn | Error

record st =
  trace :: "op list"
  logs :: "(level \<times> string) list"

definition st0 :: st where
  "st0 = \<lparr>trace = [], logs = []\<rparr>"

record run_result =
  success :: bool
  message :: string

type_synonym 'a io = "env \<Rightarrow> st \<Rightarrow> (js_error + 'a) \<times> st"

definition ret :: "'a \<Rightarrow> 'a io" where
  "ret x = (\<lambda>e s. (Inr x, s))"

definition throw :: "js_error \<Rightarrow> 'a io" where
  "throw err = (\<lambda>e s. (Inl err, s))"

definition bind :: "'a io \<Rightarrow> ('a \<Rightarrow> 'b io) \<Rightarrow> 'b io" where
  "bind m f = (\<lambda>e s. case m e s of (Inl err, s') \<Rightarrow> (Inl err, s') | (Inr x, s') \<Rightarrow> f x e s')"

definition seq :: "'a io \<Rightarrow> 'b io \<Rightarrow> 'b io" where
  "seq m n = bind m (\<lambda>_. n)"

text \<open>\<open>try { m } catch (err) { h err }\<close>.\<close>

definition catch :: "'a io \<Rightarrow> (js_error \<Rightarrow> 'a io) \<Rightarrow> 'a io" where
  "catch m h = (\<lambda>e s. case m e s of (Inl err, s') \<Rightarrow> h err e s' | (Inr x, s') \<Rightarrow> (Inr x, s'))"

text \<open>A list of statements run in order.\<close>

fun steps :: "unit io list \<Rightarrow> unit io" where
  "steps [] = ret ()"
| "steps (m # ms) = seq m (steps ms)"

definition console :: "level \<Rightarrow> string \<Rightarrow> unit io" where
  "console l m = (\<lambda>e s. (Inr (), s\<lparr>logs := logs s @ [(l, m)]\<rparr>))"

text \<open>
  Issue an operation: it is appended to the trace and the environment answers it. The
  environment lists the answers one run received, by position. That the answers depend on
  the operations issued, as when one page answers two runs, is said of an environment and
  a trace together (\<open>answered\<close>, below).
\<close>

definition call :: "op \<Rightarrow> response io" where
  "call o' = (\<lambda>e s. (Inr (resp e (length (trace s))), s\<lparr>trace := trace s @ [o']\<rparr>))"

text \<open>An awaited call whose value is not used.\<close>

definition perform :: "op \<Rightarrow> unit io" where
  "perform o' = bind (call o') (\<lambda>r. case r of RThrow err \<Rightarrow> throw err | _ \<Rightarrow> ret ())"

definition ask_bool :: "op \<Rightarrow> bool io" where
  "ask_bool o' = bind (call o')
     (\<lambda>r. case r of RThrow err \<Rightarrow> throw err | RBool b \<Rightarrow> ret b | _ \<Rightarrow> ret False)"

definition ask_nat :: "op \<Rightarrow> nat io" where
  "ask_nat o' = bind (call o')
     (\<lambda>r. case r of RThrow err \<Rightarrow> throw err | RNat n \<Rightarrow> ret n | _ \<Rightarrow> ret 0)"

definition ask_str :: "op \<Rightarrow> string io" where
  "ask_str o' = bind (call o')
     (\<lambda>r. case r of RThrow err \<Rightarrow> throw err | RStr v \<Rightarrow> ret v | _ \<Rightarrow> ret [])"

text \<open>\<open>page.url()\<close> is synchronous and does not throw.\<close>

definition page_url :: "string io" where
  "page_url = bind (call Url) (\<lambda>r. case r of RStr v \<Rightarrow> ret v | _ \<Rightarrow> ret [])"

text \<open>\<open>page.goto\<close> resolves to a response object or to \<open>null\<close>.\<close>

definition goto_resp :: "string \<Rightarrow> nat option \<Rightarrow> http_resp option io" where
  "goto_resp url t = bind (call (Goto url t))
     (\<lambda>r. case r of RThrow err \<Rightarrow> throw err | RResp h \<Rightarrow> ret h | _ \<Rightarrow> ret None)"

text \<open>
  \<open>await Promise.all([a, b])\<close> on two calls: both are issued, left first; the await
  rejects with the rejection that comes first.
\<close>

definition promise_all :: "unit io \<Rightarrow> unit io \<Rightarrow> unit io" where
  "promise_all a b = (\<lambda>e s.
     case a e s of (ra, s1) \<Rightarrow>
     case b e s1 of (rb, s2) \<Rightarrow>
       (case (ra, rb) of
          (Inr _, Inr _) \<Rightarrow> (Inr (), s2)
        | (Inl ea, Inr _) \<Rightarrow> (Inl ea, s2)
        | (Inr _, Inl eb) \<Rightarrow> (Inl eb, s2)
        | (Inl ea, Inl eb) \<Rightarrow> (Inl (if left_first e (length (trace s)) then ea else eb), s2)))"

text \<open>\<open>p.catch(() => {})\<close>: the rejection is dropped.\<close>

definition swallow :: "unit io \<Rightarrow> unit io" where
  "swallow m = catch m (\<lambda>_. ret ())"

text \<open>A computation that consults the environment's pure functions (the URL parser).\<close>

definition with_env :: "(env \<Rightarrow> 'a io) \<Rightarrow> 'a io" where
  "with_env f = (\<lambda>e s. f e e s)"

text \<open>The result of a run from the empty state.\<close>

definition run :: "'a io \<Rightarrow> env \<Rightarrow> (js_error + 'a) \<times> st" where
  "run m e = m e st0"

section \<open>Obtaining the browser (identical in all five scripts)\<close>

definition sessionId :: "penv \<Rightarrow> string" where
  \<open>sessionId pe = or_default (pe ''ANCHOR_SESSION_ID'') ''''\<close>

definition getAnchorBrowser :: "penv \<Rightarrow> unit io" where
  "getAnchorBrowser pe =
     (if sessionId pe \<noteq> [] then perform (BrowserConnect (sessionId pe)) else perform BrowserCreate)"

text \<open>
  \<open>const browser = await getAnchorBrowser(); const page = browser.contexts()[0].pages()[0];\<close>
  The second line throws a TypeError when there is no context.
\<close>

definition openPage :: "penv \<Rightarrow> unit io" where
  "openPage pe = seq (getAnchorBrowser pe) (perform ContextsPages)"

section \<open>PCPartPicker (\<open>pcppChangePasswordTask\<close>)\<close>

record pcpp_inputs =
  pcpp_loginUrl :: string
  pcpp_changePasswordUrl :: string
  pcpp_username :: "string option"
  pcpp_oldPassword :: "string option"
  pcpp_newPassword :: "string option"

definition pcpp_INPUTS :: "penv \<Rightarrow> pcpp_inputs" where
  \<open>pcpp_INPUTS pe = \<lparr>
     pcpp_loginUrl = or_default (pe ''ANCHOR_LOGIN_URL'') ''https://pcpartpicker.com/accounts/login/'',
     pcpp_changePasswordUrl =
       or_default (pe ''ANCHOR_CHANGE_PASSWORD_URL'') ''https://pcpartpicker.com/accounts/password/change/'',
     pcpp_username = js_or (js_or (pe ''ANCHOR_USERNAME'') (pe ''ANCHOR_LOGIN'')) (pe ''ANCHOR_EMAIL''),
     pcpp_oldPassword = js_or (pe ''ANCHOR_OLD_PASSWORD'') (pe ''ANCHOR_PASSWORD''),
     pcpp_newPassword = pe ''ANCHOR_NEW_PASSWORD'' \<rparr>\<close>

text \<open>\<open>safeGoto(page, url, waitMs = 25000)\<close>: a failed \<open>goto\<close> is logged and dropped.\<close>

definition pcpp_safeGoto :: "string \<Rightarrow> nat \<Rightarrow> unit io" where
  \<open>pcpp_safeGoto url waitMs =
     seq (console Log (''[nav] goto '' @ url))
       (catch (perform (Goto url (Some waitMs)))
          (\<lambda>err. seq (console Error (''[warn] page.goto error: '' @ String_err err))
             (swallow (perform (WaitForLoadState ''domcontentloaded'' (Some 5000))))))\<close>

definition pcpp_waitForVisible :: "string \<Rightarrow> nat \<Rightarrow> unit io" where
  \<open>pcpp_waitForVisible selector timeout =
     seq (console Log (''[wait] visible '' @ selector))
       (perform (WaitFor (First (Locator selector)) Visible (Some timeout)))\<close>

definition listMissingInputs :: "pcpp_inputs \<Rightarrow> string list" where
  \<open>listMissingInputs i =
     (if \<not> truthy (pcpp_username i) then [''ANCHOR_USERNAME (or ANCHOR_LOGIN / ANCHOR_EMAIL)''] else [])
     @ (if \<not> truthy (pcpp_oldPassword i) then [''ANCHOR_PASSWORD (or ANCHOR_OLD_PASSWORD)''] else [])
     @ (if \<not> truthy (pcpp_newPassword i) then [''ANCHOR_NEW_PASSWORD''] else [])\<close>

definition loginFormSel :: string where
  \<open>loginFormSel = ''form[action="/accounts/login/"]''\<close>

definition userSel :: string where
  \<open>userSel = ''#id_username, input[name="username"], input#id_login''\<close>

definition passSel :: string where
  \<open>passSel = ''#id_password, input[name="password"]''\<close>

definition submitSel :: string where
  \<open>submitSel = ''#form_submit, form[action="/accounts/login/"] button[type="submit"], form[action="/accounts/login/"] input[type="submit"]''\<close>

definition oldPassSel :: string where
  \<open>oldPassSel = ''#id_old_password, input[name="old_password"]''\<close>

definition newPass1Sel :: string where
  \<open>newPass1Sel = ''#id_new_password1, input[name="new_password1"], input[name="new_password"]''\<close>

definition newPass2Sel :: string where
  \<open>newPass2Sel = ''#id_new_password2, input[name="new_password2"], input[name="new_password_confirm"]''\<close>

definition changeBtnSel :: string where
  \<open>changeBtnSel = ''input.button[type="submit"][value="Change Password"], form[action*="/accounts/password/change/"] [type="submit"]''\<close>

text \<open>\<open>locator.isVisible().catch(() => false)\<close>.\<close>

definition isVisible_or_false :: "locator \<Rightarrow> bool io" where
  "isVisible_or_false l = catch (ask_bool (IsVisible l None)) (\<lambda>_. ret False)"

text \<open>Step 3 of the task: the verification after the change form was submitted.\<close>

definition pcpp_verify :: "run_result io" where
  \<open>pcpp_verify =
     bind page_url (\<lambda>url.
     let successUrl = str_includes url ''/accounts/password/change/done/'' in
     bind (isVisible_or_false (First (Locator ''text=Your password has been changed.''))) (\<lambda>successTextVisible.
     if successUrl \<or> successTextVisible
     then (let msg = ''Password changed successfully.'' in
           seq (console Info msg) (ret \<lparr>success = True, message = msg\<rparr>))
     else (let msg = ''Password change may have failed: success URL or confirmation text not detected.'' in
           seq (console Error msg) (ret \<lparr>success = False, message = msg\<rparr>))))\<close>

text \<open>Step 2: the change-password page is opened, filled and submitted.\<close>

definition pcpp_change :: "pcpp_inputs \<Rightarrow> unit io" where
  \<open>pcpp_change i = steps [
     pcpp_safeGoto (pcpp_changePasswordUrl i) 25000,
     pcpp_waitForVisible oldPassSel 20000,
     pcpp_waitForVisible newPass1Sel 20000,
     pcpp_waitForVisible newPass2Sel 20000,
     console Log ''[action] fill old password'',
     perform (Fill (First (Locator oldPassSel)) (or_default (pcpp_oldPassword i) '''') None),
     console Log ''[action] fill new password'',
     perform (Fill (First (Locator newPass1Sel)) (or_default (pcpp_newPassword i) '''') None),
     console Log ''[action] confirm new password'',
     perform (Fill (First (Locator newPass2Sel)) (or_default (pcpp_newPassword i) '''') None),
     console Log ''[action] submit change password'',
     promise_all
       (catch (perform (WaitForLoadState ''load'' (Some 25000)))
          (\<lambda>err. console Error (''[warn] load wait after change submit: '' @ String_err err)))
       (perform (Click (First (Locator changeBtnSel)) None None))]\<close>

text \<open>Step 1: the login form is opened, filled and submitted.\<close>

definition pcpp_login :: "pcpp_inputs \<Rightarrow> unit io" where
  \<open>pcpp_login i = steps [
     pcpp_safeGoto (pcpp_loginUrl i) 25000,
     pcpp_waitForVisible loginFormSel 20000,
     pcpp_waitForVisible userSel 20000,
     pcpp_waitForVisible passSel 20000,
     console Log ''[action] fill username'',
     perform (Fill (First (Locator userSel)) (or_default (pcpp_username i) '''') None),
     console Log ''[action] fill password'',
     perform (Fill (First (Locator passSel)) (or_default (pcpp_oldPassword i) '''') None),
     console Log ''[action] submit login'',
     promise_all
       (catch (perform (WaitForLoadState ''load'' (Some 25000)))
          (\<lambda>err. console Error (''[warn] load wait after login: '' @ String_err err)))
       (perform (Click (First (Locator submitSel)) None None))]\<close>

text \<open>The body of the \<open>try\<close> block.\<close>

definition pcpp_body :: "pcpp_inputs \<Rightarrow> run_result io" where
  \<open>pcpp_body i =
     seq (pcpp_login i)
     (bind (isVisible_or_false (First (Locator ''a[href="/accounts/logout/"]''))) (\<lambda>loggedIn.
      bind (isVisible_or_false (First (Locator loginFormSel))) (\<lambda>stillOnLogin.
      bind page_url (\<lambda>u.
      seq (console Log (''[state] After login: url='' @ u @ '' loggedIn='' @ bool_str loggedIn
                         @ '' stillOnLogin='' @ bool_str stillOnLogin))
      (if \<not> loggedIn \<and> stillOnLogin
       then (let msg = ''Login appears to have failed: login form still visible after submit.'' in
             seq (console Error msg) (ret \<lparr>success = False, message = msg\<rparr>))
       else seq (pcpp_change i) pcpp_verify)))))\<close>

definition pcppChangePasswordTask :: "penv \<Rightarrow> run_result io" where
  \<open>pcppChangePasswordTask pe =
     seq (openPage pe)
       (let missing = listMissingInputs (pcpp_INPUTS pe) in
        if missing \<noteq> []
        then (let msg = ''Missing required inputs: '' @ join '', '' missing in
              seq (console Error msg) (ret \<lparr>success = False, message = msg\<rparr>))
        else catch (pcpp_body (pcpp_INPUTS pe))
               (\<lambda>error. let msg = ''Unhandled error in flow: '' @ String_err error in
                  seq (console Error msg) (ret \<lparr>success = False, message = msg\<rparr>)))\<close>

section \<open>Fandom (\<open>FandomChangePasswordFlow\<close>)\<close>

record fandom_inputs =
  fandom_baseUrl :: string
  fandom_username :: "string option"
  fandom_password :: "string option"
  fandom_newPassword :: "string option"

definition fandom_INPUTS :: "penv \<Rightarrow> fandom_inputs" where
  \<open>fandom_INPUTS pe = \<lparr>
     fandom_baseUrl = or_default (pe ''ANCHOR_FANDOM_BASE_URL'') ''https://community.fandom.com'',
     fandom_username = pe ''ANCHOR_FANDOM_USERNAME'',
     fandom_password = pe ''ANCHOR_FANDOM_PASSWORD'',
     fandom_newPassword = pe ''ANCHOR_FANDOM_NEW_PASSWORD'' \<rparr>\<close>

definition SEL_signinUsername :: string where
  \<open>SEL_signinUsername = ''input#identifier.wds-input__field[data-test="signin-username-field"]''\<close>

definition SEL_signinPassword :: string where
  \<open>SEL_signinPassword = ''input#password.wds-input__field[data-test="signin-password-field"]''\<close>

definition SEL_signinSubmit :: string where
  \<open>SEL_signinSubmit = ''button#method.wds-button[data-test="signin-password-submit"]''\<close>

definition SEL_settingsNewPassword :: string where
  \<open>SEL_settingsNewPassword = ''input#password.wds-input__field[data-test="settings-password-field"]''\<close>

definition SEL_logoutConfirm :: string where
  \<open>SEL_logoutConfirm = ''input.wds-button[type="submit"][value="Confirm"]''\<close>

record fandom_urls =
  loginUrl :: string
  changePasswordUrl :: string
  logoutUrl :: string

definition buildUrls :: "string \<Rightarrow> fandom_urls" where
  \<open>buildUrls baseUrl = \<lparr>
     loginUrl = stripTrailingSlash baseUrl @ ''/wiki/Special:UserLogin'',
     changePasswordUrl = stripTrailingSlash baseUrl @ ''/wiki/Special:ChangePassword'',
     logoutUrl = stripTrailingSlash baseUrl @ ''/wiki/Special:UserLogout'' \<rparr>\<close>

definition safeClick :: "string \<Rightarrow> string \<Rightarrow> unit io" where
  \<open>safeClick selector description = steps [
     perform (WaitFor (First (Locator selector)) Visible None),
     console Log (''Click: '' @ description @ '' -> '' @ selector),
     promise_all
       (swallow (perform (WaitForNavigation None)))
       (perform (Click (First (Locator selector)) (Some 50) None))]\<close>

definition signIn :: "string \<Rightarrow> string \<Rightarrow> unit io" where
  \<open>signIn username password = steps [
     perform (WaitForSelector SEL_signinUsername Visible None),
     perform (Click (First (Locator SEL_signinUsername)) None None),
     perform (Fill (First (Locator SEL_signinUsername)) username (Some 15000)),
     perform (Click (First (Locator SEL_signinPassword)) None None),
     perform (Fill (First (Locator SEL_signinPassword)) password None),
     console Log ''Submitting sign-in form'',
     promise_all
       (perform (WaitForNavigation None))
       (perform (Click (First (Locator SEL_signinSubmit)) None None)),
     bind page_url (\<lambda>u. console Log (''Sign-in attempted. Current URL: '' @ u))]\<close>

text \<open>
  The body of the \<open>try\<close> block, by the steps its comments number. It runs only after the
  three inputs were found non-empty, so \<open>username\<close>, \<open>password\<close> and \<open>newPassword\<close> are
  the strings themselves.
\<close>

text \<open>STEP 1 to STEP 4: login with the current password, then the new password is submitted.\<close>

definition fandom_steps_1_4 :: "fandom_urls \<Rightarrow> string \<Rightarrow> string \<Rightarrow> string \<Rightarrow> unit io" where
  \<open>fandom_steps_1_4 urls username password newPassword = steps [
     console Log (''Navigating to login page: '' @ loginUrl urls),
     perform (Goto (loginUrl urls) None),
     console Log ''Waiting for Fandom Auth sign-in form'',
     perform (WaitForSelector SEL_signinUsername Visible None),
     console Log ''Filling credentials and logging in (current password)'',
     signIn username password,
     bind page_url (\<lambda>u.
       if \<not> str_includes u ''community.fandom.com''
       then console Log ''Post-login URL is not on community.fandom.com; proceeding anyway as redirects may follow.''
       else ret ()),
     console Log (''Navigating to change password page: '' @ changePasswordUrl urls),
     perform (Goto (changePasswordUrl urls) None),
     console Log ''Waiting for settings new password field on Auth Settings page'',
     perform (WaitForSelector SEL_settingsNewPassword Visible None),
     console Log ''Entering new password'',
     perform (Click (First (Locator SEL_settingsNewPassword)) None None),
     perform (Fill (First (Locator SEL_settingsNewPassword)) newPassword None),
     console Log ''Submitting new password (press Enter)'',
     promise_all
       (swallow (perform (WaitForNavigation None)))
       (perform (Press (First (Locator SEL_settingsNewPassword)) ''Enter''))]\<close>

text \<open>STEP 5: re-authentication handling, the inner \<open>try\<close>/\<open>catch\<close>.\<close>

definition fandom_reauth :: "string \<Rightarrow> string \<Rightarrow> unit io" where
  \<open>fandom_reauth username newPassword =
     catch
       (steps [
          perform (WaitForSelector SEL_signinUsername Visible (Some 6000)),
          console Log ''Re-authentication detected after password change. Signing in with NEW password.'',
          signIn username newPassword])
       (\<lambda>_. console Log ''No re-authentication form detected after password change. Proceeding to logout.'')\<close>

text \<open>STEP 6: logout, and the result.\<close>

definition fandom_logout :: "fandom_urls \<Rightarrow> run_result io" where
  \<open>fandom_logout urls =
     seq (steps [
       console Log (''Navigating to logout page: '' @ logoutUrl urls),
       perform (Goto (logoutUrl urls) None),
       console Log ''Confirming logout'',
       safeClick SEL_logoutConfirm ''Logout Confirm''])
     (bind page_url (\<lambda>finalUrl.
        let outputMessage = ''Password changed and logout completed. Final URL: '' @ finalUrl in
        seq (console Info outputMessage) (ret \<lparr>success = True, message = outputMessage\<rparr>)))\<close>

definition fandom_body :: "fandom_urls \<Rightarrow> string \<Rightarrow> string \<Rightarrow> string \<Rightarrow> run_result io" where
  \<open>fandom_body urls username password newPassword =
     seq (fandom_steps_1_4 urls username password newPassword)
    (seq (fandom_reauth username newPassword)
         (fandom_logout urls))\<close>

text \<open>The value of an input that was found non-empty.\<close>

definition given :: "string option \<Rightarrow> string" where
  "given v = (case v of None \<Rightarrow> [] | Some s \<Rightarrow> s)"

definition FandomChangePasswordFlow :: "penv \<Rightarrow> run_result io" where
  \<open>FandomChangePasswordFlow pe =
     seq (openPage pe)
       (let i = fandom_INPUTS pe; urls = buildUrls (fandom_baseUrl i) in
        if \<not> truthy (fandom_username i) \<or> \<not> truthy (fandom_password i) \<or> \<not> truthy (fandom_newPassword i)
        then (let msg = ''Missing required inputs: ANCHOR_FANDOM_USERNAME, ANCHOR_FANDOM_PASSWORD, ANCHOR_FANDOM_NEW_PASSWORD'' in
              seq (console Error msg) (ret \<lparr>success = False, message = msg\<rparr>))
        else catch
               (fandom_body urls (given (fandom_username i)) (given (fandom_password i))
                  (given (fandom_newPassword i)))
               (\<lambda>error.
                  seq (console Error (''Workflow failed: '' @ message_or_err error))
                    (ret \<lparr>success = False, message = ''Workflow failed: '' @ message_or_err error\<rparr>)))\<close>

section \<open>Zillow (\<open>zillowChangePasswordFlow\<close>)\<close>

text \<open>A number rendered in a template literal.\<close>

definition digit_char :: "nat \<Rightarrow> char" where
  "digit_char d = char_of (48 + d)"

fun show_nat :: "nat \<Rightarrow> string" where
  "show_nat n = (if n < 10 then [digit_char n] else show_nat (n div 10) @ [digit_char (n mod 10)])"

declare show_nat.simps [simp del]

record zillow_inputs =
  zillow_email :: "string option"
  zillow_currentPassword :: "string option"
  zillow_newPassword :: "string option"
  zillow_startUrl :: string
  zillow_profileUrl :: string
  zillow_logoutUrl :: string

definition zillow_INPUTS :: "penv \<Rightarrow> zillow_inputs" where
  \<open>zillow_INPUTS pe = \<lparr>
     zillow_email = pe ''ANCHOR_EMAIL'',
     zillow_currentPassword = pe ''ANCHOR_CURRENT_PASSWORD'',
     zillow_newPassword = pe ''ANCHOR_NEW_PASSWORD'',
     zillow_startUrl = or_default (pe ''ANCHOR_START_URL'')
       ''https://www.zillow.com/auth/user/login?entry_point=auth_ui_service_error_page&prompt=login'',
     zillow_profileUrl = or_default (pe ''ANCHOR_PROFILE_URL'') ''https://www.zillow.com/myzillow/profile/'',
     zillow_logoutUrl = or_default (pe ''ANCHOR_LOGOUT_URL'') ''https://www.zillow.com/Logout.htm'' \<rparr>\<close>

text \<open>
  \<open>maskSecret(value?: string)\<close>: empty for a missing or empty value, otherwise
  \<open>'*'.repeat(Math.max(4, Math.min(len, 12)))\<close>.
\<close>

definition maskSecret :: "string option \<Rightarrow> string" where
  \<open>maskSecret v =
     (if \<not> truthy v then []
      else replicate (max 4 (min (length (given v)) 12)) CHR ''*'')\<close>

text \<open>\<open>safeGoto(page, url, label, timeout = 30000)\<close>.\<close>

definition zillow_safeGoto :: "string \<Rightarrow> string \<Rightarrow> nat \<Rightarrow> bool io" where
  \<open>zillow_safeGoto url label timeout =
     seq (console Log (''[NAV] '' @ label @ '': '' @ url))
       (catch
          (bind (goto_resp url (Some timeout)) (\<lambda>r.
             case r of
               None \<Rightarrow>
                 seq (console Log (''[NAV] '' @ label @ '': no response object returned (may still be fine).''))
                   (ret True)
             | Some h \<Rightarrow>
                 seq (if \<not> resp_ok h
                      then console Error (''[NAV] '' @ label @ '': HTTP '' @ show_nat (resp_status h)
                                           @ '' '' @ resp_statusText h)
                      else ret ())
                   (ret True)))
          (\<lambda>err.
             bind page_url (\<lambda>current. with_env (\<lambda>e.
               case (url_host e url, url_host e current) of
                  (Some targetHost, Some currentHost) \<Rightarrow>
                    if targetHost \<noteq> [] \<and> currentHost \<noteq> [] \<and> targetHost = currentHost
                    then seq (console Log (''[NAV] '' @ label @ '': load timeout/warning but on expected host ''
                                            @ currentHost @ ''. Continuing.''))
                           (ret True)
                    else seq (console Error (''[NAV] '' @ label @ '': failed to navigate -> '' @ message_or_err err))
                           (ret False)
                | _ \<Rightarrow>
                    seq (console Error (''[NAV] '' @ label @ '': failed to navigate -> '' @ message_or_err err))
                      (ret False)))))\<close>

text \<open>\<open>expectVisible(locator, desc, timeout = 15000)\<close>.\<close>

definition expectVisible :: "locator \<Rightarrow> string \<Rightarrow> nat \<Rightarrow> bool io" where
  \<open>expectVisible l desc timeout =
     catch
       (seq (perform (WaitFor l Visible (Some timeout))) (ret True))
       (\<lambda>err. seq (console Error (''[WAIT] '' @ desc @ '': not visible within '' @ show_nat timeout
                                   @ ''ms -> '' @ message_or_err err))
                 (ret False))\<close>

definition fail_with :: "string \<Rightarrow> run_result io" where
  "fail_with m = ret \<lparr>success = False, message = m\<rparr>"

definition emailInput :: locator where
  \<open>emailInput = First (Locator ''input[data-testid="identifier-input"]'')\<close>

definition pwdInput :: locator where
  \<open>pwdInput = First (Locator ''#password[data-testid="password-input"] input[type="password"]'')\<close>

definition changePwdBtn :: locator where
  \<open>changePwdBtn = First (Locator ''button[aria-label="Change password"]'')\<close>

definition currentPwdInput :: locator where
  \<open>currentPwdInput = First (Locator ''#current-password-input'')\<close>

definition newPwdInput :: locator where
  \<open>newPwdInput = First (Locator ''#new-password-input'')\<close>

definition confirmPwdInput :: locator where
  \<open>confirmPwdInput = First (Locator ''#confirm-password-input'')\<close>

definition dialogForm :: locator where
  \<open>dialogForm = First (FilterHas (Locator ''form'') currentPwdInput)\<close>

definition applyBtn :: locator where
  \<open>applyBtn = First (SubLocator dialogForm ''button[type="submit"]'')\<close>

definition passwordDialog :: locator where
  \<open>passwordDialog = First (FilterHas (Locator ''section[role="dialog"]'') currentPwdInput)\<close>

text \<open>
  What follows the Apply click: the race of the two swallowed waits (both are started),
  the logout navigation, and the final result.
\<close>

definition zillow_finish :: "zillow_inputs \<Rightarrow> run_result io" where
  \<open>zillow_finish i =
     seq (swallow (perform (WaitForURLHost ''www.zillow.com'' 15000)))
    (seq (swallow (perform (WaitFor passwordDialog Detached (Some 15000))))
    (bind (zillow_safeGoto (zillow_logoutUrl i) ''Logout'' 30000) (\<lambda>ok3.
     seq (if \<not> ok3
          then console Error ''Logout navigation experienced an issue, but continuing to finalize.''
          else ret ())
     (let outputMessage = ''Password change flow executed and logout attempted successfully.'' in
      seq (console Info outputMessage) (ret \<lparr>success = True, message = outputMessage\<rparr>)))))\<close>

text \<open>The Apply click and what follows it.\<close>

definition zillow_submit :: "zillow_inputs \<Rightarrow> run_result io" where
  "zillow_submit i = seq (perform (Click applyBtn None None)) (zillow_finish i)"

text \<open>Steps 5 and 6: the dialog is opened, filled and submitted.\<close>

definition zillow_dialog :: "zillow_inputs \<Rightarrow> run_result io" where
  \<open>zillow_dialog i =
     bind (expectVisible changePwdBtn ''Change password button [aria-label="Change password"]'' 15000) (\<lambda>changeBtnReady.
     if \<not> changeBtnReady then fail_with ''Change password button not available'' else
     seq (console Log ''[ACTION] Opening Change password dialog'')
    (seq (perform (Click changePwdBtn None None))
    (bind (bind (expectVisible currentPwdInput ''Current password input #current-password-input'' 15000) (\<lambda>r1.
             if \<not> r1 then ret False else
             bind (expectVisible newPwdInput ''New password input #new-password-input'' 15000) (\<lambda>r2.
             if \<not> r2 then ret False else
             expectVisible confirmPwdInput ''Confirm password input #confirm-password-input'' 15000))) (\<lambda>dlgInputsReady.
     if \<not> dlgInputsReady then fail_with ''One or more password dialog inputs are not available'' else
     seq (console Log (''[ACTION] Filling current ('' @ maskSecret (zillow_currentPassword i) @ ''), new (''
                        @ maskSecret (zillow_newPassword i) @ ''), and confirm new password''))
    (seq (perform (Fill currentPwdInput (given (zillow_currentPassword i)) None))
    (seq (perform (Fill newPwdInput (given (zillow_newPassword i)) None))
    (seq (perform (Fill confirmPwdInput (given (zillow_newPassword i)) None))
    (bind (expectVisible applyBtn ''Apply button (type=submit) inside dialog'' 15000) (\<lambda>applyReady.
     if \<not> applyReady then fail_with ''Apply button not available'' else
     seq (console Log ''[ACTION] Submitting password change'')
         (zillow_submit i))))))))))\<close>

text \<open>The body of the \<open>try\<close> block.\<close>

definition zillow_body :: "zillow_inputs \<Rightarrow> run_result io" where
  \<open>zillow_body i =
     bind (zillow_safeGoto (zillow_startUrl i) ''Open login page'' 30000) (\<lambda>ok1.
     if \<not> ok1 then fail_with ''Failed to open login page'' else
     bind (expectVisible emailInput ''Email input [data-testid="identifier-input"]'' 15000) (\<lambda>emailReady.
     if \<not> emailReady then fail_with ''Email input not available'' else
     seq (console Log (''[ACTION] Typing email ('' @ maskSecret (zillow_email i) @ '') and submitting''))
    (seq (perform (Fill emailInput (given (zillow_email i)) None))
    (seq (perform (Press emailInput ''Enter''))
    (bind (expectVisible pwdInput ''Password input #password'' 15000) (\<lambda>pwdReady.
     if \<not> pwdReady then fail_with ''Password input not available'' else
     seq (console Log (''[ACTION] Typing current password ('' @ maskSecret (zillow_currentPassword i)
                        @ '') and submitting''))
    (seq (perform (Fill pwdInput (given (zillow_currentPassword i)) None))
    (seq (perform (Press pwdInput ''Enter''))
    (bind (zillow_safeGoto (zillow_profileUrl i) ''Open My Profile'' 30000) (\<lambda>ok2.
     if \<not> ok2 then fail_with ''Failed to open My Profile page'' else
     zillow_dialog i))))))))))\<close>

definition zillow_missing :: "zillow_inputs \<Rightarrow> string list" where
  \<open>zillow_missing i =
     (if \<not> truthy (zillow_email i) then [''ANCHOR_EMAIL''] else [])
     @ (if \<not> truthy (zillow_currentPassword i) then [''ANCHOR_CURRENT_PASSWORD''] else [])
     @ (if \<not> truthy (zillow_newPassword i) then [''ANCHOR_NEW_PASSWORD''] else [])\<close>

definition zillowChangePasswordFlow :: "penv \<Rightarrow> run_result io" where
  \<open>zillowChangePasswordFlow pe =
     seq (openPage pe)
       (let i = zillow_INPUTS pe in
        if \<not> truthy (zillow_email i) \<or> \<not> truthy (zillow_currentPassword i) \<or> \<not> truthy (zillow_newPassword i)
        then (let msg = ''Missing required inputs: '' @ join '', '' (zillow_missing i) in
              seq (console Error msg) (ret \<lparr>success = False, message = msg\<rparr>))
        else catch (zillow_body i)
               (\<lambda>err. let msg = ''Workflow error: '' @ message_or_err err in
                  seq (console Error msg) (ret \<lparr>success = False, message = msg\<rparr>)))\<close>

section \<open>weather.com (\<open>WeatherComChangePassword\<close>)\<close>

record weather_inputs =
  weather_baseUrl :: string
  weather_username :: "string option"
  weather_password :: "string option"
  weather_newPassword :: "string option"
  weather_currentPassword :: string

definition weather_INPUTS :: "penv \<Rightarrow> weather_inputs" where
  \<open>weather_INPUTS pe = \<lparr>
     weather_baseUrl = or_default (pe ''ANCHOR_WEATHER_BASE_URL'') ''https://weather.com'',
     weather_username = js_or (pe ''ANCHOR_WEATHER_EMAIL'') (pe ''ANCHOR_USERNAME''),
     weather_password = js_or (pe ''ANCHOR_WEATHER_PASSWORD'') (pe ''ANCHOR_PASSWORD''),
     weather_newPassword = js_or (pe ''ANCHOR_WEATHER_NEW_PASSWORD'') (pe ''ANCHOR_NEW_PASSWORD''),
     weather_currentPassword =
       or_default (js_or (pe ''ANCHOR_WEATHER_CURRENT_PASSWORD'') (pe ''ANCHOR_CURRENT_PASSWORD'')) '''' \<rparr>\<close>

text \<open>
  \<open>gotoWithLoad(page, url, timeout = 45000)\<close>. In the \<open>catch\<close> block \<open>new URL(url)\<close> throws a
  TypeError of its own when \<open>url\<close> does not parse.
\<close>

definition gotoWithLoad :: "string \<Rightarrow> nat \<Rightarrow> unit io" where
  \<open>gotoWithLoad url timeout =
     catch (perform (Goto url (Some timeout)))
       (\<lambda>err.
          bind page_url (\<lambda>atUrl. with_env (\<lambda>e.
            case url_hostname e url of
               None \<Rightarrow> throw (JsError ''TypeError'' ''Invalid URL'')
             | Some hostname \<Rightarrow>
                 if str_includes atUrl hostname
                 then console Warn (''[nav] Load timeout, but currently at '' @ atUrl @ ''. Continuing.'')
                 else throw err)))\<close>

text \<open>\<open>waitVisible(page, selector, timeout = 20000)\<close>.\<close>

definition weather_waitVisible :: "string \<Rightarrow> nat \<Rightarrow> bool io" where
  \<open>weather_waitVisible selector timeout =
     catch
       (seq (perform (WaitFor (First (Locator selector)) Visible (Some timeout))) (ret True))
       (\<lambda>err. seq (console Error (''[waitVisible] Timed out waiting for selector: '' @ selector))
                 (throw err))\<close>

text \<open>
  \<open>clickWithRetry(page, selector, attempts = 2)\<close>. The function below is the \<open>for\<close> loop
  from index \<open>i\<close> on, with the current \<open>lastErr\<close>; the statements after the loop are its
  exit branch.
\<close>

function clickWithRetry_from :: "string \<Rightarrow> nat \<Rightarrow> nat \<Rightarrow> js_error \<Rightarrow> unit io" where
  \<open>clickWithRetry_from selector attempts i lastErr =
     (if i < attempts
      then catch (perform (Click (First (Locator selector)) None (Some 15000)))
             (\<lambda>err.
                seq (console Warn (''[clickWithRetry] Attempt '' @ show_nat (i + 1) @ '' failed for ''
                                    @ selector @ ''. Retrying...''))
               (seq (perform (WaitForTimeout 750))
                    (clickWithRetry_from selector attempts (i + 1) err)))
      else seq (console Error (''[clickWithRetry] All attempts failed for '' @ selector))
             (throw lastErr))\<close>
  by pat_completeness auto
termination
  by (relation "measure (\<lambda>(selector, attempts, i, lastErr). attempts - i)") auto

declare clickWithRetry_from.simps [simp del]

definition clickWithRetry :: "string \<Rightarrow> nat \<Rightarrow> unit io" where
  "clickWithRetry selector attempts = clickWithRetry_from selector attempts 0 JsUndefined"

text \<open>\<open>fillInput(page, selector, value)\<close>.\<close>

definition fillInput :: "string \<Rightarrow> string \<Rightarrow> unit io" where
  \<open>fillInput selector v = steps [
     seq (weather_waitVisible selector 20000) (ret ()),
     perform (Fill (First (Locator selector)) '''' None),
     perform (Fill (First (Locator selector)) v (Some 15000))]\<close>

definition avatarSel :: string where
  \<open>avatarSel = ''span.ProfileAvatar--initial--dkm7v''\<close>

definition isLoggedIn :: "bool io" where
  \<open>isLoggedIn = catch (ask_bool (IsVisible (First (Locator avatarSel)) (Some 3000))) (\<lambda>_. ret False)\<close>

definition loginSubmitSel :: string where
  \<open>loginSubmitSel = ''button.Button--primary--I3yI4.MemberLoginForm--submitButton--Bz-ob[type="submit"]''\<close>

definition changePasswordButtonSel :: string where
  \<open>changePasswordButtonSel = ''button.MemberProfileForm--changePasswordButton--EzOT4''\<close>

definition saveButtonSel :: string where
  \<open>saveButtonSel = ''button.Button--primary--I3yI4.MemberChangePasswordForm--submitButton--9cU6R[type="submit"]''\<close>

text \<open>Step B, taken when the avatar was not seen.\<close>

definition weather_login :: "string \<Rightarrow> string \<Rightarrow> string \<Rightarrow> unit io" where
  \<open>weather_login baseUrl email loginPassword = steps [
     console Log ''[Step B] Not logged in. Navigating to login page.'',
     gotoWithLoad (baseUrl @ ''/login'') 45000,
     fillInput ''#loginEmail'' email,
     fillInput ''#loginPassword'' loginPassword,
     console Log ''[Step B] Submit login form'',
     clickWithRetry loginSubmitSel 2,
     catch (perform (WaitForLoadState ''load'' (Some 30000)))
       (\<lambda>err. bind page_url (\<lambda>atUrl.
          if str_includes atUrl ''weather.com''
          then console Warn (''[login] Load wait timed out but at '' @ atUrl @ ''. Proceeding.'')
          else throw err)),
     console Log ''[Step B] Verify login by checking profile avatar'',
     seq (weather_waitVisible avatarSel 30000) (ret ())]\<close>

text \<open>Step C: the settings page, by the avatar or by its address.\<close>

definition weather_settings :: "string \<Rightarrow> unit io" where
  \<open>weather_settings baseUrl =
     seq (console Log ''[Step C] Navigate to Member Settings'')
       (bind (catch
                (seq (clickWithRetry avatarSel 2)
                (seq (perform (WaitForLoadState ''load'' (Some 15000)))
                (bind page_url (\<lambda>u. ret (str_includes u ''/member/settings'')))))
                (\<lambda>_. ret False)) (\<lambda>navigatedToSettings.
        if \<not> navigatedToSettings
        then seq (console Log ''[Step C] Fallback direct navigation to settings'')
               (gotoWithLoad (baseUrl @ ''/member/settings'') 45000)
        else ret ()))\<close>

text \<open>Step G: the dialog is expected to go away.\<close>

definition weather_verify :: "run_result io" where
  \<open>weather_verify =
     seq (console Log ''[Step G] Verify password change by waiting for dialog to close'')
       (bind (catch
                (seq (perform (WaitFor (Locator ''#changePasswordCurrentPassword'') Detached (Some 20000)))
                     (ret True))
                (\<lambda>_. catch
                        (seq (perform (WaitFor (Locator ''#changePasswordCurrentPassword'') Hidden (Some 8000)))
                             (ret True))
                        (\<lambda>_. ret False))) (\<lambda>ok.
        if \<not> ok
        then bind (catch (ask_str (InnerText (First (Locator ''[class*="Error"], [data-error], .FormError''))))
                     (\<lambda>_. ret ''Unknown error'')) (\<lambda>errorText.
               let msg = ''Password change may have failed. Dialog still present. Error hint: '' @ errorText in
               seq (console Error msg) (ret \<lparr>success = False, message = msg\<rparr>))
        else (let outputMessage = ''Password changed successfully on weather.com'' in
              seq (console Info outputMessage) (ret \<lparr>success = True, message = outputMessage\<rparr>))))\<close>

text \<open>The body of the \<open>try\<close> block.\<close>

definition weather_body :: "string \<Rightarrow> string \<Rightarrow> string \<Rightarrow> string \<Rightarrow> string \<Rightarrow> run_result io" where
  \<open>weather_body baseUrl email loginPassword currentPassword newPassword =
     seq (steps [
       console Log ''[Step A] Navigate to base URL'',
       gotoWithLoad (baseUrl @ ''/?Goto=Redirected'') 45000,
       bind isLoggedIn (\<lambda>li.
         if \<not> li then weather_login baseUrl email loginPassword
         else console Log ''[Step B] Already logged in (avatar detected).''),
       weather_settings baseUrl,
       console Log ''[Step D] Open Change Password dialog'',
       seq (weather_waitVisible changePasswordButtonSel 20000) (ret ()),
       clickWithRetry changePasswordButtonSel 2,
       console Log ''[Step E] Fill Change Password form'',
       fillInput ''#changePasswordCurrentPassword'' currentPassword,
       fillInput ''#changePasswordNewPassword'' newPassword,
       fillInput ''#changePasswordConfirmPassword'' newPassword,
       console Log ''[Step F] Submit Change Password form'',
       clickWithRetry saveButtonSel 2])
     weather_verify\<close>

definition WeatherComChangePassword :: "penv \<Rightarrow> run_result io" where
  \<open>WeatherComChangePassword pe =
     seq (openPage pe)
       (let i = weather_INPUTS pe;
            baseUrl = stripTrailingSlash (weather_baseUrl i);
            email = weather_username i;
            loginPassword = weather_password i;
            currentPassword = (if weather_currentPassword i \<noteq> [] then weather_currentPassword i
                               else given loginPassword);
            newPassword = weather_newPassword i in
        if \<not> truthy email \<or> \<not> truthy loginPassword \<or> \<not> truthy newPassword
        then (let msg = ''Missing required inputs: ANCHOR_WEATHER_EMAIL/ANCHOR_USERNAME, ANCHOR_WEATHER_PASSWORD/ANCHOR_PASSWORD, ANCHOR_WEATHER_NEW_PASSWORD/ANCHOR_NEW_PASSWORD'' in
              seq (console Error msg) (ret \<lparr>success = False, message = msg\<rparr>))
        else catch (weather_body baseUrl (given email) (given loginPassword) currentPassword (given newPassword))
               (\<lambda>error. let msg = ''Flow failed: '' @ message_or_err error in
                  seq (console Error msg) (ret \<lparr>success = False, message = msg\<rparr>)))\<close>

section \<open>Wikipedia (\<open>ChangeWikipediaPassword\<close>)\<close>

record wiki_inputs =
  wiki_username :: string
  wiki_password :: string
  wiki_newPassword :: string
  wiki_totpCode :: string
  wiki_baseUrl :: string

definition wiki_INPUTS :: "penv \<Rightarrow> wiki_inputs" where
  \<open>wiki_INPUTS pe = \<lparr>
     wiki_username = or_default (pe ''ANCHOR_WIKI_USERNAME'') '''',
     wiki_password = or_default (pe ''ANCHOR_WIKI_PASSWORD'') '''',
     wiki_newPassword = or_default (pe ''ANCHOR_WIKI_NEW_PASSWORD'') '''',
     wiki_totpCode = or_default (pe ''ANCHOR_WIKI_TOTP_CODE'') '''',
     wiki_baseUrl = or_default (pe ''ANCHOR_WIKI_BASE_URL'') ''https://en.wikipedia.org'' \<rparr>\<close>

definition safeWaitForLoad :: "string \<Rightarrow> nat \<Rightarrow> unit io" where
  \<open>safeWaitForLoad label timeout =
     catch
       (seq (perform (WaitForLoadState ''load'' (Some timeout)))
            (console Log (''[wait] load achieved for: '' @ label)))
       (\<lambda>_. console Log (''[wait-warning] load timeout for '' @ label @ ''; proceeding if DOM state is sufficient.''))\<close>

text \<open>\<open>safeGoto(page, url, label, timeout = 45000)\<close>: the \<open>goto\<close> is not guarded.\<close>

definition wiki_safeGoto :: "string \<Rightarrow> string \<Rightarrow> nat \<Rightarrow> unit io" where
  \<open>wiki_safeGoto url label timeout = steps [
     console Log (''[nav] goto '' @ label @ '': '' @ url),
     perform (Goto url (Some timeout)),
     safeWaitForLoad label 45000]\<close>

text \<open>
  \<open>waitVisible(page, locatorOrSelector, label, timeout = 15000)\<close>; every caller passes a
  locator.
\<close>

definition wiki_waitVisible :: "locator \<Rightarrow> string \<Rightarrow> nat \<Rightarrow> locator io" where
  \<open>wiki_waitVisible l label timeout =
     seq (console Log (''[wait] waiting for visible '' @ label))
    (seq (perform (WaitFor (First l) Visible (Some timeout)))
         (ret (First l)))\<close>

definition ensureLoggedIn :: "bool io" where
  \<open>ensureLoggedIn =
     bind (ask_nat (CountOf (First (Locator ''#pt-userpage'')))) (\<lambda>n.
     if n \<noteq> 0
     then seq (console Log ''[auth] Already logged in (found #pt-userpage).'') (ret True)
     else ret False)\<close>

text \<open>A submit button that is clicked when present; otherwise Enter is pressed in a field.\<close>

definition click_or_enter :: "locator \<Rightarrow> locator \<Rightarrow> unit io" where
  \<open>click_or_enter btn field =
     bind (ask_nat (CountOf btn)) (\<lambda>n.
     if n > 0 then perform (Click btn None None) else perform (Press field ''Enter''))\<close>

definition otpFallbackSel :: string where
  \<open>otpFallbackSel = ''input[id*="oath"], input[name*="oath"], input[id*="otp"], input[name*="otp"]''\<close>

text \<open>
  \<open>handleTwoFactorIfPresent(page)\<close>. The three counts are joined by \<open>||\<close>, so a later one is
  issued only when the earlier ones were zero. \<open>twoFAInput.count\<close> is a function object and
  so truthy: \<open>otp\<close> is always \<open>twoFAInput\<close>. The code obtained from the event is stored in
  \<open>INPUTS.totpCode\<close>, which nothing else reads afterwards.
\<close>

definition handleTwoFactorIfPresent :: "wiki_inputs \<Rightarrow> unit io" where
  \<open>handleTwoFactorIfPresent i =
     (let twoFAHeading = First (GetByRole ''heading'' ''/two-factor|oath|authentication code/i'');
          twoFAInput = First (GetByLabel ''/one-time|authentication code|verification code|2-step/i'') in
      bind (bind (ask_nat (CountOf twoFAHeading)) (\<lambda>n1.
              if n1 > 0 then ret True else
              bind (ask_nat (CountOf twoFAInput)) (\<lambda>n2.
              if n2 > 0 then ret True else
              bind (ask_nat (CountOf (First (Locator otpFallbackSel)))) (\<lambda>n3. ret (n3 > 0))))) (\<lambda>twoFAFound.
      if twoFAFound then
        seq (console Log ''[auth] Two-factor authentication detected.'')
       (bind (if wiki_totpCode i = []
              then seq (console Log ''[auth] Waiting for OTP from Anchor events API'')
                     (bind (call (EventsWaitFor ''wikipedia-rotate-email-totp'')) (\<lambda>r.
                        case r of
                          RThrow err \<Rightarrow> throw err
                        | REvent (Some otpData) \<Rightarrow>
                            if otpData = [] then throw (JsError ''Error'' ''No OTP data received from event.'')
                            else ret otpData
                        | _ \<Rightarrow> throw (JsError ''Error'' ''No OTP data received from event.'')))
              else ret (wiki_totpCode i)) (\<lambda>totpCode.
        bind (wiki_waitVisible twoFAInput ''2FA code input'' 15000) (\<lambda>_.
        steps [
          perform (Fill twoFAInput '''' None),
          perform (TypeText twoFAInput totpCode 20),
          click_or_enter (First (GetByRole ''button'' ''/continue|verify|submit|log in|proceed/i'')) twoFAInput,
          safeWaitForLoad ''post-2FA submission'' 45000])))
      else ret ()))\<close>

text \<open>\<open>page.locator(sel)\<close> when it matches something, otherwise \<open>page.getByLabel(re)\<close>.\<close>

definition locator_or_label :: "string \<Rightarrow> string \<Rightarrow> locator io" where
  \<open>locator_or_label sel label =
     bind (ask_nat (CountOf (First (Locator sel)))) (\<lambda>n.
     if n = 0 then ret (GetByLabel label) else ret (Locator sel))\<close>

text \<open>Click, clear and type into a field.\<close>

definition click_clear_type :: "locator \<Rightarrow> string \<Rightarrow> nat \<Rightarrow> unit io" where
  \<open>click_clear_type l v delay = steps [
     perform (Click l None None),
     perform (Fill l '''' None),
     perform (TypeText l v delay)]\<close>

definition login :: "wiki_inputs \<Rightarrow> unit io" where
  \<open>login i =
     bind ensureLoggedIn (\<lambda>li. if li then ret () else
     seq (wiki_safeGoto (wiki_baseUrl i @ ''/w/index.php?title=Special:UserLogin'') ''Login page'' 45000)
    (bind ensureLoggedIn (\<lambda>li2. if li2 then ret () else
     bind (locator_or_label ''#wpName1'' ''/username|user name/i'') (\<lambda>userInput.
     bind (wiki_waitVisible userInput ''username input'' 15000) (\<lambda>user.
     seq (click_clear_type user (wiki_username i) 15)
    (bind (locator_or_label ''#wpPassword1'' ''/password/i'') (\<lambda>passInput.
     bind (wiki_waitVisible passInput ''password input'' 15000) (\<lambda>pass.
     steps [
       click_clear_type pass (wiki_password i) 15,
       click_or_enter (First (Locator ''#wpLoginAttempt, [name="wploginattempt"]'')) pass,
       safeWaitForLoad ''post-login'' 45000,
       handleTwoFactorIfPresent i,
       bind ensureLoggedIn (\<lambda>li3.
         if \<not> li3 then throw (JsError ''Error'' ''Login unsuccessful: could not confirm logged-in state.'')
         else ret ())]))))))))\<close>

definition passwordFormPath :: string where
  \<open>passwordFormPath = ''Special:ChangeCredentials/MediaWiki%5CAuth%5CPasswordAuthenticationRequest''\<close>

definition navigateToChangePassword :: "wiki_inputs \<Rightarrow> unit io" where
  \<open>navigateToChangePassword i =
     (let directPasswordForm = wiki_baseUrl i @ ''/wiki/'' @ passwordFormPath in
      seq (wiki_safeGoto directPasswordForm ''Password change form'' 45000)
     (bind page_url (\<lambda>u.
      if \<not> str_includes u passwordFormPath then
        seq (wiki_safeGoto (wiki_baseUrl i @ ''/wiki/Special:ChangeCredentials'') ''Change Credentials overview'' 45000)
       (let pwdEntry = Locator ''dt:has-text("Password-based authentication")'' in
        bind (ask_nat (CountOf (First pwdEntry))) (\<lambda>n.
        if n > 0
        then seq (perform (Click pwdEntry None None)) (safeWaitForLoad ''open password change form'' 45000)
        else wiki_safeGoto directPasswordForm ''Password change form (retry)'' 45000))
      else ret ())))\<close>

definition verifyIdentityIfPrompted :: "wiki_inputs \<Rightarrow> unit io" where
  \<open>verifyIdentityIfPrompted i =
     bind (locator_or_label ''#wpPassword1'' ''/password/i'') (\<lambda>verifyPass.
     bind (bind (ask_nat (CountOf (First verifyPass))) (\<lambda>n.
             if \<not> n > 0 then ret False else
             bind (ask_nat (CountOf (First (GetByLabel ''/new password/i'')))) (\<lambda>m. ret (m = 0)))) (\<lambda>needVerify.
     if needVerify then steps [
       console Log ''[verify] Identity verification detected; entering current password.'',
       click_clear_type (First verifyPass) (wiki_password i) 15,
       perform (Press (First verifyPass) ''Enter''),
       safeWaitForLoad ''post-verify identity'' 45000]
     else ret ()))\<close>

definition changePassword :: "wiki_inputs \<Rightarrow> unit io" where
  \<open>changePassword i =
     (let currentPw = First (GetByLabel ''/current password/i'');
          newPw = First (GetByLabel ''/new password/i'');
          confirmPw = First (GetByLabel ''/confirm new password|retype new password|confirm password/i'');
          submitBtn = First (GetByRole ''button'' ''/save|change|submit|apply/i'') in
      steps [
        verifyIdentityIfPrompted i,
        bind (ask_nat (CountOf currentPw)) (\<lambda>n.
          if n > 0 then click_clear_type currentPw (wiki_password i) 15 else ret ()),
        seq (wiki_waitVisible newPw ''New password'' 15000) (ret ()),
        click_clear_type newPw (wiki_newPassword i) 15,
        seq (wiki_waitVisible confirmPw ''Confirm new password'' 15000) (ret ()),
        click_clear_type confirmPw (wiki_newPassword i) 15,
        click_or_enter submitBtn confirmPw,
        safeWaitForLoad ''submit password change'' 45000,
        bind page_url (\<lambda>u.
        bind (ask_nat (CountOf (First (Locator ''.mw-message-box-error, .oo-ui-messageDialog-error'')))) (\<lambda>ne.
          if str_includes u passwordFormPath \<and> ne > 0
          then throw (JsError ''Error'' ''Password change failed due to validation or policy error. Review new password complexity and try again.'')
          else ret ())),
        bind (ask_nat (CountOf (First (Locator ''.mw-message-box-success, .mw-notification-area, .mw-notification'')))) (\<lambda>ns.
          if ns > 0 then console Log ''[success] Success message detected after password change.''
          else console Log ''[info] No explicit success banner detected; assuming success if not on form.'')])\<close>

definition ChangeWikipediaPassword :: "penv \<Rightarrow> run_result io" where
  \<open>ChangeWikipediaPassword pe =
     seq (openPage pe)
       (let i = wiki_INPUTS pe in
        if wiki_username i = [] \<or> wiki_password i = [] \<or> wiki_newPassword i = []
        then (let msg = ''Missing required inputs: ANCHOR_WIKI_USERNAME, ANCHOR_WIKI_PASSWORD, ANCHOR_WIKI_NEW_PASSWORD'' in
              seq (console Error msg) (ret \<lparr>success = False, message = msg\<rparr>))
        else catch
               (seq (steps [login i, navigateToChangePassword i, changePassword i])
                  (ret \<lparr>success = True, message = ''Logged in and submitted password change successfully.''\<rparr>))
               (\<lambda>error.
                  seq (console Error (''[error] '' @ message_or_err error))
                    (ret \<lparr>success = False, message = ''Failed during workflow: '' @ message_or_err error\<rparr>)))\<close>

section \<open>Notions used to state the properties\<close>

definition is_throw :: "response \<Rightarrow> bool" where
  "is_throw r = (case r of RThrow _ \<Rightarrow> True | _ \<Rightarrow> False)"

text \<open>The message of a thrown \<open>Error\<close>; \<open>undefined\<close> carries none.\<close>

fun thrown_message :: "js_error \<Rightarrow> string" where
  "thrown_message JsUndefined = []"
| "thrown_message (JsError n m) = m"

text \<open>A computation that returns a value whatever the environment does.\<close>

definition returns :: "'a io \<Rightarrow> bool" where
  "returns m = (\<forall>e s. \<exists>x. fst (m e s) = Inr x)"

text \<open>
  A flow is contained when each of its runs returns a result, or raises the very error
  that obtaining the page raised.
\<close>

definition contained :: "penv \<Rightarrow> run_result io \<Rightarrow> bool" where
  "contained pe flow = (\<forall>e. (\<exists>r. fst (run flow e) = Inr r) \<or>
       (\<exists>err. fst (run (openPage pe) e) = Inl err \<and> fst (run flow e) = Inl err))"

text \<open>
  The \<open>try\<close> block of a flow converts an exception when, the page being obtained, an
  exception of the block gives a failed result whose message includes the exception's.
\<close>

definition converts :: "penv \<Rightarrow> run_result io \<Rightarrow> run_result io \<Rightarrow> bool" where
  "converts pe flow body = (\<forall>e s1 err.
       run (openPage pe) e = (Inr (), s1) \<and> fst (body e s1) = Inl err \<longrightarrow>
       (\<exists>msg. fst (run flow e) = Inr \<lparr>success = False, message = msg\<rparr>
              \<and> str_includes msg (thrown_message err)))"

text \<open>
  The required inputs of each flow: the variable names the script reads for an input
  (aliases included), each with the value the script ends up with.
\<close>

definition fandom_required :: "penv \<Rightarrow> (string \<times> string option) list" where
  \<open>fandom_required pe = [
     (''ANCHOR_FANDOM_USERNAME'', fandom_username (fandom_INPUTS pe)),
     (''ANCHOR_FANDOM_PASSWORD'', fandom_password (fandom_INPUTS pe)),
     (''ANCHOR_FANDOM_NEW_PASSWORD'', fandom_newPassword (fandom_INPUTS pe))]\<close>

definition pcpp_required :: "penv \<Rightarrow> (string \<times> string option) list" where
  \<open>pcpp_required pe = [
     (''ANCHOR_USERNAME'', pcpp_username (pcpp_INPUTS pe)),
     (''ANCHOR_LOGIN'', pcpp_username (pcpp_INPUTS pe)),
     (''ANCHOR_EMAIL'', pcpp_username (pcpp_INPUTS pe)),
     (''ANCHOR_PASSWORD'', pcpp_oldPassword (pcpp_INPUTS pe)),
     (''ANCHOR_OLD_PASSWORD'', pcpp_oldPassword (pcpp_INPUTS pe)),
     (''ANCHOR_NEW_PASSWORD'', pcpp_newPassword (pcpp_INPUTS pe))]\<close>

definition zillow_required :: "penv \<Rightarrow> (string \<times> string option) list" where
  \<open>zillow_required pe = [
     (''ANCHOR_EMAIL'', zillow_email (zillow_INPUTS pe)),
     (''ANCHOR_CURRENT_PASSWORD'', zillow_currentPassword (zillow_INPUTS pe)),
     (''ANCHOR_NEW_PASSWORD'', zillow_newPassword (zillow_INPUTS pe))]\<close>

definition weather_required :: "penv \<Rightarrow> (string \<times> string option) list" where
  \<open>weather_required pe = [
     (''ANCHOR_WEATHER_EMAIL'', weather_username (weather_INPUTS pe)),
     (''ANCHOR_USERNAME'', weather_username (weather_INPUTS pe)),
     (''ANCHOR_WEATHER_PASSWORD'', weather_password (weather_INPUTS pe)),
     (''ANCHOR_PASSWORD'', weather_password (weather_INPUTS pe)),
     (''ANCHOR_WEATHER_NEW_PASSWORD'', weather_newPassword (weather_INPUTS pe)),
     (''ANCHOR_NEW_PASSWORD'', weather_newPassword (weather_INPUTS pe))]\<close>

definition wiki_required :: "penv \<Rightarrow> (string \<times> string option) list" where
  \<open>wiki_required pe = [
     (''ANCHOR_WIKI_USERNAME'', pe ''ANCHOR_WIKI_USERNAME''),
     (''ANCHOR_WIKI_PASSWORD'', pe ''ANCHOR_WIKI_PASSWORD''),
     (''ANCHOR_WIKI_NEW_PASSWORD'', pe ''ANCHOR_WIKI_NEW_PASSWORD'')]\<close>

text \<open>The names whose input is absent or empty.\<close>

definition names_missing :: "(string \<times> string option) list \<Rightarrow> string list" where
  "names_missing req = map fst (filter (\<lambda>(n, v). \<not> truthy v) req)"

text \<open>
  A flow reports its missing inputs when, the page being obtained and some required input
  missing, the run returns a failed result whose message includes every missing name.
\<close>

definition reports_missing :: "penv \<Rightarrow> run_result io \<Rightarrow> (string \<times> string option) list \<Rightarrow> bool" where
  "reports_missing pe flow req = (\<forall>e s1.
       run (openPage pe) e = (Inr (), s1) \<and> names_missing req \<noteq> [] \<longrightarrow>
       (\<exists>msg. fst (run flow e) = Inr \<lparr>success = False, message = msg\<rparr>
              \<and> (\<forall>n \<in> set (names_missing req). str_includes msg n)))"

text \<open>
  A flow passes on the error of obtaining the page when every run in which obtaining the
  page raises an error raises that same error.
\<close>

definition passes_on :: "penv \<Rightarrow> run_result io \<Rightarrow> bool" where
  "passes_on pe flow = (\<forall>e err. fst (run (openPage pe) e) = Inl err \<longrightarrow> fst (run flow e) = Inl err)"

text \<open>The operations that obtain the browser and its page; all others act on the page.\<close>

fun is_page_op :: "op \<Rightarrow> bool" where
  "is_page_op (BrowserConnect _) = False"
| "is_page_op BrowserCreate = False"
| "is_page_op ContextsPages = False"
| "is_page_op _ = True"

text \<open>
  A flow validates before it touches the page when, some required input missing, the run
  issues exactly the operations that obtaining the page issues, none of them a page
  operation.
\<close>

definition validates_before_page ::
    "penv \<Rightarrow> run_result io \<Rightarrow> (string \<times> string option) list \<Rightarrow> bool" where
  "validates_before_page pe flow req = (\<forall>e.
       names_missing req \<noteq> [] \<longrightarrow>
       trace (snd (run flow e)) = trace (snd (run (openPage pe) e))
       \<and> (\<forall>o' \<in> set (trace (snd (run flow e))). \<not> is_page_op o'))"

text \<open>Environments and inputs used in examples.\<close>

definition env_ok :: env where
  "env_ok = \<lparr>resp = (\<lambda>n. RUnit), url_host = (\<lambda>u. None), url_hostname = (\<lambda>u. None),
             left_first = (\<lambda>n. True)\<rparr>"

definition env_no_browser :: env where
  \<open>env_no_browser = \<lparr>resp = (\<lambda>n. RThrow (JsError ''Error'' ''session unavailable'')),
     url_host = (\<lambda>u. None), url_hostname = (\<lambda>u. None), left_first = (\<lambda>n. True)\<rparr>\<close>

definition pe_none :: penv where
  "pe_none = (\<lambda>n. None)"

definition fandom_try :: "penv \<Rightarrow> run_result io" where
  "fandom_try pe = (let i = fandom_INPUTS pe in
     fandom_body (buildUrls (fandom_baseUrl i)) (given (fandom_username i)) (given (fandom_password i))
       (given (fandom_newPassword i)))"

definition pcpp_try :: "penv \<Rightarrow> run_result io" where
  "pcpp_try pe = pcpp_body (pcpp_INPUTS pe)"

definition zillow_try :: "penv \<Rightarrow> run_result io" where
  "zillow_try pe = zillow_body (zillow_INPUTS pe)"

definition weather_try :: "penv \<Rightarrow> run_result io" where
  "weather_try pe = (let i = weather_INPUTS pe in
     weather_body (stripTrailingSlash (weather_baseUrl i)) (given (weather_username i))
       (given (weather_password i))
       (if weather_currentPassword i \<noteq> [] then weather_currentPassword i else given (weather_password i))
       (given (weather_newPassword i)))"

definition wiki_try :: "penv \<Rightarrow> run_result io" where
  \<open>wiki_try pe = (let i = wiki_INPUTS pe in
     seq (steps [login i, navigateToChangePassword i, changePassword i])
       (ret \<lparr>success = True, message = ''Logged in and submitted password change successfully.''\<rparr>))\<close>

definition guarded ::
    "penv \<Rightarrow> run_result io \<Rightarrow> (string \<times> string option) list \<Rightarrow> run_result io \<Rightarrow> bool" where
  "guarded pe flow req body =
     (contained pe flow \<and> (names_missing req = [] \<longrightarrow> converts pe flow body))"

definition pe_fandom :: penv where
  \<open>pe_fandom = (\<lambda>n. if n = ''ANCHOR_FANDOM_USERNAME'' then Some ''alice''
                     else if n = ''ANCHOR_FANDOM_PASSWORD'' then Some ''P@ss1''
                     else if n = ''ANCHOR_FANDOM_NEW_PASSWORD'' then Some ''P@ss2!''
                     else None)\<close>

definition env_goto_fails :: env where
  \<open>env_goto_fails = \<lparr>
     resp = (\<lambda>n. if n = 2 then RThrow (JsError ''TimeoutError'' ''page.goto: Timeout 30000ms exceeded.'')
                  else RUnit),
     url_host = (\<lambda>u. None), url_hostname = (\<lambda>u. None), left_first = (\<lambda>n. True)\<rparr>\<close>

definition pe_email_only :: penv where
  \<open>pe_email_only = (\<lambda>n. if n = ''ANCHOR_EMAIL'' then Some ''alice@example.com'' else None)\<close>

text \<open>
  Every operation a computation issues satisfies \<open>P\<close>; in particular the computation only
  adds to the trace.
\<close>

definition emits :: "'a io \<Rightarrow> (op \<Rightarrow> bool) \<Rightarrow> bool" where
  "emits m P = (\<forall>e s. \<exists>ys. trace (snd (m e s)) = trace s @ ys \<and> list_all P ys)"

text \<open>
  Whenever the computation issues the operation \<open>X\<close>, as the k-th operation of the run, \<open>Q\<close>
  holds of the environment, of k, of the outcome and of the final trace (\<open>on_issue\<close>) or
  of the final state (\<open>after_issue\<close>).
\<close>

definition on_issue ::
    "'a io \<Rightarrow> op \<Rightarrow> (env \<Rightarrow> nat \<Rightarrow> (js_error + 'a) \<Rightarrow> op list \<Rightarrow> bool) \<Rightarrow> bool" where
  "on_issue m X Q = (\<forall>e s. \<exists>ys. trace (snd (m e s)) = trace s @ ys \<and>
       (\<forall>k < length ys. ys ! k = X \<longrightarrow> Q e (length (trace s) + k) (fst (m e s)) (trace (snd (m e s)))))"

definition after_issue ::
    "'a io \<Rightarrow> op \<Rightarrow> (env \<Rightarrow> nat \<Rightarrow> (js_error + 'a) \<Rightarrow> st \<Rightarrow> bool) \<Rightarrow> bool" where
  "after_issue m X Q = (\<forall>e s. \<exists>ys. trace (snd (m e s)) = trace s @ ys \<and>
       (\<forall>k < length ys. ys ! k = X \<longrightarrow> Q e (length (trace s) + k) (fst (m e s)) (snd (m e s))))"

named_theorems emits_intros

definition url_at :: "env \<Rightarrow> nat \<Rightarrow> string" where
  "url_at e n = (case resp e n of RStr v \<Rightarrow> v | _ \<Rightarrow> [])"

definition thrown_at :: "env \<Rightarrow> nat \<Rightarrow> js_error" where
  "thrown_at e n = (case resp e n of RThrow err \<Rightarrow> err | _ \<Rightarrow> JsUndefined)"

definition verify_op :: op where
  \<open>verify_op = IsVisible (First (Locator ''text=Your password has been changed.'')) None\<close>

definition pcpp_verdict :: "string \<Rightarrow> bool \<Rightarrow> run_result" where
  \<open>pcpp_verdict url textVisible =
     (if str_includes url ''/accounts/password/change/done/'' \<or> textVisible
      then \<lparr>success = True, message = ''Password changed successfully.''\<rparr>
      else \<lparr>success = False,
            message = ''Password change may have failed: success URL or confirmation text not detected.''\<rparr>)\<close>


definition signIn_ops :: "string \<Rightarrow> string \<Rightarrow> op list" where
  "signIn_ops username password = [
     WaitForSelector SEL_signinUsername Visible None,
     Click (First (Locator SEL_signinUsername)) None None,
     Fill (First (Locator SEL_signinUsername)) username (Some 15000),
     Click (First (Locator SEL_signinPassword)) None None,
     Fill (First (Locator SEL_signinPassword)) password None,
     WaitForNavigation None,
     Click (First (Locator SEL_signinSubmit)) None None,
     Url]"





definition pe_alice :: penv where
  \<open>pe_alice = (\<lambda>n. if n = ''ANCHOR_USERNAME'' then Some ''alice''
                    else if n = ''ANCHOR_OLD_PASSWORD'' then Some ''P@ss1''
                    else if n = ''ANCHOR_NEW_PASSWORD'' then Some ''P@ss2!''
                    else None)\<close>

text \<open>A PCPartPicker page that logs in, accepts the form and ends at the given URL without the text.\<close>

definition env_pcpp_final :: "string \<Rightarrow> env" where
  \<open>env_pcpp_final url = \<lparr>
     resp = (\<lambda>n. if n = 10 then RBool True
                  else if n = 11 then RBool False
                  else if n = 12 then RStr ''https://pcpartpicker.com/''
                  else if n = 22 then RStr url
                  else if n = 23 then RBool False
                  else RUnit),
     url_host = (\<lambda>u. None), url_hostname = (\<lambda>u. None), left_first = (\<lambda>n. True)\<rparr>\<close>

text \<open>The platform's URL parser on the addresses the examples use.\<close>

definition host_of_simple :: "string \<Rightarrow> string option" where
  \<open>host_of_simple u =
     (if u = ''https://www.zillow.com/Logout.htm'' then Some ''www.zillow.com''
      else if u = ''https://www.zillow.com/'' then Some ''www.zillow.com''
      else if u = ''https://pcpartpicker.com/accounts/login/'' then Some ''pcpartpicker.com''
      else if u = ''chrome-error://chromewebdata/'' then Some ''chromewebdata''
      else None)\<close>

text \<open>A Zillow page on which everything works up to the Apply click (operation 19); then
  both waits time out, the logout navigation fails and the page is left on an error page.\<close>

definition env_zillow_lost :: env where
  \<open>env_zillow_lost = \<lparr>
     resp = (\<lambda>n. if n = 2 \<or> n = 9 then RResp None
                  else if n = 20 \<or> n = 21 \<or> n = 22 then RThrow (JsError ''TimeoutError'' ''Timeout exceeded.'')
                  else if n = 23 then RStr ''chrome-error://chromewebdata/''
                  else RUnit),
     url_host = host_of_simple, url_hostname = host_of_simple, left_first = (\<lambda>n. True)\<rparr>\<close>

definition pe_zillow :: penv where
  \<open>pe_zillow = (\<lambda>n. if n = ''ANCHOR_EMAIL'' then Some ''alice@example.com''
                     else if n = ''ANCHOR_CURRENT_PASSWORD'' then Some ''P@ss1''
                     else if n = ''ANCHOR_NEW_PASSWORD'' then Some ''P@ss2!''
                     else None)\<close>

definition same_host :: "env \<Rightarrow> string \<Rightarrow> string \<Rightarrow> bool" where
  "same_host e target current =
     (case (url_host e target, url_host e current) of
        (Some a, Some b) \<Rightarrow> a \<noteq> [] \<and> b \<noteq> [] \<and> a = b
      | _ \<Rightarrow> False)"

text \<open>
  Zillow's \<open>safeGoto\<close> on the navigation issued as operation n: whether it reports failure,
  and the lines it logs.
\<close>

definition nav_failed :: "env \<Rightarrow> string \<Rightarrow> nat \<Rightarrow> bool" where
  "nav_failed e url n = (is_throw (resp e n) \<and> \<not> same_host e url (url_at e (Suc n)))"

definition nav_lines :: "env \<Rightarrow> string \<Rightarrow> string \<Rightarrow> nat \<Rightarrow> (level \<times> string) list" where
  \<open>nav_lines e url label n =
     (Log, ''[NAV] '' @ label @ '': '' @ url) #
     (case resp e n of
        RThrow err \<Rightarrow>
          if same_host e url (url_at e (Suc n))
          then [(Log, ''[NAV] '' @ label @ '': load timeout/warning but on expected host ''
                        @ given (url_host e (url_at e (Suc n))) @ ''. Continuing.'')]
          else [(Error, ''[NAV] '' @ label @ '': failed to navigate -> '' @ message_or_err err)]
      | RResp (Some h) \<Rightarrow>
          if resp_ok h then []
          else [(Error, ''[NAV] '' @ label @ '': HTTP '' @ show_nat (resp_status h) @ '' '' @ resp_statusText h)]
      | _ \<Rightarrow> [(Log, ''[NAV] '' @ label @ '': no response object returned (may still be fine).'')])\<close>

text \<open>
  What a run of the Zillow flow does after the Apply click, issued as operation k: it
  returns success; it issues the two waits and the logout navigation, and reads the URL
  when the navigation threw; its log ends with the lines of the logout navigation, the
  line about the logout exactly when the navigation failed, and the success line.
\<close>

definition after_apply :: "zillow_inputs \<Rightarrow> env \<Rightarrow> nat \<Rightarrow> (js_error + run_result) \<Rightarrow> st \<Rightarrow> bool" where
  \<open>after_apply i e k r s =
     (r = Inr \<lparr>success = True, message = ''Password change flow executed and logout attempted successfully.''\<rparr>
      \<and> drop (Suc k) (trace s) =
          [WaitForURLHost ''www.zillow.com'' 15000, WaitFor passwordDialog Detached (Some 15000),
           Goto (zillow_logoutUrl i) (Some 30000)]
          @ (if is_throw (resp e (k + 3)) then [Url] else [])
      \<and> suffix (nav_lines e (zillow_logoutUrl i) ''Logout'' (k + 3)
                 @ (if nav_failed e (zillow_logoutUrl i) (k + 3)
                    then [(Error, ''Logout navigation experienced an issue, but continuing to finalize.'')]
                    else [])
                 @ [(Info, ''Password change flow executed and logout attempted successfully.'')])
           (logs s))\<close>

definition click_op :: "string \<Rightarrow> op" where
  "click_op selector = Click (First (Locator selector)) None (Some 15000)"

definition attempt_ops :: "string \<Rightarrow> nat \<Rightarrow> op list" where
  "attempt_ops selector n = concat (replicate n [click_op selector, WaitForTimeout 750])"

text \<open>From operation n on, d attempts in a row fail, each followed by a backoff wait that completes.\<close>

definition attempts_fail :: "env \<Rightarrow> nat \<Rightarrow> nat \<Rightarrow> bool" where
  "attempts_fail e n d =
     list_all (\<lambda>j. is_throw (resp e (n + 2 * j)) \<and> \<not> is_throw (resp e (n + 2 * j + 1))) [0..<d]"

definition env_two_fail :: env where
  \<open>env_two_fail = \<lparr>
     resp = (\<lambda>n. if n = 0 then RThrow (JsError ''TimeoutError'' ''click 1 timed out'')
                  else if n = 2 then RThrow (JsError ''TimeoutError'' ''click 2 timed out'')
                  else RUnit),
     url_host = (\<lambda>u. None), url_hostname = (\<lambda>u. None), left_first = (\<lambda>n. True)\<rparr>\<close>

definition env_first_fails :: env where
  \<open>env_first_fails = \<lparr>
     resp = (\<lambda>n. if n = 0 then RThrow (JsError ''TimeoutError'' ''click 1 timed out'') else RUnit),
     url_host = (\<lambda>u. None), url_hostname = (\<lambda>u. None), left_first = (\<lambda>n. True)\<rparr>\<close>

definition env_page_closed :: env where
  \<open>env_page_closed = \<lparr>
     resp = (\<lambda>n. if n = 0 then RThrow (JsError ''TimeoutError'' ''click 1 timed out'')
                  else RThrow (JsError ''Error'' ''Target page, context or browser has been closed'')),
     url_host = (\<lambda>u. None), url_hostname = (\<lambda>u. None), left_first = (\<lambda>n. True)\<rparr>\<close>

definition env_nav_lost :: env where
  \<open>env_nav_lost = \<lparr>
     resp = (\<lambda>n. if n = 0 \<or> n = 1 then RThrow (JsError ''TimeoutError'' ''Timeout exceeded.'')
                  else RStr ''chrome-error://chromewebdata/''),
     url_host = host_of_simple, url_hostname = host_of_simple, left_first = (\<lambda>n. True)\<rparr>\<close>

definition env_nav_slow :: env where
  \<open>env_nav_slow = \<lparr>
     resp = (\<lambda>n. if n = 0 then RThrow (JsError ''TimeoutError'' ''Timeout exceeded.'')
                  else RStr ''https://www.zillow.com/''),
     url_host = host_of_simple, url_hostname = host_of_simple, left_first = (\<lambda>n. True)\<rparr>\<close>


text \<open>A page on which operation k times out and every other operation succeeds.\<close>

definition env_stop :: "nat \<Rightarrow> env" where
  \<open>env_stop k = \<lparr>
     resp = (\<lambda>n. if n = k then RThrow (JsError ''TimeoutError'' ''Timeout exceeded.'') else RUnit),
     url_host = (\<lambda>u. None), url_hostname = (\<lambda>u. None), left_first = (\<lambda>n. True)\<rparr>\<close>

text \<open>A page on which every element that is counted is found once.\<close>

definition env_found :: env where
  "env_found = \<lparr>resp = (\<lambda>n. RNat 1), url_host = (\<lambda>u. None), url_hostname = (\<lambda>u. None),
                left_first = (\<lambda>n. True)\<rparr>"

definition pe_weather :: penv where
  \<open>pe_weather = (\<lambda>n. if n = ''ANCHOR_WEATHER_EMAIL'' then Some ''alice@example.com''
                      else if n = ''ANCHOR_WEATHER_PASSWORD'' then Some ''P@ss1''
                      else if n = ''ANCHOR_WEATHER_NEW_PASSWORD'' then Some ''P@ss2!''
                      else None)\<close>

definition pe_wiki :: penv where
  \<open>pe_wiki = (\<lambda>n. if n = ''ANCHOR_WIKI_USERNAME'' then Some ''Alice''
                   else if n = ''ANCHOR_WIKI_PASSWORD'' then Some ''P@ss1''
                   else if n = ''ANCHOR_WIKI_NEW_PASSWORD'' then Some ''P@ss2!''
                   else None)\<close>

text \<open>An operation with the value it writes into the page blanked.\<close>

fun hide :: "op \<Rightarrow> op" where
  "hide (Fill l v t) = Fill l [] t"
| "hide (TypeText l v delay) = TypeText l [] delay"
| "hide o' = o'"

text \<open>
  A page answers an operation by its position in the run and by the operation itself, so
  that an answer (an error message, say) may depend on what the operation carries. In a
  run with trace \<open>t\<close> the environment gave the answers of the page \<open>P\<close> when its n-th answer
  is what \<open>P\<close> answers to the n-th operation issued.
\<close>

type_synonym page = "nat \<Rightarrow> op \<Rightarrow> response"

definition answered :: "page \<Rightarrow> env \<Rightarrow> op list \<Rightarrow> bool" where
  "answered P e t = list_all (\<lambda>k. resp e k = P k (t ! k)) [0..<length t]"

text \<open>The page \<open>P\<close> kept from seeing the values written: its answers cannot depend on them.\<close>

definition discreet :: "page \<Rightarrow> page" where
  "discreet P = (\<lambda>n o'. P n (hide o'))"

definition same_parser :: "env \<Rightarrow> env \<Rightarrow> bool" where
  "same_parser e1 e2 =
     (url_host e1 = url_host e2 \<and> url_hostname e1 = url_hostname e2 \<and> left_first e1 = left_first e2)"

text \<open>
  Two states agree on what is observable when they hold the same log and have issued the
  same operations up to the values written; two computations are similar when they only
  add to the trace and, from such states and against the same discreet page, end in such
  states with the same outcome.
\<close>

definition low_eq :: "st \<Rightarrow> st \<Rightarrow> bool" where
  "low_eq s1 s2 = (logs s1 = logs s2 \<and> map hide (trace s1) = map hide (trace s2))"

definition sim :: "'a io \<Rightarrow> 'a io \<Rightarrow> bool" where
  "sim m1 m2 =
     (emits m1 (\<lambda>o'. True) \<and> emits m2 (\<lambda>o'. True)
      \<and> (\<forall>P e1 e2 s1 s2.
            same_parser e1 e2 \<and> low_eq s1 s2
            \<and> answered (discreet P) e1 (trace (snd (m1 e1 s1)))
            \<and> answered (discreet P) e2 (trace (snd (m2 e2 s2))) \<longrightarrow>
            fst (m1 e1 s1) = fst (m2 e2 s2) \<and> low_eq (snd (m1 e1 s1)) (snd (m2 e2 s2))))"

named_theorems sim_intros

text \<open>
  Two runs are against the same page when that page, kept from seeing the values written,
  gave the answers in both, and the platform is the same; they have the same output when
  they end with the same result (or the same error) and the same log.
\<close>

definition same_page :: "page \<Rightarrow> 'a io \<Rightarrow> env \<Rightarrow> 'a io \<Rightarrow> env \<Rightarrow> bool" where
  "same_page P m1 e1 m2 e2 =
     (same_parser e1 e2
      \<and> answered (discreet P) e1 (trace (snd (run m1 e1)))
      \<and> answered (discreet P) e2 (trace (snd (run m2 e2))))"

definition same_output :: "'a io \<Rightarrow> env \<Rightarrow> 'a io \<Rightarrow> env \<Rightarrow> bool" where
  "same_output m1 e1 m2 e2 =
     (fst (run m1 e1) = fst (run m2 e2) \<and> logs (snd (run m1 e1)) = logs (snd (run m2 e2)))"

text \<open>Two credentials that are both supplied or both missing; two that \<open>maskSecret\<close> renders alike.\<close>

definition same_presence :: "string option \<Rightarrow> string option \<Rightarrow> bool" where
  "same_presence a b = (truthy a = truthy b)"

definition same_mask :: "string option \<Rightarrow> string option \<Rightarrow> bool" where
  "same_mask a b = (maskSecret a = maskSecret b)"

text \<open>
  Input assignments of a flow that differ only in the values of the credentials supplied:
  they agree on the session and on the addresses, and the same credentials are present.
  For Zillow, which logs masks, the masks of the credentials are the same as well.
\<close>

definition fandom_alike :: "penv \<Rightarrow> penv \<Rightarrow> bool" where
  "fandom_alike pe1 pe2 =
     (sessionId pe1 = sessionId pe2
      \<and> fandom_baseUrl (fandom_INPUTS pe1) = fandom_baseUrl (fandom_INPUTS pe2)
      \<and> same_presence (fandom_username (fandom_INPUTS pe1)) (fandom_username (fandom_INPUTS pe2))
      \<and> same_presence (fandom_password (fandom_INPUTS pe1)) (fandom_password (fandom_INPUTS pe2))
      \<and> same_presence (fandom_newPassword (fandom_INPUTS pe1)) (fandom_newPassword (fandom_INPUTS pe2)))"

definition pcpp_alike :: "penv \<Rightarrow> penv \<Rightarrow> bool" where
  "pcpp_alike pe1 pe2 =
     (sessionId pe1 = sessionId pe2
      \<and> pcpp_loginUrl (pcpp_INPUTS pe1) = pcpp_loginUrl (pcpp_INPUTS pe2)
      \<and> pcpp_changePasswordUrl (pcpp_INPUTS pe1) = pcpp_changePasswordUrl (pcpp_INPUTS pe2)
      \<and> same_presence (pcpp_username (pcpp_INPUTS pe1)) (pcpp_username (pcpp_INPUTS pe2))
      \<and> same_presence (pcpp_oldPassword (pcpp_INPUTS pe1)) (pcpp_oldPassword (pcpp_INPUTS pe2))
      \<and> same_presence (pcpp_newPassword (pcpp_INPUTS pe1)) (pcpp_newPassword (pcpp_INPUTS pe2)))"

definition zillow_alike :: "penv \<Rightarrow> penv \<Rightarrow> bool" where
  "zillow_alike pe1 pe2 =
     (sessionId pe1 = sessionId pe2
      \<and> zillow_startUrl (zillow_INPUTS pe1) = zillow_startUrl (zillow_INPUTS pe2)
      \<and> zillow_profileUrl (zillow_INPUTS pe1) = zillow_profileUrl (zillow_INPUTS pe2)
      \<and> zillow_logoutUrl (zillow_INPUTS pe1) = zillow_logoutUrl (zillow_INPUTS pe2)
      \<and> same_mask (zillow_email (zillow_INPUTS pe1)) (zillow_email (zillow_INPUTS pe2))
      \<and> same_mask (zillow_currentPassword (zillow_INPUTS pe1)) (zillow_currentPassword (zillow_INPUTS pe2))
      \<and> same_mask (zillow_newPassword (zillow_INPUTS pe1)) (zillow_newPassword (zillow_INPUTS pe2)))"

definition weather_alike :: "penv \<Rightarrow> penv \<Rightarrow> bool" where
  "weather_alike pe1 pe2 =
     (sessionId pe1 = sessionId pe2
      \<and> weather_baseUrl (weather_INPUTS pe1) = weather_baseUrl (weather_INPUTS pe2)
      \<and> same_presence (weather_username (weather_INPUTS pe1)) (weather_username (weather_INPUTS pe2))
      \<and> same_presence (weather_password (weather_INPUTS pe1)) (weather_password (weather_INPUTS pe2))
      \<and> same_presence (weather_newPassword (weather_INPUTS pe1)) (weather_newPassword (weather_INPUTS pe2)))"

definition wiki_alike :: "penv \<Rightarrow> penv \<Rightarrow> bool" where
  "wiki_alike pe1 pe2 =
     (sessionId pe1 = sessionId pe2
      \<and> wiki_baseUrl (wiki_INPUTS pe1) = wiki_baseUrl (wiki_INPUTS pe2)
      \<and> same_presence (Some (wiki_username (wiki_INPUTS pe1))) (Some (wiki_username (wiki_INPUTS pe2)))
      \<and> same_presence (Some (wiki_password (wiki_INPUTS pe1))) (Some (wiki_password (wiki_INPUTS pe2)))
      \<and> same_presence (Some (wiki_newPassword (wiki_INPUTS pe1))) (Some (wiki_newPassword (wiki_INPUTS pe2)))
      \<and> same_presence (Some (wiki_totpCode (wiki_INPUTS pe1))) (Some (wiki_totpCode (wiki_INPUTS pe2))))"

definition pe_zillow_b :: penv where
  \<open>pe_zillow_b = (\<lambda>n. if n = ''ANCHOR_EMAIL'' then Some ''robert@example.org''
                       else if n = ''ANCHOR_CURRENT_PASSWORD'' then Some ''Q#rt9''
                       else if n = ''ANCHOR_NEW_PASSWORD'' then Some ''Zx8&kL''
                       else None)\<close>

definition pe_zillow_long :: penv where
  \<open>pe_zillow_long = (\<lambda>n. if n = ''ANCHOR_EMAIL'' then Some ''alice@example.com''
                          else if n = ''ANCHOR_CURRENT_PASSWORD'' then Some ''P@ssw0rd1''
                          else if n = ''ANCHOR_NEW_PASSWORD'' then Some ''P@ss2!''
                          else None)\<close>

text \<open>
  A page on which filling the field \<open>l\<close> times out and everything else succeeds; and the
  same page with the page library's error message, which quotes the value being filled.
\<close>

definition page_stuck :: "locator \<Rightarrow> page" where
  \<open>page_stuck l n o' =
     (case o' of
        Fill l' v t \<Rightarrow> if l' = l then RThrow (JsError ''TimeoutError'' ''Timeout exceeded.'') else RUnit
      | _ \<Rightarrow> RUnit)\<close>

definition page_echo :: "locator \<Rightarrow> page" where
  \<open>page_echo l n o' =
     (case o' of
        Fill l' v t \<Rightarrow>
          if l' = l
          then RThrow (JsError ''TimeoutError''
                 (''locator.fill: Timeout 30000ms exceeded. Call log: fill("'' @ v @ ''")''))
          else RUnit
      | _ \<Rightarrow> RUnit)\<close>

definition env_echo :: "string \<Rightarrow> env" where
  \<open>env_echo v = \<lparr>
     resp = (\<lambda>n. if n = 17
                  then RThrow (JsError ''TimeoutError''
                         (''locator.fill: Timeout 30000ms exceeded. Call log: fill("'' @ v @ ''")''))
                  else RUnit),
     url_host = (\<lambda>u. None), url_hostname = (\<lambda>u. None), left_first = (\<lambda>n. True)\<rparr>\<close>

text \<open>
  The timeout in force for a call: the one it passes, otherwise the page library's default.
  As in the page library, 0 stands for "no timeout".
\<close>

definition effective :: "nat \<Rightarrow> nat option \<Rightarrow> nat" where
  "effective d t = (case t of None \<Rightarrow> d | Some ms \<Rightarrow> ms)"

text \<open>
  An operation is bounded when it cannot block for ever: it does not wait at all, it sleeps
  for a given time, or the timeout in force for it is positive. \<open>d\<close> is the page library's
  default timeout and \<open>c\<close> the request timeout of the provider's client; both are set
  outside the repository.
\<close>

fun bounded :: "nat \<Rightarrow> nat \<Rightarrow> op \<Rightarrow> bool" where
  "bounded d c (BrowserConnect sid) = (0 < c)"
| "bounded d c BrowserCreate = (0 < c)"
| "bounded d c ContextsPages = True"
| "bounded d c (Goto url t) = (0 < effective d t)"
| "bounded d c (WaitForSelector sel w t) = (0 < effective d t)"
| "bounded d c (WaitFor l w t) = (0 < effective d t)"
| "bounded d c (Click l delay t) = (0 < effective d t)"
| "bounded d c (Fill l v t) = (0 < effective d t)"
| "bounded d c (TypeText l v delay) = (0 < d)"
| "bounded d c (Press l key) = (0 < d)"
| "bounded d c Url = True"
| "bounded d c (IsVisible l t) = True"
| "bounded d c (CountOf l) = True"
| "bounded d c (InnerText l) = (0 < d)"
| "bounded d c (WaitForNavigation t) = (0 < effective d t)"
| "bounded d c (WaitForLoadState w t) = (0 < effective d t)"
| "bounded d c (WaitForURLHost h t) = (0 < t)"
| "bounded d c (WaitForTimeout t) = True"
| "bounded d c (EventsWaitFor name) = (0 < c)"

text \<open>Every operation of every run of a flow is bounded.\<close>

definition all_bounded :: "nat \<Rightarrow> nat \<Rightarrow> 'a io \<Rightarrow> bool" where
  "all_bounded d c flow = (\<forall>e. list_all (bounded d c) (trace (snd (run flow e))))"

section \<open>Basic facts\<close>

lemma str_includes_sublist: "str_includes s t = sublist t s"
  by (induction s) (auto simp: sublist_Cons_right)

lemma str_includes_append: "str_includes (a @ t @ b) t"
  by (simp add: str_includes_sublist sublist_appendI)

lemma str_includes_trans: "str_includes s t \<Longrightarrow> str_includes t u \<Longrightarrow> str_includes s u"
  using sublist_order.order_trans by (auto simp: str_includes_sublist)

lemma str_includes_appendI1: "str_includes b t \<Longrightarrow> str_includes (a @ b) t"
  by (metis append_Nil2 str_includes_append str_includes_trans)

lemma str_includes_appendI2: "str_includes a t \<Longrightarrow> str_includes (a @ b) t"
  by (metis append_Nil str_includes_append str_includes_trans)

lemma str_includes_join: "x \<in> set xs \<Longrightarrow> str_includes (join sep xs) x"
proof (induction sep xs rule: join.induct)
  case (1 sep) then show ?case by simp
next
  case (2 sep y) then show ?case by (simp add: str_includes_sublist)
next
  case (3 sep a b ys)
  show ?case
  proof (cases "x = a")
    case True
    then show ?thesis using str_includes_append[of "[]" a] by (simp add: str_includes_sublist)
  next
    case False
    with 3 have "str_includes (join sep (b # ys)) x" by simp
    then show ?thesis by (simp add: str_includes_appendI1 del: str_includes.simps)
  qed
qed

lemma message_or_err_includes: "str_includes (message_or_err err) (thrown_message err)"
  by (cases err) (auto simp: str_includes_sublist)

lemma String_err_includes: "str_includes (String_err err) (thrown_message err)"
proof (cases err)
  case JsUndefined
  then show ?thesis by simp
next
  case (JsError n m)
  have "str_includes (n @ '': '' @ m) m"
    using str_includes_append [of "n @ '': ''" m "[]"] by simp
  moreover have "str_includes m m" "str_includes n []"
    by (simp_all add: str_includes_sublist)
  ultimately show ?thesis using JsError by simp
qed

lemma bind_Inl: "m e s = (Inl err, s') \<Longrightarrow> bind m f e s = (Inl err, s')"
  by (simp add: bind_def)

lemma bind_Inr: "m e s = (Inr x, s') \<Longrightarrow> bind m f e s = f x e s'"
  by (simp add: bind_def)

lemma seq_Inl: "m e s = (Inl err, s') \<Longrightarrow> seq m n e s = (Inl err, s')"
  by (simp add: seq_def bind_def)

lemma seq_Inr: "m e s = (Inr x, s') \<Longrightarrow> seq m n e s = n e s'"
  by (simp add: seq_def bind_def)

lemma catch_Inl: "m e s = (Inl err, s') \<Longrightarrow> catch m h e s = h err e s'"
  by (simp add: catch_def)

lemma catch_Inr: "m e s = (Inr x, s') \<Longrightarrow> catch m h e s = (Inr x, s')"
  by (simp add: catch_def)

lemma openPage_cases:
  obtains (raised) err s' where "openPage pe e s = (Inl err, s')"
        | (opened) s' where "openPage pe e s = (Inr (), s')"
proof (cases "openPage pe e s")
  case (Pair r s')
  then show ?thesis by (cases r) (auto intro: raised opened)
qed

lemma returns_ret: "returns (ret x)"
  by (simp add: returns_def ret_def)

lemma returns_console: "returns (console l m)"
  by (simp add: returns_def console_def)

lemma returns_seq: "returns m \<Longrightarrow> returns n \<Longrightarrow> returns (seq m n)"
  unfolding returns_def seq_def bind_def
  by (auto split: prod.splits sum.splits) (metis fst_conv sum.distinct(1))

lemma returns_catch: "(\<And>err. returns (h err)) \<Longrightarrow> returns (catch m h)"
  unfolding returns_def catch_def
  by (auto split: prod.splits sum.splits)

lemmas returns_intros = returns_ret returns_console returns_seq returns_catch

lemma contained_seq_openPage:
  assumes "returns rest"
  shows "contained pe (seq (openPage pe) rest)"
  unfolding contained_def
proof
  fix e
  show "(\<exists>r. fst (run (seq (openPage pe) rest) e) = Inr r) \<or>
        (\<exists>err. fst (run (openPage pe) e) = Inl err \<and> fst (run (seq (openPage pe) rest) e) = Inl err)"
  proof (cases pe e st0 rule: openPage_cases)
    case (raised err s')
    then show ?thesis by (simp add: run_def seq_Inl)
  next
    case (opened s')
    then show ?thesis using assms by (simp add: run_def seq_Inr returns_def)
  qed
qed

lemma fandom_contained: "contained pe (FandomChangePasswordFlow pe)"
  unfolding FandomChangePasswordFlow_def
  by (rule contained_seq_openPage) (auto simp: Let_def intro!: returns_intros)

lemma pcpp_contained: "contained pe (pcppChangePasswordTask pe)"
  unfolding pcppChangePasswordTask_def
  by (rule contained_seq_openPage) (auto simp: Let_def intro!: returns_intros)

lemma zillow_contained: "contained pe (zillowChangePasswordFlow pe)"
  unfolding zillowChangePasswordFlow_def
  by (rule contained_seq_openPage) (auto simp: Let_def intro!: returns_intros)

lemma weather_contained: "contained pe (WeatherComChangePassword pe)"
  unfolding WeatherComChangePassword_def
  by (rule contained_seq_openPage) (auto simp: Let_def intro!: returns_intros)

lemma wiki_contained: "contained pe (ChangeWikipediaPassword pe)"
  unfolding ChangeWikipediaPassword_def
  by (rule contained_seq_openPage) (auto simp: Let_def intro!: returns_intros)

lemma converts_seq_openPage:
  assumes "\<And>err. str_includes (k err) (thrown_message err)"
  shows "converts pe (seq (openPage pe)
            (catch body (\<lambda>err. seq (console l (g err)) (ret \<lparr>success = False, message = k err\<rparr>)))) body"
  unfolding converts_def
proof (intro allI impI, elim conjE)
  fix e s1 err
  assume o: "run (openPage pe) e = (Inr (), s1)" and b: "fst (body e s1) = Inl err"
  obtain s2 where "body e s1 = (Inl err, s2)" using b by (cases "body e s1") auto
  then have "fst (run (seq (openPage pe)
            (catch body (\<lambda>err. seq (console l (g err)) (ret \<lparr>success = False, message = k err\<rparr>)))) e)
         = Inr \<lparr>success = False, message = k err\<rparr>"
    using o by (simp add: run_def seq_Inr catch_Inl) (simp add: seq_def bind_def console_def ret_def)
  then show "\<exists>msg. fst (run (seq (openPage pe)
            (catch body (\<lambda>err. seq (console l (g err)) (ret \<lparr>success = False, message = k err\<rparr>)))) e)
         = Inr \<lparr>success = False, message = msg\<rparr> \<and> str_includes msg (thrown_message err)"
    using assms by blast
qed

lemma fandom_converts:
  assumes "names_missing (fandom_required pe) = []"
  shows "converts pe (FandomChangePasswordFlow pe)
     (fandom_body (buildUrls (fandom_baseUrl (fandom_INPUTS pe)))
        (given (fandom_username (fandom_INPUTS pe))) (given (fandom_password (fandom_INPUTS pe)))
        (given (fandom_newPassword (fandom_INPUTS pe))))"
proof -
  have v: "truthy (fandom_username (fandom_INPUTS pe))" "truthy (fandom_password (fandom_INPUTS pe))"
      "truthy (fandom_newPassword (fandom_INPUTS pe))"
    using assms by (auto simp: names_missing_def fandom_required_def split: if_splits)
  show ?thesis
    unfolding FandomChangePasswordFlow_def Let_def
    apply (simp only: v simp_thms if_False)
    apply (rule converts_seq_openPage)
    apply (rule str_includes_appendI1, rule message_or_err_includes)
    done
qed

lemma pcpp_valid: "names_missing (pcpp_required pe) = [] \<Longrightarrow> listMissingInputs (pcpp_INPUTS pe) = []"
  by (auto simp: names_missing_def pcpp_required_def listMissingInputs_def split: if_splits)

lemma pcpp_converts:
  assumes "names_missing (pcpp_required pe) = []"
  shows "converts pe (pcppChangePasswordTask pe) (pcpp_body (pcpp_INPUTS pe))"
  unfolding pcppChangePasswordTask_def Let_def
  apply (simp only: pcpp_valid[OF assms] simp_thms if_False)
  apply (rule converts_seq_openPage)
  apply (rule str_includes_appendI1, rule String_err_includes)
  done

lemma zillow_converts:
  assumes "names_missing (zillow_required pe) = []"
  shows "converts pe (zillowChangePasswordFlow pe) (zillow_body (zillow_INPUTS pe))"
proof -
  have v: "truthy (zillow_email (zillow_INPUTS pe))" "truthy (zillow_currentPassword (zillow_INPUTS pe))"
      "truthy (zillow_newPassword (zillow_INPUTS pe))"
    using assms by (auto simp: names_missing_def zillow_required_def split: if_splits)
  show ?thesis
    unfolding zillowChangePasswordFlow_def Let_def
    apply (simp only: v simp_thms if_False)
    apply (rule converts_seq_openPage)
    apply (rule str_includes_appendI1, rule message_or_err_includes)
    done
qed

lemma weather_converts:
  assumes "names_missing (weather_required pe) = []"
  shows "converts pe (WeatherComChangePassword pe)
     (weather_body (stripTrailingSlash (weather_baseUrl (weather_INPUTS pe)))
        (given (weather_username (weather_INPUTS pe))) (given (weather_password (weather_INPUTS pe)))
        (if weather_currentPassword (weather_INPUTS pe) \<noteq> [] then weather_currentPassword (weather_INPUTS pe)
         else given (weather_password (weather_INPUTS pe)))
        (given (weather_newPassword (weather_INPUTS pe))))"
proof -
  have v: "truthy (weather_username (weather_INPUTS pe))" "truthy (weather_password (weather_INPUTS pe))"
      "truthy (weather_newPassword (weather_INPUTS pe))"
    using assms by (auto simp: names_missing_def weather_required_def split: if_splits)
  show ?thesis
    unfolding WeatherComChangePassword_def Let_def
    apply (simp only: v simp_thms if_False)
    apply (rule converts_seq_openPage)
    apply (rule str_includes_appendI1, rule message_or_err_includes)
    done
qed

lemma wiki_valid:
  assumes "names_missing (wiki_required pe) = []"
  shows "wiki_username (wiki_INPUTS pe) \<noteq> []" "wiki_password (wiki_INPUTS pe) \<noteq> []"
    "wiki_newPassword (wiki_INPUTS pe) \<noteq> []"
  using assms
  by (auto simp: names_missing_def wiki_required_def wiki_INPUTS_def or_default_def truthy_def
      split: if_splits option.splits)

lemma wiki_converts:
  assumes "names_missing (wiki_required pe) = []"
  shows "converts pe (ChangeWikipediaPassword pe)
     (seq (steps [login (wiki_INPUTS pe), navigateToChangePassword (wiki_INPUTS pe), changePassword (wiki_INPUTS pe)])
        (ret \<lparr>success = True, message = ''Logged in and submitted password change successfully.''\<rparr>))"
  unfolding ChangeWikipediaPassword_def Let_def
  apply (simp only: wiki_valid[OF assms] simp_thms if_False)
  apply (rule converts_seq_openPage)
  apply (rule str_includes_appendI1, rule message_or_err_includes)
  done

lemma reports_missing_flow:
  assumes "names_missing req \<noteq> [] \<Longrightarrow> c"
    and "\<And>n. n \<in> set (names_missing req) \<Longrightarrow> str_includes msg n"
  shows "reports_missing pe
     (seq (openPage pe) (if c then seq (console l msg) (ret \<lparr>success = False, message = msg\<rparr>) else other)) req"
  unfolding reports_missing_def
proof (intro allI impI, elim conjE)
  fix e s1
  let ?flow = "seq (openPage pe) (if c then seq (console l msg) (ret \<lparr>success = False, message = msg\<rparr>) else other)"
  assume o: "run (openPage pe) e = (Inr (), s1)" and m: "names_missing req \<noteq> []"
  have "fst (run ?flow e) = Inr \<lparr>success = False, message = msg\<rparr>"
    using o assms(1)[OF m] by (simp add: run_def seq_Inr) (simp add: seq_def bind_def console_def ret_def)
  then show "\<exists>msg. fst (run ?flow e) = Inr \<lparr>success = False, message = msg\<rparr>
       \<and> (\<forall>n\<in>set (names_missing req). str_includes msg n)"
    using assms(2) by blast
qed

lemma names_missing_subset: "n \<in> set (names_missing req) \<Longrightarrow> n \<in> fst ` set req"
  by (auto simp: names_missing_def)

lemma names_missing_Cons:
  "names_missing ((n, v) # req) = (if truthy v then names_missing req else n # names_missing req)"
  by (simp add: names_missing_def)

lemma names_missing_Nil: "names_missing [] = []"
  by (simp add: names_missing_def)

lemma fandom_invalid:
  "names_missing (fandom_required pe) \<noteq> [] \<Longrightarrow>
     \<not> truthy (fandom_username (fandom_INPUTS pe)) \<or> \<not> truthy (fandom_password (fandom_INPUTS pe))
      \<or> \<not> truthy (fandom_newPassword (fandom_INPUTS pe))"
  by (auto simp: fandom_required_def names_missing_Cons names_missing_Nil split: if_splits)

lemma fandom_reports: "reports_missing pe (FandomChangePasswordFlow pe) (fandom_required pe)"
  unfolding FandomChangePasswordFlow_def Let_def
proof (rule reports_missing_flow)
  show "names_missing (fandom_required pe) \<noteq> [] \<Longrightarrow>
     \<not> truthy (fandom_username (fandom_INPUTS pe)) \<or> \<not> truthy (fandom_password (fandom_INPUTS pe))
      \<or> \<not> truthy (fandom_newPassword (fandom_INPUTS pe))"
    by (rule fandom_invalid)
next
  fix n assume "n \<in> set (names_missing (fandom_required pe))"
  then have "n \<in> {''ANCHOR_FANDOM_USERNAME'', ''ANCHOR_FANDOM_PASSWORD'', ''ANCHOR_FANDOM_NEW_PASSWORD''}"
    by (auto dest!: names_missing_subset simp: fandom_required_def)
  then show "str_includes ''Missing required inputs: ANCHOR_FANDOM_USERNAME, ANCHOR_FANDOM_PASSWORD, ANCHOR_FANDOM_NEW_PASSWORD'' n"
    by (elim insertE emptyE) simp_all
qed

lemma pcpp_invalid:
  "names_missing (pcpp_required pe) \<noteq> [] \<Longrightarrow> listMissingInputs (pcpp_INPUTS pe) \<noteq> []"
  by (auto simp: pcpp_required_def listMissingInputs_def names_missing_Cons names_missing_Nil split: if_splits)

lemma pcpp_label:
  assumes "n \<in> set (names_missing (pcpp_required pe))"
  shows "\<exists>lab \<in> set (listMissingInputs (pcpp_INPUTS pe)). str_includes lab n"
  using assms
  by (auto simp: pcpp_required_def listMissingInputs_def names_missing_Cons names_missing_Nil split: if_splits)

lemma pcpp_reports: "reports_missing pe (pcppChangePasswordTask pe) (pcpp_required pe)"
  unfolding pcppChangePasswordTask_def Let_def
proof (rule reports_missing_flow)
  show "names_missing (pcpp_required pe) \<noteq> [] \<Longrightarrow> listMissingInputs (pcpp_INPUTS pe) \<noteq> []"
    by (rule pcpp_invalid)
next
  fix n assume "n \<in> set (names_missing (pcpp_required pe))"
  then obtain lab where "lab \<in> set (listMissingInputs (pcpp_INPUTS pe))" "str_includes lab n"
    using pcpp_label by blast
  then have "str_includes (join '', '' (listMissingInputs (pcpp_INPUTS pe))) n"
    using str_includes_join str_includes_trans by blast
  then show "str_includes (''Missing required inputs: '' @ join '', '' (listMissingInputs (pcpp_INPUTS pe))) n"
    by (rule str_includes_appendI1)
qed

lemma zillow_invalid:
  "names_missing (zillow_required pe) \<noteq> [] \<Longrightarrow>
     \<not> truthy (zillow_email (zillow_INPUTS pe)) \<or> \<not> truthy (zillow_currentPassword (zillow_INPUTS pe))
      \<or> \<not> truthy (zillow_newPassword (zillow_INPUTS pe))"
  by (auto simp: zillow_required_def names_missing_Cons names_missing_Nil split: if_splits)

lemma zillow_missing_names: "zillow_missing (zillow_INPUTS pe) = names_missing (zillow_required pe)"
  by (simp add: zillow_missing_def zillow_required_def names_missing_Cons names_missing_Nil)

lemma zillow_reports: "reports_missing pe (zillowChangePasswordFlow pe) (zillow_required pe)"
  unfolding zillowChangePasswordFlow_def Let_def
proof (rule reports_missing_flow)
  show "names_missing (zillow_required pe) \<noteq> [] \<Longrightarrow>
     \<not> truthy (zillow_email (zillow_INPUTS pe)) \<or> \<not> truthy (zillow_currentPassword (zillow_INPUTS pe))
      \<or> \<not> truthy (zillow_newPassword (zillow_INPUTS pe))"
    by (rule zillow_invalid)
next
  fix n assume "n \<in> set (names_missing (zillow_required pe))"
  then have "str_includes (join '', '' (zillow_missing (zillow_INPUTS pe))) n"
    by (simp add: zillow_missing_names str_includes_join)
  then show "str_includes (''Missing required inputs: '' @ join '', '' (zillow_missing (zillow_INPUTS pe))) n"
    by (rule str_includes_appendI1)
qed

lemma weather_invalid:
  "names_missing (weather_required pe) \<noteq> [] \<Longrightarrow>
     \<not> truthy (weather_username (weather_INPUTS pe)) \<or> \<not> truthy (weather_password (weather_INPUTS pe))
      \<or> \<not> truthy (weather_newPassword (weather_INPUTS pe))"
  by (auto simp: weather_required_def names_missing_Cons names_missing_Nil split: if_splits)

lemma weather_reports: "reports_missing pe (WeatherComChangePassword pe) (weather_required pe)"
  unfolding WeatherComChangePassword_def Let_def
proof (rule reports_missing_flow)
  show "names_missing (weather_required pe) \<noteq> [] \<Longrightarrow>
     \<not> truthy (weather_username (weather_INPUTS pe)) \<or> \<not> truthy (weather_password (weather_INPUTS pe))
      \<or> \<not> truthy (weather_newPassword (weather_INPUTS pe))"
    by (rule weather_invalid)
next
  fix n assume "n \<in> set (names_missing (weather_required pe))"
  then have "n \<in> {''ANCHOR_WEATHER_EMAIL'', ''ANCHOR_USERNAME'', ''ANCHOR_WEATHER_PASSWORD'', ''ANCHOR_PASSWORD'',
      ''ANCHOR_WEATHER_NEW_PASSWORD'', ''ANCHOR_NEW_PASSWORD''}"
    by (auto dest!: names_missing_subset simp: weather_required_def)
  then show "str_includes ''Missing required inputs: ANCHOR_WEATHER_EMAIL/ANCHOR_USERNAME, ANCHOR_WEATHER_PASSWORD/ANCHOR_PASSWORD, ANCHOR_WEATHER_NEW_PASSWORD/ANCHOR_NEW_PASSWORD'' n"
    by (elim insertE emptyE) simp_all
qed

lemma wiki_invalid:
  "names_missing (wiki_required pe) \<noteq> [] \<Longrightarrow>
     wiki_username (wiki_INPUTS pe) = [] \<or> wiki_password (wiki_INPUTS pe) = [] \<or> wiki_newPassword (wiki_INPUTS pe) = []"
  by (auto simp: wiki_required_def wiki_INPUTS_def or_default_def truthy_def names_missing_Cons names_missing_Nil
      split: if_splits option.splits)

lemma wiki_reports: "reports_missing pe (ChangeWikipediaPassword pe) (wiki_required pe)"
  unfolding ChangeWikipediaPassword_def Let_def
proof (rule reports_missing_flow)
  show "names_missing (wiki_required pe) \<noteq> [] \<Longrightarrow>
     wiki_username (wiki_INPUTS pe) = [] \<or> wiki_password (wiki_INPUTS pe) = [] \<or> wiki_newPassword (wiki_INPUTS pe) = []"
    by (rule wiki_invalid)
next
  fix n assume "n \<in> set (names_missing (wiki_required pe))"
  then have "n \<in> {''ANCHOR_WIKI_USERNAME'', ''ANCHOR_WIKI_PASSWORD'', ''ANCHOR_WIKI_NEW_PASSWORD''}"
    by (auto dest!: names_missing_subset simp: wiki_required_def)
  then show "str_includes ''Missing required inputs: ANCHOR_WIKI_USERNAME, ANCHOR_WIKI_PASSWORD, ANCHOR_WIKI_NEW_PASSWORD'' n"
    by (elim insertE emptyE) simp_all
qed

lemma openPage_trace:
  "\<exists>ys. trace (snd (openPage pe e s)) = trace s @ ys \<and> (\<forall>o' \<in> set ys. \<not> is_page_op o')"
  by (simp add: openPage_def getAnchorBrowser_def perform_def call_def seq_def bind_def ret_def throw_def
      split: response.splits)

lemma validates_flow:
  assumes "names_missing req \<noteq> [] \<Longrightarrow> c"
  shows "validates_before_page pe
     (seq (openPage pe) (if c then seq (console l msg) (ret r) else other)) req"
  unfolding validates_before_page_def
proof (intro allI impI)
  fix e
  let ?flow = "seq (openPage pe) (if c then seq (console l msg) (ret r) else other)"
  assume m: "names_missing req \<noteq> []"
  have t: "trace (snd (run ?flow e)) = trace (snd (run (openPage pe) e))"
    using assms[OF m]
    by (cases pe e st0 rule: openPage_cases)
       (simp_all add: run_def seq_Inl seq_Inr, simp add: seq_def bind_def console_def ret_def)
  moreover have "\<forall>o' \<in> set (trace (snd (run (openPage pe) e))). \<not> is_page_op o'"
    using openPage_trace[of pe e st0] by (auto simp: run_def st0_def)
  ultimately show "trace (snd (run ?flow e)) = trace (snd (run (openPage pe) e))
       \<and> (\<forall>o' \<in> set (trace (snd (run ?flow e))). \<not> is_page_op o')"
    by simp
qed

lemma fandom_validates: "validates_before_page pe (FandomChangePasswordFlow pe) (fandom_required pe)"
  unfolding FandomChangePasswordFlow_def Let_def
  by (rule validates_flow) (rule fandom_invalid)

lemma pcpp_validates: "validates_before_page pe (pcppChangePasswordTask pe) (pcpp_required pe)"
  unfolding pcppChangePasswordTask_def Let_def
  by (rule validates_flow) (rule pcpp_invalid)

lemma zillow_validates: "validates_before_page pe (zillowChangePasswordFlow pe) (zillow_required pe)"
  unfolding zillowChangePasswordFlow_def Let_def
  by (rule validates_flow) (rule zillow_invalid)

lemma weather_validates: "validates_before_page pe (WeatherComChangePassword pe) (weather_required pe)"
  unfolding WeatherComChangePassword_def Let_def
  by (rule validates_flow) (rule weather_invalid)

lemma wiki_validates: "validates_before_page pe (ChangeWikipediaPassword pe) (wiki_required pe)"
  unfolding ChangeWikipediaPassword_def Let_def
  by (rule validates_flow) (rule wiki_invalid)

section \<open>Exceptions at the flow boundary\<close>

text \<open>
  Claim C2, as the code has it. The two lines that obtain the browser and its page stand
  before the \<open>try\<close> block in all five entry functions. So: each entry function returns a
  Run Result or raises the very error that obtaining the page raised (it is contained);
  and once the page is obtained and the inputs are present, an unhandled exception of the
  \<open>try\<close> block (one with which its body ends, no handler inside the block having caught
  it) becomes \<open>{ success: false }\<close> with a message that includes the exception's message.
\<close>

theorem exceptions_converted:
  "guarded pe (FandomChangePasswordFlow pe) (fandom_required pe) (fandom_try pe)
   \<and> guarded pe (pcppChangePasswordTask pe) (pcpp_required pe) (pcpp_try pe)
   \<and> guarded pe (zillowChangePasswordFlow pe) (zillow_required pe) (zillow_try pe)
   \<and> guarded pe (WeatherComChangePassword pe) (weather_required pe) (weather_try pe)
   \<and> guarded pe (ChangeWikipediaPassword pe) (wiki_required pe) (wiki_try pe)"
  unfolding guarded_def fandom_try_def pcpp_try_def zillow_try_def weather_try_def wiki_try_def Let_def
  using fandom_contained pcpp_contained zillow_contained weather_contained wiki_contained
    fandom_converts pcpp_converts zillow_converts weather_converts wiki_converts
  by blast

lemmas eval_defs = run_def st0_def openPage_def getAnchorBrowser_def sessionId_def or_default_def
  perform_def call_def seq_def bind_def ret_def throw_def catch_def console_def

text \<open>
  A Fandom run with all inputs present whose first navigation times out: the timeout is
  raised inside the \<open>try\<close> block and comes back as a failed result.
\<close>

theorem exceptions_converted_witness:
  \<open>names_missing (fandom_required pe_fandom) = []
   \<and> run (openPage pe_fandom) env_goto_fails = (Inr (), \<lparr>trace = [BrowserCreate, ContextsPages], logs = []\<rparr>)
   \<and> fst (fandom_try pe_fandom env_goto_fails \<lparr>trace = [BrowserCreate, ContextsPages], logs = []\<rparr>)
       = Inl (JsError ''TimeoutError'' ''page.goto: Timeout 30000ms exceeded.'')
   \<and> (\<exists>msg. fst (run (FandomChangePasswordFlow pe_fandom) env_goto_fails) = Inr \<lparr>success = False, message = msg\<rparr>
         \<and> str_includes msg ''page.goto: Timeout 30000ms exceeded.'')\<close>
proof -
  have a: "names_missing (fandom_required pe_fandom) = []"
    by (simp add: names_missing_def fandom_required_def fandom_INPUTS_def pe_fandom_def truthy_def)
  have b: "run (openPage pe_fandom) env_goto_fails = (Inr (), \<lparr>trace = [BrowserCreate, ContextsPages], logs = []\<rparr>)"
    by (simp add: eval_defs pe_fandom_def env_goto_fails_def)
  have c: \<open>fst (fandom_try pe_fandom env_goto_fails \<lparr>trace = [BrowserCreate, ContextsPages], logs = []\<rparr>)
       = Inl (JsError ''TimeoutError'' ''page.goto: Timeout 30000ms exceeded.'')\<close>
    by (simp add: fandom_try_def fandom_body_def fandom_steps_1_4_def Let_def eval_defs env_goto_fails_def)
  from exceptions_converted [of pe_fandom] a b c
  have "\<exists>msg. fst (run (FandomChangePasswordFlow pe_fandom) env_goto_fails) = Inr \<lparr>success = False, message = msg\<rparr>
         \<and> str_includes msg (thrown_message (JsError ''TimeoutError'' ''page.goto: Timeout 30000ms exceeded.''))"
    unfolding guarded_def converts_def by blast
  then show ?thesis using a b c by simp
qed

text \<open>
  The claim as the specification words it fails: with all inputs present, a provider that
  refuses the session makes the Fandom entry function raise, since \<open>getAnchorBrowser\<close> is
  awaited before the \<open>try\<close> block.
\<close>

theorem exceptions_converted_counterexample:
  \<open>names_missing (fandom_required pe_fandom) = []
   \<and> fst (run (FandomChangePasswordFlow pe_fandom) env_no_browser) = Inl (JsError ''Error'' ''session unavailable'')\<close>
  by (simp add: names_missing_def fandom_required_def fandom_INPUTS_def pe_fandom_def truthy_def
      FandomChangePasswordFlow_def eval_defs env_no_browser_def)

section \<open>Missing inputs\<close>

lemma passes_on_seq_openPage: "passes_on pe (seq (openPage pe) rest)"
  unfolding passes_on_def
proof (intro allI impI)
  fix e err assume a: "fst (run (openPage pe) e) = Inl err"
  then obtain s' where "openPage pe e st0 = (Inl err, s')"
    by (cases "openPage pe e st0") (auto simp: run_def)
  then show "fst (run (seq (openPage pe) rest) e) = Inl err" by (simp add: run_def seq_Inl)
qed

text \<open>
  Claim C1, as the code has it. In every flow, when the page has been obtained and at
  least one required input is absent or empty, the run returns \<open>{ success: false }\<close> and
  the message enumerates every missing input name, not merely the first (Fandom,
  weather.com and Wikipedia print a fixed list of all names; PCPartPicker and Zillow print
  the missing ones). The page is obtained before the inputs are looked at, outside any
  \<open>try\<close> block: when obtaining it raises an error, the entry function raises that error.
\<close>

theorem missing_inputs_reported:
  "(reports_missing pe (FandomChangePasswordFlow pe) (fandom_required pe)
      \<and> passes_on pe (FandomChangePasswordFlow pe))
   \<and> (reports_missing pe (pcppChangePasswordTask pe) (pcpp_required pe)
      \<and> passes_on pe (pcppChangePasswordTask pe))
   \<and> (reports_missing pe (zillowChangePasswordFlow pe) (zillow_required pe)
      \<and> passes_on pe (zillowChangePasswordFlow pe))
   \<and> (reports_missing pe (WeatherComChangePassword pe) (weather_required pe)
      \<and> passes_on pe (WeatherComChangePassword pe))
   \<and> (reports_missing pe (ChangeWikipediaPassword pe) (wiki_required pe)
      \<and> passes_on pe (ChangeWikipediaPassword pe))"
proof -
  have "passes_on pe (FandomChangePasswordFlow pe)" "passes_on pe (pcppChangePasswordTask pe)"
    "passes_on pe (zillowChangePasswordFlow pe)" "passes_on pe (WeatherComChangePassword pe)"
    "passes_on pe (ChangeWikipediaPassword pe)"
    unfolding FandomChangePasswordFlow_def pcppChangePasswordTask_def zillowChangePasswordFlow_def
      WeatherComChangePassword_def ChangeWikipediaPassword_def
    by (rule passes_on_seq_openPage)+
  then show ?thesis
    using fandom_reports pcpp_reports zillow_reports weather_reports wiki_reports by blast
qed

text \<open>
  Zillow with an e-mail address but neither password: the message names both missing
  inputs. And the same inputs with a provider that refuses the session: the entry function
  raises the provider's error.
\<close>

theorem missing_inputs_reported_witness:
  \<open>run (openPage pe_email_only) env_ok = (Inr (), \<lparr>trace = [BrowserCreate, ContextsPages], logs = []\<rparr>)
   \<and> names_missing (zillow_required pe_email_only) = [''ANCHOR_CURRENT_PASSWORD'', ''ANCHOR_NEW_PASSWORD'']
   \<and> (\<exists>msg. fst (run (zillowChangePasswordFlow pe_email_only) env_ok) = Inr \<lparr>success = False, message = msg\<rparr>
         \<and> str_includes msg ''ANCHOR_CURRENT_PASSWORD'' \<and> str_includes msg ''ANCHOR_NEW_PASSWORD'')
   \<and> fst (run (openPage pe_email_only) env_no_browser) = Inl (JsError ''Error'' ''session unavailable'')
   \<and> fst (run (zillowChangePasswordFlow pe_email_only) env_no_browser)
       = Inl (JsError ''Error'' ''session unavailable'')\<close>
proof -
  have a: "run (openPage pe_email_only) env_ok = (Inr (), \<lparr>trace = [BrowserCreate, ContextsPages], logs = []\<rparr>)"
    by (simp add: eval_defs pe_email_only_def env_ok_def)
  have b: \<open>names_missing (zillow_required pe_email_only) = [''ANCHOR_CURRENT_PASSWORD'', ''ANCHOR_NEW_PASSWORD'']\<close>
    by (simp add: names_missing_def zillow_required_def zillow_INPUTS_def pe_email_only_def truthy_def)
  have c: \<open>fst (run (openPage pe_email_only) env_no_browser) = Inl (JsError ''Error'' ''session unavailable'')\<close>
    by (simp add: eval_defs pe_email_only_def env_no_browser_def)
  from missing_inputs_reported [of pe_email_only]
  have r: "reports_missing pe_email_only (zillowChangePasswordFlow pe_email_only) (zillow_required pe_email_only)"
    and p: "passes_on pe_email_only (zillowChangePasswordFlow pe_email_only)"
    by blast+
  from r a b
  have 1: \<open>\<exists>msg. fst (run (zillowChangePasswordFlow pe_email_only) env_ok) = Inr \<lparr>success = False, message = msg\<rparr>
         \<and> (\<forall>n \<in> set [''ANCHOR_CURRENT_PASSWORD'', ''ANCHOR_NEW_PASSWORD'']. str_includes msg n)\<close>
    unfolding reports_missing_def by (metis list.distinct(1))
  from p c
  have 2: \<open>fst (run (zillowChangePasswordFlow pe_email_only) env_no_browser)
       = Inl (JsError ''Error'' ''session unavailable'')\<close>
    unfolding passes_on_def by blast
  from 1 have 3: \<open>\<exists>msg. fst (run (zillowChangePasswordFlow pe_email_only) env_ok) = Inr \<lparr>success = False, message = msg\<rparr>
         \<and> str_includes msg ''ANCHOR_CURRENT_PASSWORD'' \<and> str_includes msg ''ANCHOR_NEW_PASSWORD''\<close>
    by (simp del: str_includes.simps)
  show ?thesis using a b c 2 3 by blast
qed

text \<open>
  The claim as the specification words it ("without raising") fails: with every input
  missing, a provider that refuses the session makes the PCPartPicker entry function
  raise before it has looked at its inputs.
\<close>

theorem missing_inputs_reported_counterexample:
  \<open>names_missing (pcpp_required pe_none) \<noteq> []
   \<and> fst (run (pcppChangePasswordTask pe_none) env_no_browser) = Inl (JsError ''Error'' ''session unavailable'')\<close>
  by (simp add: names_missing_def pcpp_required_def pcpp_INPUTS_def pe_none_def truthy_def js_or_def
      pcppChangePasswordTask_def eval_defs env_no_browser_def)

section \<open>Validation and the browser\<close>

text \<open>
  Claim C5, as the code has it. Every entry function first obtains the browser session and
  reads its first page, and validates its inputs after that. When a required input is
  missing the run issues exactly the operations that obtaining the page issues and no
  page operation (no navigation, wait, fill, click or query).
\<close>

theorem validation_before_page_operations:
  "validates_before_page pe (FandomChangePasswordFlow pe) (fandom_required pe)
   \<and> validates_before_page pe (pcppChangePasswordTask pe) (pcpp_required pe)
   \<and> validates_before_page pe (zillowChangePasswordFlow pe) (zillow_required pe)
   \<and> validates_before_page pe (WeatherComChangePassword pe) (weather_required pe)
   \<and> validates_before_page pe (ChangeWikipediaPassword pe) (wiki_required pe)"
  using fandom_validates pcpp_validates zillow_validates weather_validates wiki_validates
  by blast

text \<open>The weather.com flow with no input at all.\<close>

theorem validation_before_page_operations_witness:
  \<open>names_missing (weather_required pe_none) \<noteq> []
   \<and> trace (snd (run (openPage pe_none) env_ok)) = [BrowserCreate, ContextsPages]
   \<and> trace (snd (run (WeatherComChangePassword pe_none) env_ok)) = [BrowserCreate, ContextsPages]\<close>
proof -
  have a: "names_missing (weather_required pe_none) \<noteq> []"
    by (simp add: names_missing_def weather_required_def weather_INPUTS_def pe_none_def truthy_def js_or_def)
  have b: "trace (snd (run (openPage pe_none) env_ok)) = [BrowserCreate, ContextsPages]"
    by (simp add: eval_defs pe_none_def env_ok_def)
  from validation_before_page_operations [of pe_none] a
  have "trace (snd (run (WeatherComChangePassword pe_none) env_ok)) = trace (snd (run (openPage pe_none) env_ok))"
    unfolding validates_before_page_def by blast
  then show ?thesis using a b by simp
qed

text \<open>
  The claim as the specification words it fails: the Zillow flow with no input at all has
  created a browser session and read its page by the time it returns the failed result.
\<close>

theorem validation_before_page_operations_counterexample:
  \<open>names_missing (zillow_required pe_none) \<noteq> []
   \<and> run (zillowChangePasswordFlow pe_none) env_ok =
       (Inr \<lparr>success = False,
              message = ''Missing required inputs: ANCHOR_EMAIL, ANCHOR_CURRENT_PASSWORD, ANCHOR_NEW_PASSWORD''\<rparr>,
        \<lparr>trace = [BrowserCreate, ContextsPages],
         logs = [(Error, ''Missing required inputs: ANCHOR_EMAIL, ANCHOR_CURRENT_PASSWORD, ANCHOR_NEW_PASSWORD'')]\<rparr>)\<close>
  by (simp add: names_missing_def zillow_required_def zillow_INPUTS_def zillow_missing_def pe_none_def truthy_def
      zillowChangePasswordFlow_def eval_defs env_ok_def Let_def)

section \<open>The operations a computation issues\<close>

lemma emits_ret [emits_intros]: "emits (ret x) P"
  by (simp add: emits_def ret_def)

lemma emits_throw [emits_intros]: "emits (throw err) P"
  by (simp add: emits_def throw_def)

lemma emits_console [emits_intros]: "emits (console l m) P"
  by (simp add: emits_def console_def)

lemma emits_call [emits_intros]: "P o' \<Longrightarrow> emits (call o') P"
  by (simp add: emits_def call_def)

lemma emits_bind [emits_intros]:
  assumes "emits m P" and "\<And>x. emits (f x) P"
  shows "emits (bind m f) P"
  unfolding emits_def
proof (intro allI)
  fix e s
  obtain r s1 where m: "m e s = (r, s1)" by (cases "m e s")
  from assms(1) m obtain ys where ys: "trace s1 = trace s @ ys" "list_all P ys"
    unfolding emits_def by (metis snd_conv)
  show "\<exists>ys. trace (snd (bind m f e s)) = trace s @ ys \<and> list_all P ys"
  proof (cases r)
    case (Inl err)
    then show ?thesis using m ys by (simp add: bind_def)
  next
    case (Inr x)
    from assms(2)[of x] obtain zs where "trace (snd (f x e s1)) = trace s1 @ zs" "list_all P zs"
      unfolding emits_def by blast
    then show ?thesis using m ys Inr by (simp add: bind_def)
  qed
qed

lemma emits_seq [emits_intros]: "emits m P \<Longrightarrow> emits n P \<Longrightarrow> emits (seq m n) P"
  by (simp add: seq_def emits_bind)

lemma emits_catch [emits_intros]:
  assumes "emits m P" and "\<And>err. emits (h err) P"
  shows "emits (catch m h) P"
  unfolding emits_def
proof (intro allI)
  fix e s
  obtain r s1 where m: "m e s = (r, s1)" by (cases "m e s")
  from assms(1) m obtain ys where ys: "trace s1 = trace s @ ys" "list_all P ys"
    unfolding emits_def by (metis snd_conv)
  show "\<exists>ys. trace (snd (catch m h e s)) = trace s @ ys \<and> list_all P ys"
  proof (cases r)
    case (Inr x)
    then show ?thesis using m ys by (simp add: catch_def)
  next
    case (Inl err)
    from assms(2)[of err] obtain zs where "trace (snd (h err e s1)) = trace s1 @ zs" "list_all P zs"
      unfolding emits_def by blast
    then show ?thesis using m ys Inl by (simp add: catch_def)
  qed
qed

lemma emits_swallow [emits_intros]: "emits m P \<Longrightarrow> emits (swallow m) P"
  by (simp add: swallow_def emits_catch emits_ret)

lemma emits_promise_all [emits_intros]:
  assumes "emits a P" and "emits b P"
  shows "emits (promise_all a b) P"
  unfolding emits_def
proof (intro allI)
  fix e s
  obtain ra s1 where a: "a e s = (ra, s1)" by (cases "a e s")
  obtain rb s2 where b: "b e s1 = (rb, s2)" by (cases "b e s1")
  from assms(1) a obtain ys where ys: "trace s1 = trace s @ ys" "list_all P ys"
    unfolding emits_def by (metis snd_conv)
  from assms(2) b obtain zs where zs: "trace s2 = trace s1 @ zs" "list_all P zs"
    unfolding emits_def by (metis snd_conv)
  have "snd (promise_all a b e s) = s2"
    using a b by (simp add: promise_all_def split: sum.splits)
  then show "\<exists>ys. trace (snd (promise_all a b e s)) = trace s @ ys \<and> list_all P ys"
    using ys zs by simp
qed

lemma emits_steps [emits_intros]: "list_all (\<lambda>m. emits m P) ms \<Longrightarrow> emits (steps ms) P"
  by (induction ms) (auto intro: emits_ret emits_seq)

lemma emits_perform [emits_intros]: "P o' \<Longrightarrow> emits (perform o') P"
  unfolding perform_def by (rule emits_bind) (auto intro: emits_call emits_ret emits_throw split: response.splits)

lemma emits_ask_bool [emits_intros]: "P o' \<Longrightarrow> emits (ask_bool o') P"
  unfolding ask_bool_def by (rule emits_bind) (auto intro: emits_call emits_ret emits_throw split: response.splits)

lemma emits_ask_nat [emits_intros]: "P o' \<Longrightarrow> emits (ask_nat o') P"
  unfolding ask_nat_def by (rule emits_bind) (auto intro: emits_call emits_ret emits_throw split: response.splits)

lemma emits_ask_str [emits_intros]: "P o' \<Longrightarrow> emits (ask_str o') P"
  unfolding ask_str_def by (rule emits_bind) (auto intro: emits_call emits_ret emits_throw split: response.splits)

lemma emits_goto_resp [emits_intros]: "P (Goto url t) \<Longrightarrow> emits (goto_resp url t) P"
  unfolding goto_resp_def by (rule emits_bind) (auto intro: emits_call emits_ret emits_throw split: response.splits)

lemma emits_page_url [emits_intros]: "P Url \<Longrightarrow> emits page_url P"
  unfolding page_url_def by (rule emits_bind) (auto intro: emits_call emits_ret emits_throw split: response.splits)

lemma emits_with_env [emits_intros]: "(\<And>e. emits (f e) P) \<Longrightarrow> emits (with_env f) P"
  by (simp add: emits_def with_env_def)

lemma emits_clickWithRetry_from [emits_intros]:
  assumes "P (Click (First (Locator selector)) None (Some 15000))" and "P (WaitForTimeout 750)"
  shows "emits (clickWithRetry_from selector attempts i lastErr) P"
proof (induction "attempts - i" arbitrary: i lastErr)
  case 0
  then show ?case
    by (subst clickWithRetry_from.simps) (auto intro!: emits_intros)
next
  case (Suc d)
  from Suc.hyps(2) have "d = attempts - (i + 1)" by simp
  then have "\<And>err. emits (clickWithRetry_from selector attempts (i + 1) err) P"
    by (rule Suc.hyps(1))
  then show ?case using assms
    by (subst clickWithRetry_from.simps) (auto intro!: emits_intros)
qed

lemma emits_clickWithRetry [emits_intros]:
  "P (Click (First (Locator selector)) None (Some 15000)) \<Longrightarrow> P (WaitForTimeout 750)
   \<Longrightarrow> emits (clickWithRetry selector attempts) P"
  by (simp add: clickWithRetry_def emits_clickWithRetry_from)

lemma emits_zillow_safeGoto [emits_intros]:
  "P (Goto url (Some t)) \<Longrightarrow> P Url \<Longrightarrow> emits (zillow_safeGoto url label t) P"
  unfolding zillow_safeGoto_def
  by (auto intro!: emits_intros split: option.splits)

lemma emits_expectVisible [emits_intros]:
  "P (WaitFor l Visible (Some t)) \<Longrightarrow> emits (expectVisible l desc t) P"
  unfolding expectVisible_def
  by (auto intro!: emits_intros)

lemma emits_openPage [emits_intros]:
  "P (BrowserConnect (sessionId pe)) \<Longrightarrow> P BrowserCreate \<Longrightarrow> P ContextsPages \<Longrightarrow> emits (openPage pe) P"
  unfolding openPage_def getAnchorBrowser_def by (auto intro!: emits_intros)

lemma emits_pcpp_safeGoto [emits_intros]:
  "P (Goto url (Some w)) \<Longrightarrow> P (WaitForLoadState ''domcontentloaded'' (Some 5000)) \<Longrightarrow> emits (pcpp_safeGoto url w) P"
  unfolding pcpp_safeGoto_def by (auto intro!: emits_intros)

lemma emits_pcpp_waitForVisible [emits_intros]:
  "P (WaitFor (First (Locator sel)) Visible (Some t)) \<Longrightarrow> emits (pcpp_waitForVisible sel t) P"
  unfolding pcpp_waitForVisible_def by (auto intro!: emits_intros)

lemma emits_isVisible_or_false [emits_intros]:
  "P (IsVisible l None) \<Longrightarrow> emits (isVisible_or_false l) P"
  unfolding isVisible_or_false_def by (auto intro!: emits_intros)

lemma emits_signIn [emits_intros]:
  assumes "list_all P (signIn_ops u p)"
  shows "emits (signIn u p) P"
  using assms unfolding signIn_def signIn_ops_def by (auto intro!: emits_intros)

lemma emits_nothing:
  assumes "emits m (\<lambda>o'. False)"
  shows "trace (snd (m e s)) = trace s"
proof -
  from assms obtain ys where ys: "trace (snd (m e s)) = trace s @ ys" "list_all (\<lambda>o'. False) ys"
    unfolding emits_def by blast
  then have "ys = []" by (cases ys) simp_all
  then show ?thesis using ys(1) by simp
qed

lemma on_issue_never:
  assumes "emits m (\<lambda>o'. o' \<noteq> X)"
  shows "on_issue m X Q"
  unfolding on_issue_def
proof (intro allI)
  fix e s
  from assms obtain ys where ys: "trace (snd (m e s)) = trace s @ ys" "list_all (\<lambda>o'. o' \<noteq> X) ys"
    unfolding emits_def by blast
  then have "\<forall>k<length ys. ys ! k \<noteq> X" by (simp add: list_all_length)
  then show "\<exists>ys. trace (snd (m e s)) = trace s @ ys \<and>
       (\<forall>k<length ys. ys ! k = X \<longrightarrow> Q e (length (trace s) + k) (fst (m e s)) (trace (snd (m e s))))"
    using ys(1) by blast
qed

lemma on_issue_bind:
  assumes "emits m (\<lambda>o'. o' \<noteq> X)" and "\<And>x. on_issue (f x) X Q"
  shows "on_issue (bind m f) X Q"
  unfolding on_issue_def
proof (intro allI)
  fix e s
  obtain r s1 where m: "m e s = (r, s1)" by (cases "m e s")
  from assms(1) m obtain ys where ys: "trace s1 = trace s @ ys" "list_all (\<lambda>o'. o' \<noteq> X) ys"
    unfolding emits_def by (metis snd_conv)
  then have nx: "\<forall>k<length ys. ys ! k \<noteq> X" by (simp add: list_all_length)
  show "\<exists>ys. trace (snd (bind m f e s)) = trace s @ ys \<and>
       (\<forall>k<length ys. ys ! k = X \<longrightarrow> Q e (length (trace s) + k) (fst (bind m f e s)) (trace (snd (bind m f e s))))"
  proof (cases r)
    case (Inl err)
    then have "bind m f e s = (Inl err, s1)" using m by (simp add: bind_def)
    then show ?thesis using ys(1) nx by auto
  next
    case (Inr x)
    then have b: "bind m f e s = f x e s1" using m by (simp add: bind_def)
    from assms(2)[of x] obtain zs where zs: "trace (snd (f x e s1)) = trace s1 @ zs"
      "\<forall>k<length zs. zs ! k = X \<longrightarrow> Q e (length (trace s1) + k) (fst (f x e s1)) (trace (snd (f x e s1)))"
      unfolding on_issue_def by blast
    have "\<forall>k<length (ys @ zs). (ys @ zs) ! k = X \<longrightarrow>
        Q e (length (trace s) + k) (fst (f x e s1)) (trace (snd (f x e s1)))"
    proof (intro allI impI)
      fix k assume k: "k < length (ys @ zs)" "(ys @ zs) ! k = X"
      then have ge: "\<not> k < length ys" using nx by (auto simp: nth_append)
      then have "zs ! (k - length ys) = X" "k - length ys < length zs" using k by (auto simp: nth_append)
      then have "Q e (length (trace s1) + (k - length ys)) (fst (f x e s1)) (trace (snd (f x e s1)))"
        using zs(2) by blast
      moreover have "length (trace s1) + (k - length ys) = length (trace s) + k" using ge ys(1) by simp
      ultimately show "Q e (length (trace s) + k) (fst (f x e s1)) (trace (snd (f x e s1)))" by simp
    qed
    then show ?thesis using b zs(1) ys(1) by (intro exI[of _ "ys @ zs"]) simp
  qed
qed

lemma on_issue_seq:
  "emits m (\<lambda>o'. o' \<noteq> X) \<Longrightarrow> on_issue n X Q \<Longrightarrow> on_issue (seq m n) X Q"
  by (simp add: seq_def on_issue_bind)

lemma on_issue_if:
  "(c \<Longrightarrow> on_issue a X Q) \<Longrightarrow> (\<not> c \<Longrightarrow> on_issue b X Q) \<Longrightarrow> on_issue (if c then a else b) X Q"
  by simp

lemma on_issue_ret: "on_issue (ret x) X Q"
  by (simp add: on_issue_never emits_ret)

text \<open>A handler that issues nothing keeps what the body established, when that asks for a normal return.\<close>

lemma on_issue_catch_ret:
  assumes "on_issue m X (\<lambda>e k r t. (\<exists>x. r = Inr x) \<and> Q e k r t)"
    and "\<And>err. emits (h err) (\<lambda>o'. False)"
  shows "on_issue (catch m h) X Q"
  unfolding on_issue_def
proof (intro allI)
  fix e s
  obtain r s1 where m: "m e s = (r, s1)" by (cases "m e s")
  from assms(1) m obtain ys where ys: "trace s1 = trace s @ ys"
      "\<forall>k<length ys. ys ! k = X \<longrightarrow> (\<exists>x. r = Inr x) \<and> Q e (length (trace s) + k) r (trace s1)"
    unfolding on_issue_def by (metis fst_conv snd_conv)
  show "\<exists>ys. trace (snd (catch m h e s)) = trace s @ ys \<and>
       (\<forall>k<length ys. ys ! k = X \<longrightarrow> Q e (length (trace s) + k) (fst (catch m h e s)) (trace (snd (catch m h e s))))"
  proof (cases r)
    case (Inr x)
    then have "catch m h e s = (Inr x, s1)" using m by (simp add: catch_def)
    then show ?thesis using ys Inr by auto
  next
    case (Inl err)
    then have c: "catch m h e s = h err e s1" using m by (simp add: catch_def)
    from assms(2)[of err] have t: "trace (snd (h err e s1)) = trace s1"
      by (rule emits_nothing)
    have "\<forall>k<length ys. ys ! k \<noteq> X" using ys(2) Inl by auto
    then show ?thesis using c t ys(1) by auto
  qed
qed


lemma on_issue_run:
  assumes "on_issue m X Q" and "run m e = (r, s)" and "k < length (trace s)" and "trace s ! k = X"
  shows "Q e k r (trace s)"
proof -
  from assms(1) obtain ys where ys: "trace (snd (m e st0)) = trace st0 @ ys"
      "\<forall>k<length ys. ys ! k = X \<longrightarrow> Q e (length (trace st0) + k) (fst (m e st0)) (trace (snd (m e st0)))"
    unfolding on_issue_def by blast
  have "trace st0 = []" by (simp add: st0_def)
  then show ?thesis using ys assms(2-4) by (simp add: run_def)
qed

lemma after_issue_never:
  assumes "emits m (\<lambda>o'. o' \<noteq> X)"
  shows "after_issue m X Q"
  unfolding after_issue_def
proof (intro allI)
  fix e s
  from assms obtain ys where ys: "trace (snd (m e s)) = trace s @ ys" "list_all (\<lambda>o'. o' \<noteq> X) ys"
    unfolding emits_def by blast
  then have "\<forall>k<length ys. ys ! k \<noteq> X" by (simp add: list_all_length)
  then show "\<exists>ys. trace (snd (m e s)) = trace s @ ys \<and>
       (\<forall>k<length ys. ys ! k = X \<longrightarrow> Q e (length (trace s) + k) (fst (m e s)) (snd (m e s)))"
    using ys(1) by blast
qed

lemma after_issue_bind:
  assumes "emits m (\<lambda>o'. o' \<noteq> X)" and "\<And>x. after_issue (f x) X Q"
  shows "after_issue (bind m f) X Q"
  unfolding after_issue_def
proof (intro allI)
  fix e s
  obtain r s1 where m: "m e s = (r, s1)" by (cases "m e s")
  from assms(1) m obtain ys where ys: "trace s1 = trace s @ ys" "list_all (\<lambda>o'. o' \<noteq> X) ys"
    unfolding emits_def by (metis snd_conv)
  then have nx: "\<forall>k<length ys. ys ! k \<noteq> X" by (simp add: list_all_length)
  show "\<exists>ys. trace (snd (bind m f e s)) = trace s @ ys \<and>
       (\<forall>k<length ys. ys ! k = X \<longrightarrow> Q e (length (trace s) + k) (fst (bind m f e s)) (snd (bind m f e s)))"
  proof (cases r)
    case (Inl err)
    then have "bind m f e s = (Inl err, s1)" using m by (simp add: bind_def)
    then show ?thesis using ys(1) nx by auto
  next
    case (Inr x)
    then have b: "bind m f e s = f x e s1" using m by (simp add: bind_def)
    from assms(2)[of x] obtain zs where zs: "trace (snd (f x e s1)) = trace s1 @ zs"
      "\<forall>k<length zs. zs ! k = X \<longrightarrow> Q e (length (trace s1) + k) (fst (f x e s1)) (snd (f x e s1))"
      unfolding after_issue_def by blast
    have "\<forall>k<length (ys @ zs). (ys @ zs) ! k = X \<longrightarrow>
        Q e (length (trace s) + k) (fst (f x e s1)) (snd (f x e s1))"
    proof (intro allI impI)
      fix k assume k: "k < length (ys @ zs)" "(ys @ zs) ! k = X"
      then have ge: "\<not> k < length ys" using nx by (auto simp: nth_append)
      then have "zs ! (k - length ys) = X" "k - length ys < length zs" using k by (auto simp: nth_append)
      then have "Q e (length (trace s1) + (k - length ys)) (fst (f x e s1)) (snd (f x e s1))"
        using zs(2) by blast
      moreover have "length (trace s1) + (k - length ys) = length (trace s) + k" using ge ys(1) by simp
      ultimately show "Q e (length (trace s) + k) (fst (f x e s1)) (snd (f x e s1))" by simp
    qed
    then show ?thesis using b zs(1) ys(1) by (intro exI[of _ "ys @ zs"]) simp
  qed
qed

lemma after_issue_seq:
  "emits m (\<lambda>o'. o' \<noteq> X) \<Longrightarrow> after_issue n X Q \<Longrightarrow> after_issue (seq m n) X Q"
  by (simp add: seq_def after_issue_bind)

lemma after_issue_if:
  "(c \<Longrightarrow> after_issue a X Q) \<Longrightarrow> (\<not> c \<Longrightarrow> after_issue b X Q) \<Longrightarrow> after_issue (if c then a else b) X Q"
  by simp

lemma after_issue_fail_with: "after_issue (fail_with m) X Q"
  by (simp add: fail_with_def after_issue_never emits_ret)

text \<open>
  A handler that issues nothing: what the body established under a guard on the
  environment survives, when it asked for a normal return.
\<close>

lemma after_issue_catch_guard:
  assumes "after_issue m X (\<lambda>e k r s. G e k \<longrightarrow> (\<exists>x. r = Inr x) \<and> Q e k r s)"
    and "\<And>err. emits (h err) (\<lambda>o'. False)"
  shows "after_issue (catch m h) X (\<lambda>e k r s. G e k \<longrightarrow> Q e k r s)"
  unfolding after_issue_def
proof (intro allI)
  fix e s
  obtain r s1 where m: "m e s = (r, s1)" by (cases "m e s")
  from assms(1) m obtain ys where ys: "trace s1 = trace s @ ys"
      "\<forall>k<length ys. ys ! k = X \<longrightarrow> G e (length (trace s) + k) \<longrightarrow>
          (\<exists>x. r = Inr x) \<and> Q e (length (trace s) + k) r s1"
    unfolding after_issue_def by (metis fst_conv snd_conv)
  show "\<exists>ys. trace (snd (catch m h e s)) = trace s @ ys \<and>
       (\<forall>k<length ys. ys ! k = X \<longrightarrow> G e (length (trace s) + k) \<longrightarrow>
           Q e (length (trace s) + k) (fst (catch m h e s)) (snd (catch m h e s)))"
  proof (cases r)
    case (Inr x)
    then have "catch m h e s = (Inr x, s1)" using m by (simp add: catch_def)
    then show ?thesis using ys Inr by auto
  next
    case (Inl err)
    then have c: "catch m h e s = h err e s1" using m by (simp add: catch_def)
    from assms(2)[of err] have t: "trace (snd (h err e s1)) = trace s1"
      by (rule emits_nothing)
    have "\<forall>k<length ys. ys ! k = X \<longrightarrow> \<not> G e (length (trace s) + k)" using ys(2) Inl by auto
    then show ?thesis using c t ys(1) by auto
  qed
qed

lemma after_issue_run:
  assumes "after_issue m X Q" and "run m e = (r, s)" and "k < length (trace s)" and "trace s ! k = X"
  shows "Q e k r s"
proof -
  from assms(1) obtain ys where ys: "trace (snd (m e st0)) = trace st0 @ ys"
      "\<forall>k<length ys. ys ! k = X \<longrightarrow> Q e (length (trace st0) + k) (fst (m e st0)) (snd (m e st0))"
    unfolding after_issue_def by blast
  have "trace st0 = []" by (simp add: st0_def)
  then show ?thesis using ys assms(2-4) by (simp add: run_def)
qed

lemma only_head:
  assumes "X \<notin> set zs"
  shows "\<forall>k<length (X # zs). (X # zs) ! k = X \<longrightarrow> k = 0"
proof (intro allI impI)
  fix k assume "k < length (X # zs)" "(X # zs) ! k = X"
  then show "k = 0" using assms by (cases k) (auto dest: nth_mem)
qed

lemma perform_run:
  "perform o' e s = (if is_throw (resp e (length (trace s))) then Inl (thrown_at e (length (trace s))) else Inr (),
                     s\<lparr>trace := trace s @ [o']\<rparr>)"
  by (simp add: perform_def bind_def call_def throw_def ret_def is_throw_def thrown_at_def split: response.splits)

lemma page_url_run:
  "page_url e s = (Inr (url_at e (length (trace s))), s\<lparr>trace := trace s @ [Url]\<rparr>)"
  by (simp add: page_url_def bind_def call_def ret_def url_at_def split: response.splits)

lemma isVisible_or_false_run:
  "isVisible_or_false l e s = (Inr (resp e (length (trace s)) = RBool True), s\<lparr>trace := trace s @ [IsVisible l None]\<rparr>)"
  by (simp add: isVisible_or_false_def ask_bool_def catch_def bind_def call_def ret_def throw_def split: response.splits)

lemma console_run: "console l m e s = (Inr (), s\<lparr>logs := logs s @ [(l, m)]\<rparr>)"
  by (simp add: console_def)

lemma swallow_perform_run: "swallow (perform o') e s = (Inr (), s\<lparr>trace := trace s @ [o']\<rparr>)"
  by (simp add: swallow_def catch_def perform_run ret_def)

lemma goto_resp_run:
  "goto_resp url t e s =
     (case resp e (length (trace s)) of RThrow err \<Rightarrow> Inl err | RResp h \<Rightarrow> Inr h | _ \<Rightarrow> Inr None,
      s\<lparr>trace := trace s @ [Goto url t]\<rparr>)"
  by (simp add: goto_resp_def bind_def call_def throw_def ret_def split: response.splits)












lemmas locator_defs = emailInput_def pwdInput_def changePwdBtn_def currentPwdInput_def newPwdInput_def
  confirmPwdInput_def dialogForm_def applyBtn_def passwordDialog_def

lemmas pcpp_sel_defs = loginFormSel_def userSel_def passSel_def submitSel_def oldPassSel_def newPass1Sel_def
  newPass2Sel_def changeBtnSel_def

section \<open>PCPartPicker: the verification step\<close>

lemma pcpp_verify_issue:
  "on_issue pcpp_verify verify_op
     (\<lambda>e k r t. (\<exists>x. r = Inr x) \<and> r = Inr (pcpp_verdict (url_at e (k - 1)) (resp e k = RBool True)))"
  unfolding on_issue_def
proof (intro allI)
  fix e :: env and s :: st
  have "fst (pcpp_verify e s) = Inr (pcpp_verdict (url_at e (length (trace s))) (resp e (Suc (length (trace s))) = RBool True))
      \<and> trace (snd (pcpp_verify e s)) = trace s @ [Url, verify_op]"
    by (simp add: pcpp_verify_def pcpp_verdict_def verify_op_def Let_def bind_def seq_def console_def ret_def
        page_url_run isVisible_or_false_run)
  then show "\<exists>ys. trace (snd (pcpp_verify e s)) = trace s @ ys \<and>
       (\<forall>k<length ys. ys ! k = verify_op \<longrightarrow>
         (\<exists>x. fst (pcpp_verify e s) = Inr x) \<and>
         fst (pcpp_verify e s) = Inr (pcpp_verdict (url_at e (length (trace s) + k - 1)) (resp e (length (trace s) + k) = RBool True)))"
    by (intro exI[of _ "[Url, verify_op]"]) (auto simp: less_Suc_eq verify_op_def)
qed

lemma pcpp_body_issue:
  "on_issue (pcpp_body i) verify_op
     (\<lambda>e k r t. (\<exists>x. r = Inr x) \<and> r = Inr (pcpp_verdict (url_at e (k - 1)) (resp e k = RBool True)))"
  unfolding pcpp_body_def Let_def
  apply (intro on_issue_bind on_issue_seq on_issue_if on_issue_ret pcpp_verify_issue)
  apply (auto intro!: emits_intros simp: verify_op_def pcpp_login_def pcpp_change_def pcpp_sel_defs)
  done

lemma pcpp_flow_issue:
  "on_issue (pcppChangePasswordTask pe) verify_op
     (\<lambda>e k r t. r = Inr (pcpp_verdict (url_at e (k - 1)) (resp e k = RBool True)))"
  unfolding pcppChangePasswordTask_def Let_def
  apply (intro on_issue_seq on_issue_if on_issue_catch_ret pcpp_body_issue on_issue_ret)
  apply (auto intro!: emits_intros simp: verify_op_def)
  done

text \<open>
  Claim C3, as the code has it. The verification reads \<open>page.url()\<close> and then asks whether
  the confirmation text is visible (\<open>verify_op\<close>); a run reaches verification exactly when
  it issues that query. For every such run in which the text is not seen: if the final URL
  contains \<open>/accounts/password/change/done/\<close> the result is the success result; if the final
  URL does not even contain \<open>/done/\<close> the result is a failure whose message contains
  "may have failed".
\<close>

theorem pcpp_verification:
  assumes "run (pcppChangePasswordTask pe) e = (r, s)"
    and "k < length (trace s)" and "trace s ! k = verify_op"
    and "resp e k \<noteq> RBool True"
  shows \<open>(str_includes (url_at e (k - 1)) ''/accounts/password/change/done/''
            \<longrightarrow> r = Inr \<lparr>success = True, message = ''Password changed successfully.''\<rparr>)
       \<and> (\<not> str_includes (url_at e (k - 1)) ''/done/''
            \<longrightarrow> (\<exists>msg. r = Inr \<lparr>success = False, message = msg\<rparr> \<and> str_includes msg ''may have failed''))\<close>
proof -
  have r: "r = Inr (pcpp_verdict (url_at e (k - 1)) (resp e k = RBool True))"
    using on_issue_run[OF pcpp_flow_issue assms(1-3)] .
  have d: \<open>str_includes ''/accounts/password/change/done/'' ''/done/''\<close> by simp
  have m: \<open>str_includes ''Password change may have failed: success URL or confirmation text not detected.'' ''may have failed''\<close>
    by simp
  show ?thesis
  proof (intro conjI impI)
    assume "str_includes (url_at e (k - 1)) ''/accounts/password/change/done/''"
    then show \<open>r = Inr \<lparr>success = True, message = ''Password changed successfully.''\<rparr>\<close>
      using r by (simp add: pcpp_verdict_def del: str_includes.simps)
  next
    assume "\<not> str_includes (url_at e (k - 1)) ''/done/''"
    then have "\<not> str_includes (url_at e (k - 1)) ''/accounts/password/change/done/''"
      using d str_includes_trans by blast
    then have \<open>r = Inr \<lparr>success = False,
        message = ''Password change may have failed: success URL or confirmation text not detected.''\<rparr>\<close>
      using r assms(4) by (simp add: pcpp_verdict_def del: str_includes.simps)
    then show \<open>\<exists>msg. r = Inr \<lparr>success = False, message = msg\<rparr> \<and> str_includes msg ''may have failed''\<close>
      using m by blast
  qed
qed

lemmas pcpp_eval_defs = pcppChangePasswordTask_def pcpp_INPUTS_def listMissingInputs_def js_or_def truthy_def
  pcpp_body_def pcpp_login_def pcpp_change_def pcpp_verify_def pcpp_safeGoto_def pcpp_waitForVisible_def
  isVisible_or_false_def ask_bool_def page_url_def swallow_def promise_all_def Let_def

lemma pcpp_final_trace:
  "length (trace (snd (run (pcppChangePasswordTask pe_alice) (env_pcpp_final u)))) = 24
   \<and> trace (snd (run (pcppChangePasswordTask pe_alice) (env_pcpp_final u))) ! 23 = verify_op"
  by (simp add: pcpp_eval_defs eval_defs pe_alice_def env_pcpp_final_def verify_op_def pcpp_verdict_def)

text \<open>The inputs of the scenario of section 8 of the specification, ending on the "done" page.\<close>

theorem pcpp_verification_witness:
  \<open>23 < length (trace (snd (run (pcppChangePasswordTask pe_alice)
            (env_pcpp_final ''https://pcpartpicker.com/accounts/password/change/done/''))))
   \<and> trace (snd (run (pcppChangePasswordTask pe_alice)
            (env_pcpp_final ''https://pcpartpicker.com/accounts/password/change/done/''))) ! 23 = verify_op
   \<and> resp (env_pcpp_final ''https://pcpartpicker.com/accounts/password/change/done/'') 23 \<noteq> RBool True
   \<and> str_includes (url_at (env_pcpp_final ''https://pcpartpicker.com/accounts/password/change/done/'') (23 - 1))
         ''/accounts/password/change/done/''
   \<and> fst (run (pcppChangePasswordTask pe_alice)
            (env_pcpp_final ''https://pcpartpicker.com/accounts/password/change/done/''))
       = Inr \<lparr>success = True, message = ''Password changed successfully.''\<rparr>\<close>
proof -
  let ?e = \<open>env_pcpp_final ''https://pcpartpicker.com/accounts/password/change/done/''\<close>
  let ?run = "run (pcppChangePasswordTask pe_alice) ?e"
  have a: "23 < length (trace (snd ?run))" "trace (snd ?run) ! 23 = verify_op"
    using pcpp_final_trace by simp_all
  have b: "resp ?e 23 \<noteq> RBool True" by (simp add: env_pcpp_final_def)
  have c: \<open>str_includes (url_at ?e (23 - 1)) ''/accounts/password/change/done/''\<close>
    by (simp add: env_pcpp_final_def url_at_def)
  have "?run = (fst ?run, snd ?run)" by simp
  from pcpp_verification [OF this a b] c
  show ?thesis using a b by blast
qed

text \<open>
  The claim as the specification words it fails: a final URL that contains \<open>/done/\<close> but not
  the path the code looks for, with the text absent, gives the failure result.
\<close>

theorem pcpp_verification_counterexample:
  \<open>trace (snd (run (pcppChangePasswordTask pe_alice) (env_pcpp_final ''https://pcpartpicker.com/done/''))) ! 23
      = verify_op
   \<and> url_at (env_pcpp_final ''https://pcpartpicker.com/done/'') 22 = ''https://pcpartpicker.com/done/''
   \<and> str_includes ''https://pcpartpicker.com/done/'' ''/done/''
   \<and> resp (env_pcpp_final ''https://pcpartpicker.com/done/'') 23 = RBool False
   \<and> fst (run (pcppChangePasswordTask pe_alice) (env_pcpp_final ''https://pcpartpicker.com/done/''))
       = Inr \<lparr>success = False,
              message = ''Password change may have failed: success URL or confirmation text not detected.''\<rparr>\<close>
proof -
  have \<open>fst (run (pcppChangePasswordTask pe_alice) (env_pcpp_final ''https://pcpartpicker.com/done/''))
       = Inr \<lparr>success = False,
              message = ''Password change may have failed: success URL or confirmation text not detected.''\<rparr>\<close>
    by (simp add: pcpp_eval_defs eval_defs pe_alice_def env_pcpp_final_def)
  moreover have \<open>str_includes ''https://pcpartpicker.com/done/'' ''/done/''\<close> by simp
  ultimately show ?thesis using pcpp_final_trace
    by (simp add: env_pcpp_final_def url_at_def del: str_includes.simps)
qed

section \<open>Zillow: after the Apply click\<close>

lemma zillow_safeGoto_run:
  \<open>zillow_safeGoto url label t e s =
     (Inr (\<not> nav_failed e url (length (trace s))),
      s\<lparr>trace := trace s @ Goto url (Some t) # (if is_throw (resp e (length (trace s))) then [Url] else []),
        logs := logs s @ nav_lines e url label (length (trace s))\<rparr>)\<close>
proof (cases "resp e (length (trace s))")
  case (RThrow err)
  then show ?thesis
    by (simp add: zillow_safeGoto_def nav_lines_def nav_failed_def same_host_def given_def
        seq_def bind_def catch_def ret_def console_run page_url_run goto_resp_run with_env_def is_throw_def
        split: option.splits)
next
  case (RResp h)
  then show ?thesis
    by (cases h) (simp_all add: zillow_safeGoto_def nav_lines_def nav_failed_def
        seq_def bind_def catch_def ret_def console_run goto_resp_run is_throw_def)
qed (simp_all add: zillow_safeGoto_def nav_lines_def nav_failed_def
        seq_def bind_def catch_def ret_def console_run goto_resp_run is_throw_def)

lemma zillow_finish_run:
  \<open>zillow_finish i e s =
     (Inr \<lparr>success = True, message = ''Password change flow executed and logout attempted successfully.''\<rparr>,
      s\<lparr>trace := trace s @ [WaitForURLHost ''www.zillow.com'' 15000, WaitFor passwordDialog Detached (Some 15000),
                              Goto (zillow_logoutUrl i) (Some 30000)]
                   @ (if is_throw (resp e (length (trace s) + 2)) then [Url] else []),
        logs := logs s @ nav_lines e (zillow_logoutUrl i) ''Logout'' (length (trace s) + 2)
                 @ (if nav_failed e (zillow_logoutUrl i) (length (trace s) + 2)
                    then [(Error, ''Logout navigation experienced an issue, but continuing to finalize.'')]
                    else [])
                 @ [(Info, ''Password change flow executed and logout attempted successfully.'')]\<rparr>)\<close>
  by (simp add: zillow_finish_def Let_def seq_def bind_def swallow_perform_run zillow_safeGoto_run console_run ret_def)

lemma zillow_submit_after:
  "after_issue (zillow_submit i) (Click applyBtn None None)
     (\<lambda>e k r s. \<not> is_throw (resp e k) \<longrightarrow> (\<exists>x. r = Inr x) \<and> after_apply i e k r s)"
  unfolding after_issue_def
proof (intro allI)
  fix e :: env and s :: st
  let ?X = "Click applyBtn None None"
  let ?n = "length (trace s)"
  let ?m = "zillow_submit i"
  let ?s1 = "s\<lparr>trace := trace s @ [?X]\<rparr>"
  show "\<exists>ys. trace (snd (?m e s)) = trace s @ ys \<and>
       (\<forall>k<length ys. ys ! k = ?X \<longrightarrow> \<not> is_throw (resp e (?n + k)) \<longrightarrow>
           (\<exists>x. fst (?m e s) = Inr x) \<and> after_apply i e (?n + k) (fst (?m e s)) (snd (?m e s)))"
  proof (cases "is_throw (resp e ?n)")
    case True
    then have "trace (snd (?m e s)) = trace s @ [?X]"
      by (simp add: zillow_submit_def seq_def bind_def perform_run)
    then show ?thesis using True by (intro exI[of _ "[?X]"]) simp
  next
    case False
    let ?zs = "[WaitForURLHost ''www.zillow.com'' 15000, WaitFor passwordDialog Detached (Some 15000),
                Goto (zillow_logoutUrl i) (Some 30000)] @ (if is_throw (resp e (?n + 3)) then [Url] else [])"
    have m: "?m e s = zillow_finish i e ?s1"
      using False by (simp add: zillow_submit_def seq_def bind_def perform_run)
    have t: "trace (snd (?m e s)) = trace s @ ?X # ?zs"
      unfolding m zillow_finish_run by (simp add: numeral_3_eq_3)
    have a: "after_apply i e ?n (fst (?m e s)) (snd (?m e s))"
      unfolding m zillow_finish_run after_apply_def by (simp add: suffix_def numeral_3_eq_3)
    have "?X \<notin> set ?zs" by (simp add: locator_defs)
    then have "\<forall>k<length (?X # ?zs). (?X # ?zs) ! k = ?X \<longrightarrow> k = 0" by (rule only_head)
    then show ?thesis using t a m zillow_finish_run[of i e ?s1] by (intro exI[of _ "?X # ?zs"]) auto
  qed
qed

lemma zillow_body_after:
  "after_issue (zillow_body i) (Click applyBtn None None)
     (\<lambda>e k r s. \<not> is_throw (resp e k) \<longrightarrow> (\<exists>x. r = Inr x) \<and> after_apply i e k r s)"
  unfolding zillow_body_def zillow_dialog_def
  apply (intro after_issue_bind after_issue_seq after_issue_if after_issue_fail_with zillow_submit_after)
  apply (auto intro!: emits_intros simp: locator_defs)
  done

lemma zillow_flow_after:
  "after_issue (zillowChangePasswordFlow pe) (Click applyBtn None None)
     (\<lambda>e k r s. \<not> is_throw (resp e k) \<longrightarrow> after_apply (zillow_INPUTS pe) e k r s)"
  unfolding zillowChangePasswordFlow_def Let_def
  apply (intro after_issue_seq after_issue_if after_issue_catch_guard zillow_body_after)
  apply (auto intro!: emits_intros after_issue_never simp: locator_defs)
  done

text \<open>
  Claim C10. Every run of the Zillow flow in which the Apply click is issued and does not
  throw returns \<open>{ success: true }\<close>, whatever the page does afterwards. After the click
  the flow issues the wait for the \<open>www.zillow.com\<close> host and the wait for the dialog to be
  detached (15000 ms each, their errors swallowed), then the logout navigation, and it
  reads the URL when that navigation threw. The log ends with the lines of the logout
  navigation, then the line "Logout navigation experienced an issue" exactly when the
  navigation threw and the URL then read and the logout URL do not both parse to one
  non-empty host, then the success line.
\<close>

theorem zillow_success_after_apply:
  assumes "run (zillowChangePasswordFlow pe) e = (r, s)"
    and "k < length (trace s)" and "trace s ! k = Click applyBtn None None"
    and "\<not> is_throw (resp e k)"
  shows \<open>r = Inr \<lparr>success = True,
                  message = ''Password change flow executed and logout attempted successfully.''\<rparr>
       \<and> drop (Suc k) (trace s) =
          [WaitForURLHost ''www.zillow.com'' 15000, WaitFor passwordDialog Detached (Some 15000),
           Goto (zillow_logoutUrl (zillow_INPUTS pe)) (Some 30000)]
          @ (if is_throw (resp e (k + 3)) then [Url] else [])
       \<and> suffix (nav_lines e (zillow_logoutUrl (zillow_INPUTS pe)) ''Logout'' (k + 3)
                 @ (if nav_failed e (zillow_logoutUrl (zillow_INPUTS pe)) (k + 3)
                    then [(Error, ''Logout navigation experienced an issue, but continuing to finalize.'')]
                    else [])
                 @ [(Info, ''Password change flow executed and logout attempted successfully.'')])
           (logs s)\<close>
  using after_issue_run[OF zillow_flow_after assms(1-3)] assms(4) unfolding after_apply_def by simp

lemmas zillow_eval_defs = zillowChangePasswordFlow_def zillow_INPUTS_def truthy_def given_def
  zillow_body_def zillow_dialog_def zillow_submit_def zillow_finish_def zillow_safeGoto_def expectVisible_def
  fail_with_def goto_resp_def page_url_def swallow_def with_env_def maskSecret_def Let_def

lemma zillow_lost_run:
  "length (trace (snd (run (zillowChangePasswordFlow pe_zillow) env_zillow_lost))) = 24
   \<and> trace (snd (run (zillowChangePasswordFlow pe_zillow) env_zillow_lost)) ! 19 = Click applyBtn None None
   \<and> (Error, ''Logout navigation experienced an issue, but continuing to finalize.'')
        \<in> set (logs (snd (run (zillowChangePasswordFlow pe_zillow) env_zillow_lost)))"
  by (simp add: zillow_eval_defs eval_defs pe_zillow_def env_zillow_lost_def host_of_simple_def locator_defs)

lemma zillow_lost_trace:
  \<open>drop 19 (trace (snd (run (zillowChangePasswordFlow pe_zillow) env_zillow_lost)))
     = [Click applyBtn None None, WaitForURLHost ''www.zillow.com'' 15000,
        WaitFor passwordDialog Detached (Some 15000),
        Goto ''https://www.zillow.com/Logout.htm'' (Some 30000), Url]\<close>
  by (simp add: zillow_eval_defs eval_defs pe_zillow_def env_zillow_lost_def host_of_simple_def locator_defs)

text \<open>
  A run in which, after the Apply click, both waits time out, the logout navigation fails
  and the page is left on another host: the failure is logged and success is reported.
\<close>

theorem zillow_success_after_apply_witness:
  \<open>19 < length (trace (snd (run (zillowChangePasswordFlow pe_zillow) env_zillow_lost)))
   \<and> trace (snd (run (zillowChangePasswordFlow pe_zillow) env_zillow_lost)) ! 19 = Click applyBtn None None
   \<and> \<not> is_throw (resp env_zillow_lost 19)
   \<and> drop 20 (trace (snd (run (zillowChangePasswordFlow pe_zillow) env_zillow_lost)))
       = [WaitForURLHost ''www.zillow.com'' 15000, WaitFor passwordDialog Detached (Some 15000),
          Goto ''https://www.zillow.com/Logout.htm'' (Some 30000), Url]
   \<and> is_throw (resp env_zillow_lost 20) \<and> is_throw (resp env_zillow_lost 21) \<and> is_throw (resp env_zillow_lost 22)
   \<and> nav_failed env_zillow_lost ''https://www.zillow.com/Logout.htm'' 22
   \<and> suffix [(Log, ''[NAV] Logout: https://www.zillow.com/Logout.htm''),
              (Error, ''[NAV] Logout: failed to navigate -> Timeout exceeded.''),
              (Error, ''Logout navigation experienced an issue, but continuing to finalize.''),
              (Info, ''Password change flow executed and logout attempted successfully.'')]
        (logs (snd (run (zillowChangePasswordFlow pe_zillow) env_zillow_lost)))
   \<and> fst (run (zillowChangePasswordFlow pe_zillow) env_zillow_lost)
       = Inr \<lparr>success = True,
              message = ''Password change flow executed and logout attempted successfully.''\<rparr>\<close>
proof -
  let ?run = "run (zillowChangePasswordFlow pe_zillow) env_zillow_lost"
  have n: "drop 19 (trace (snd ?run)) \<noteq> []" using zillow_lost_trace by simp
  then have a: "19 < length (trace (snd ?run))" by simp
  have b: "trace (snd ?run) ! 19 = Click applyBtn None None"
    using zillow_lost_trace by (simp add: nth_via_drop)
  have c: "\<not> is_throw (resp env_zillow_lost 19)" "is_throw (resp env_zillow_lost 20)"
    "is_throw (resp env_zillow_lost 21)" "is_throw (resp env_zillow_lost 22)"
    by (simp_all add: env_zillow_lost_def is_throw_def)
  have u: \<open>zillow_logoutUrl (zillow_INPUTS pe_zillow) = ''https://www.zillow.com/Logout.htm''\<close>
    by (simp add: zillow_INPUTS_def pe_zillow_def or_default_def)
  have f: \<open>nav_failed env_zillow_lost ''https://www.zillow.com/Logout.htm'' 22\<close>
    by (simp add: nav_failed_def same_host_def url_at_def env_zillow_lost_def host_of_simple_def is_throw_def)
  have l: \<open>nav_lines env_zillow_lost ''https://www.zillow.com/Logout.htm'' ''Logout'' 22
      = [(Log, ''[NAV] Logout: https://www.zillow.com/Logout.htm''),
         (Error, ''[NAV] Logout: failed to navigate -> Timeout exceeded.'')]\<close>
    by (simp add: nav_lines_def same_host_def url_at_def env_zillow_lost_def host_of_simple_def)
  have "?run = (fst ?run, snd ?run)" by simp
  from zillow_success_after_apply [OF this a b c(1)]
  show ?thesis using a b c f unfolding u by (simp add: l)
qed

section \<open>Fandom: re-authentication\<close>

















lemmas fandom_eval_defs = FandomChangePasswordFlow_def fandom_INPUTS_def truthy_def given_def buildUrls_def
  stripTrailingSlash_def fandom_body_def fandom_steps_1_4_def fandom_reauth_def fandom_logout_def signIn_def
  safeClick_def page_url_def swallow_def promise_all_def Let_def







section \<open>Navigation helpers\<close>

lemma goto_resp_throw:
  "resp e (length (trace s)) = RThrow err \<Longrightarrow> goto_resp url t e s = (Inl err, s\<lparr>trace := trace s @ [Goto url t]\<rparr>)"
  by (simp add: goto_resp_def bind_def call_def throw_def)

lemma perform_throw:
  "resp e (length (trace s)) = RThrow err \<Longrightarrow> perform o' e s = (Inl err, s\<lparr>trace := trace s @ [o']\<rparr>)"
  by (simp add: perform_def bind_def call_def throw_def)

lemma zillow_safeGoto_fallback:
  assumes "resp e (length (trace s)) = RThrow err"
  shows "fst (zillow_safeGoto url label t e s) = Inr (same_host e url (url_at e (Suc (length (trace s)))))"
  using assms
  by (simp add: zillow_safeGoto_def same_host_def seq_def bind_def catch_def console_run goto_resp_throw
      page_url_run with_env_def ret_def split: option.splits)

lemma gotoWithLoad_fallback:
  assumes "resp e (length (trace s)) = RThrow err"
  shows \<open>fst (gotoWithLoad url t e s) =
     (case url_hostname e url of
        None \<Rightarrow> Inl (JsError ''TypeError'' ''Invalid URL'')
      | Some h \<Rightarrow> if str_includes (url_at e (Suc (length (trace s)))) h then Inr () else Inl err)\<close>
  using assms
  by (simp add: gotoWithLoad_def bind_def catch_def console_run perform_throw
      page_url_run with_env_def throw_def split: option.splits)

lemma pcpp_safeGoto_fallback:
  assumes "resp e (length (trace s)) = RThrow err"
  shows "fst (pcpp_safeGoto url w e s) = Inr ()"
  using assms
  by (simp add: pcpp_safeGoto_def seq_def bind_def catch_def console_run perform_throw swallow_def ret_def
      split: prod.splits sum.splits)

lemma wiki_safeGoto_fallback:
  assumes "resp e (length (trace s)) = RThrow err"
  shows "fst (wiki_safeGoto url label t e s) = Inl err"
  using assms
  by (simp add: wiki_safeGoto_def seq_def bind_def console_run perform_throw)

text \<open>
  Claim C4, as the code has it. When the \<open>goto\<close> of a navigation helper throws:
  Zillow's \<open>safeGoto\<close> returns true exactly when the target and the current URL both
  parse and have the same non-empty host, and false otherwise; weather.com's
  \<open>gotoWithLoad\<close> continues when the current URL, as a string, contains the target's
  hostname, rethrows the navigation error when it does not, and throws a TypeError of its
  own when the target does not parse; PCPartPicker's \<open>safeGoto\<close> always continues;
  Wikipedia's \<open>safeGoto\<close> always lets the error through. (Fandom has no helper: it awaits
  \<open>page.goto\<close> directly.)
\<close>

theorem navigation_fallback:
  assumes "resp e (length (trace s)) = RThrow err"
  shows \<open>fst (zillow_safeGoto url label t e s) = Inr (same_host e url (url_at e (Suc (length (trace s)))))
       \<and> fst (gotoWithLoad url t e s) =
           (case url_hostname e url of
              None \<Rightarrow> Inl (JsError ''TypeError'' ''Invalid URL'')
            | Some h \<Rightarrow> if str_includes (url_at e (Suc (length (trace s)))) h then Inr () else Inl err)
       \<and> fst (pcpp_safeGoto url w e s) = Inr ()
       \<and> fst (wiki_safeGoto url label t e s) = Inl err\<close>
  using zillow_safeGoto_fallback[OF assms] gotoWithLoad_fallback[OF assms] pcpp_safeGoto_fallback[OF assms]
    wiki_safeGoto_fallback[OF assms]
  by simp

text \<open>A navigation that times out on a page that is already on the target's host.\<close>

theorem navigation_fallback_witness:
  \<open>resp env_nav_slow (length (trace st0)) = RThrow (JsError ''TimeoutError'' ''Timeout exceeded.'')
   \<and> same_host env_nav_slow ''https://www.zillow.com/Logout.htm'' (url_at env_nav_slow (Suc (length (trace st0))))
   \<and> fst (zillow_safeGoto ''https://www.zillow.com/Logout.htm'' ''Logout'' 30000 env_nav_slow st0) = Inr True
   \<and> fst (pcpp_safeGoto ''https://www.zillow.com/Logout.htm'' 25000 env_nav_slow st0) = Inr ()
   \<and> fst (wiki_safeGoto ''https://www.zillow.com/Logout.htm'' ''Logout'' 30000 env_nav_slow st0)
       = Inl (JsError ''TimeoutError'' ''Timeout exceeded.'')\<close>
proof -
  have a: \<open>resp env_nav_slow (length (trace st0)) = RThrow (JsError ''TimeoutError'' ''Timeout exceeded.'')\<close>
    by (simp add: env_nav_slow_def st0_def)
  have b: \<open>same_host env_nav_slow ''https://www.zillow.com/Logout.htm'' (url_at env_nav_slow (Suc (length (trace st0))))\<close>
    by (simp add: same_host_def url_at_def env_nav_slow_def host_of_simple_def st0_def)
  from navigation_fallback [where e = env_nav_slow and s = st0 and url = "''https://www.zillow.com/Logout.htm''"
      and label = "''Logout''" and t = 30000 and w = 25000, OF a]
  show ?thesis using a b by simp
qed

text \<open>
  The claim as the specification words it fails, in two ways. PCPartPicker's helper returns
  normally after a navigation that timed out and left the page on another host, so the
  flow goes on. And in the Zillow flow the helper does report the failed logout navigation
  (the page is on another host), yet that is not fatal: the flow returns success.
\<close>

theorem navigation_fallback_counterexample:
  \<open>resp env_nav_lost 0 = RThrow (JsError ''TimeoutError'' ''Timeout exceeded.'')
   \<and> url_host env_nav_lost ''https://pcpartpicker.com/accounts/login/'' = Some ''pcpartpicker.com''
   \<and> trace (snd (pcpp_safeGoto ''https://pcpartpicker.com/accounts/login/'' 25000 env_nav_lost st0))
       = [Goto ''https://pcpartpicker.com/accounts/login/'' (Some 25000),
          WaitForLoadState ''domcontentloaded'' (Some 5000)]
   \<and> url_host env_nav_lost (url_at env_nav_lost 2) = Some ''chromewebdata''
   \<and> fst (pcpp_safeGoto ''https://pcpartpicker.com/accounts/login/'' 25000 env_nav_lost st0) = Inr ()
   \<and> trace (snd (run (zillowChangePasswordFlow pe_zillow) env_zillow_lost)) ! 22
       = Goto ''https://www.zillow.com/Logout.htm'' (Some 30000)
   \<and> resp env_zillow_lost 22 = RThrow (JsError ''TimeoutError'' ''Timeout exceeded.'')
   \<and> url_host env_zillow_lost ''https://www.zillow.com/Logout.htm'' = Some ''www.zillow.com''
   \<and> trace (snd (run (zillowChangePasswordFlow pe_zillow) env_zillow_lost)) ! 23 = Url
   \<and> url_host env_zillow_lost (url_at env_zillow_lost 23) = Some ''chromewebdata''
   \<and> (Error, ''[NAV] Logout: failed to navigate -> Timeout exceeded.'')
        \<in> set (logs (snd (run (zillowChangePasswordFlow pe_zillow) env_zillow_lost)))
   \<and> fst (run (zillowChangePasswordFlow pe_zillow) env_zillow_lost)
       = Inr \<lparr>success = True,
              message = ''Password change flow executed and logout attempted successfully.''\<rparr>\<close>
proof -
  let ?run = "run (zillowChangePasswordFlow pe_zillow) env_zillow_lost"
  have p: \<open>resp env_nav_lost 0 = RThrow (JsError ''TimeoutError'' ''Timeout exceeded.'')
   \<and> url_host env_nav_lost ''https://pcpartpicker.com/accounts/login/'' = Some ''pcpartpicker.com''
   \<and> trace (snd (pcpp_safeGoto ''https://pcpartpicker.com/accounts/login/'' 25000 env_nav_lost st0))
       = [Goto ''https://pcpartpicker.com/accounts/login/'' (Some 25000),
          WaitForLoadState ''domcontentloaded'' (Some 5000)]
   \<and> url_host env_nav_lost (url_at env_nav_lost 2) = Some ''chromewebdata''
   \<and> fst (pcpp_safeGoto ''https://pcpartpicker.com/accounts/login/'' 25000 env_nav_lost st0) = Inr ()\<close>
    by (simp add: env_nav_lost_def host_of_simple_def url_at_def pcpp_safeGoto_def swallow_def
      catch_def seq_def bind_def perform_def call_def throw_def ret_def console_def st0_def)
  have "19 \<le> length (trace (snd ?run))" using zillow_lost_run by simp
  then have "drop 19 (trace (snd ?run)) ! 3 = trace (snd ?run) ! (19 + 3)"
       "drop 19 (trace (snd ?run)) ! 4 = trace (snd ?run) ! (19 + 4)"
    by (simp_all only: nth_drop)
  then have t: \<open>trace (snd ?run) ! 22 = Goto ''https://www.zillow.com/Logout.htm'' (Some 30000)\<close>
      "trace (snd ?run) ! 23 = Url"
    unfolding zillow_lost_trace by simp_all
  have e: \<open>resp env_zillow_lost 22 = RThrow (JsError ''TimeoutError'' ''Timeout exceeded.'')\<close>
      \<open>url_host env_zillow_lost ''https://www.zillow.com/Logout.htm'' = Some ''www.zillow.com''\<close>
      \<open>url_host env_zillow_lost (url_at env_zillow_lost 23) = Some ''chromewebdata''\<close>
    by (simp_all add: env_zillow_lost_def host_of_simple_def url_at_def)
  have r: \<open>(Error, ''[NAV] Logout: failed to navigate -> Timeout exceeded.'') \<in> set (logs (snd ?run))
   \<and> fst ?run = Inr \<lparr>success = True,
              message = ''Password change flow executed and logout attempted successfully.''\<rparr>\<close>
    by (simp add: zillow_eval_defs eval_defs pe_zillow_def env_zillow_lost_def host_of_simple_def locator_defs)
  show ?thesis using p t e r by blast
qed

section \<open>The click retrier\<close>

lemma attempts_fail_iff:
  "attempts_fail e n d = (\<forall>j<d. is_throw (resp e (n + 2 * j)) \<and> \<not> is_throw (resp e (n + 2 * j + 1)))"
  by (auto simp: attempts_fail_def list_all_iff)

lemma attempts_fail_Suc:
  "attempts_fail e n (Suc d) =
     (is_throw (resp e n) \<and> \<not> is_throw (resp e (Suc n)) \<and> attempts_fail e (Suc (Suc n)) d)"
proof
  assume h: "attempts_fail e n (Suc d)"
  have "is_throw (resp e n) \<and> \<not> is_throw (resp e (Suc n))"
    using h[unfolded attempts_fail_iff, rule_format, of 0] by simp
  moreover have "attempts_fail e (Suc (Suc n)) d"
    unfolding attempts_fail_iff
  proof (intro allI impI)
    fix j assume "j < d"
    then have "Suc j < Suc d" by simp
    from h[unfolded attempts_fail_iff, rule_format, OF this]
    show "is_throw (resp e (Suc (Suc n) + 2 * j)) \<and> \<not> is_throw (resp e (Suc (Suc n) + 2 * j + 1))" by simp
  qed
  ultimately show "is_throw (resp e n) \<and> \<not> is_throw (resp e (Suc n)) \<and> attempts_fail e (Suc (Suc n)) d"
    by simp
next
  assume h: "is_throw (resp e n) \<and> \<not> is_throw (resp e (Suc n)) \<and> attempts_fail e (Suc (Suc n)) d"
  show "attempts_fail e n (Suc d)"
    unfolding attempts_fail_iff
  proof (intro allI impI)
    fix j assume j: "j < Suc d"
    show "is_throw (resp e (n + 2 * j)) \<and> \<not> is_throw (resp e (n + 2 * j + 1))"
    proof (cases j)
      case 0 then show ?thesis using h by simp
    next
      case (Suc j')
      then have "j' < d" using j by simp
      then have "is_throw (resp e (Suc (Suc n) + 2 * j')) \<and> \<not> is_throw (resp e (Suc (Suc n) + 2 * j' + 1))"
        using h by (simp add: attempts_fail_iff)
      then show ?thesis using Suc by simp
    qed
  qed
qed

lemma attempts_fail_0: "attempts_fail e n 0"
  by (simp add: attempts_fail_def)

lemma attempt_ops_Suc: "attempt_ops sel (Suc d) = click_op sel # WaitForTimeout 750 # attempt_ops sel d"
  by (simp add: attempt_ops_def)

lemma attempt_ops_0: "attempt_ops sel 0 = []"
  by (simp add: attempt_ops_def)

text \<open>One failed attempt whose backoff wait completes: the loop goes on at the next index.\<close>

lemma clickWithRetry_from_step:
  assumes "i < attempts" and "is_throw (resp e (length (trace s)))"
    and "\<not> is_throw (resp e (Suc (length (trace s))))"
  shows "\<exists>s1. trace s1 = trace s @ [click_op sel, WaitForTimeout 750] \<and>
     clickWithRetry_from sel attempts i lastErr e s
       = clickWithRetry_from sel attempts (i + 1) (thrown_at e (length (trace s))) e s1"
  using assms
  apply (subst clickWithRetry_from.simps)
  apply (simp add: click_op_def catch_def seq_def bind_def perform_run console_run)
  apply (rule exI, rule conjI)
   prefer 2
   apply (rule refl)
  apply simp
  done

lemma clickWithRetry_from_exhausted:
  assumes "\<not> i < attempts"
  shows "clickWithRetry_from sel attempts i lastErr e s
       = (Inl lastErr, s\<lparr>logs := logs s @ [(Error, ''[clickWithRetry] All attempts failed for '' @ sel)]\<rparr>)"
  using assms
  by (subst clickWithRetry_from.simps) (simp add: seq_def bind_def console_run throw_def)

lemma clickWithRetry_from_success:
  assumes "i < attempts" and "\<not> is_throw (resp e (length (trace s)))"
  shows "clickWithRetry_from sel attempts i lastErr e s = (Inr (), s\<lparr>trace := trace s @ [click_op sel]\<rparr>)"
  using assms
  by (subst clickWithRetry_from.simps) (simp add: click_op_def catch_def perform_run)

lemma clickWithRetry_from_all_fail:
  assumes "attempts_fail e (length (trace s)) d" and "i + d = attempts"
  shows "trace (snd (clickWithRetry_from sel attempts i lastErr e s)) = trace s @ attempt_ops sel d
       \<and> fst (clickWithRetry_from sel attempts i lastErr e s)
           = Inl (if d = 0 then lastErr else thrown_at e (length (trace s) + 2 * (d - 1)))"
  using assms
proof (induction d arbitrary: i s lastErr)
  case 0
  then show ?case by (simp add: clickWithRetry_from_exhausted attempt_ops_0)
next
  case (Suc d)
  let ?n = "length (trace s)"
  from Suc.prems(1) have f: "is_throw (resp e ?n)" "\<not> is_throw (resp e (Suc ?n))"
      "attempts_fail e (Suc (Suc ?n)) d"
    by (simp_all add: attempts_fail_Suc)
  have "i < attempts" using Suc.prems(2) by simp
  from clickWithRetry_from_step[OF this f(1,2), of sel lastErr] obtain s1 where
    s1: "trace s1 = trace s @ [click_op sel, WaitForTimeout 750]"
        "clickWithRetry_from sel attempts i lastErr e s
           = clickWithRetry_from sel attempts (i + 1) (thrown_at e ?n) e s1"
    by blast
  have l: "length (trace s1) = Suc (Suc ?n)" using s1(1) by simp
  have "attempts_fail e (length (trace s1)) d" using f(3) l by simp
  moreover have "(i + 1) + d = attempts" using Suc.prems(2) by simp
  ultimately have ih: "trace (snd (clickWithRetry_from sel attempts (i + 1) (thrown_at e ?n) e s1))
        = trace s1 @ attempt_ops sel d
      \<and> fst (clickWithRetry_from sel attempts (i + 1) (thrown_at e ?n) e s1)
        = Inl (if d = 0 then thrown_at e ?n else thrown_at e (length (trace s1) + 2 * (d - 1)))"
    by (rule Suc.IH)
  have "(if d = 0 then thrown_at e ?n else thrown_at e (length (trace s1) + 2 * (d - 1)))
      = thrown_at e (?n + 2 * (Suc d - 1))"
    using l by (cases d) simp_all
  then show ?case using ih s1 by (simp add: attempt_ops_Suc)
qed

lemma clickWithRetry_from_kth:
  assumes "attempts_fail e (length (trace s)) d" and "\<not> is_throw (resp e (length (trace s) + 2 * d))"
    and "i + d < attempts"
  shows "trace (snd (clickWithRetry_from sel attempts i lastErr e s)) = trace s @ attempt_ops sel d @ [click_op sel]
       \<and> fst (clickWithRetry_from sel attempts i lastErr e s) = Inr ()"
  using assms
proof (induction d arbitrary: i s lastErr)
  case 0
  then show ?case by (simp add: clickWithRetry_from_success attempt_ops_0)
next
  case (Suc d)
  let ?n = "length (trace s)"
  from Suc.prems(1) have f: "is_throw (resp e ?n)" "\<not> is_throw (resp e (Suc ?n))"
      "attempts_fail e (Suc (Suc ?n)) d"
    by (simp_all add: attempts_fail_Suc)
  have "i < attempts" using Suc.prems(3) by simp
  from clickWithRetry_from_step[OF this f(1,2), of sel lastErr] obtain s1 where
    s1: "trace s1 = trace s @ [click_op sel, WaitForTimeout 750]"
        "clickWithRetry_from sel attempts i lastErr e s
           = clickWithRetry_from sel attempts (i + 1) (thrown_at e ?n) e s1"
    by blast
  have l: "length (trace s1) = Suc (Suc ?n)" using s1(1) by simp
  have "attempts_fail e (length (trace s1)) d" using f(3) l by simp
  moreover have "\<not> is_throw (resp e (length (trace s1) + 2 * d))" using Suc.prems(2) l by simp
  moreover have "(i + 1) + d < attempts" using Suc.prems(3) by simp
  ultimately have "trace (snd (clickWithRetry_from sel attempts (i + 1) (thrown_at e ?n) e s1))
        = trace s1 @ attempt_ops sel d @ [click_op sel]
      \<and> fst (clickWithRetry_from sel attempts (i + 1) (thrown_at e ?n) e s1) = Inr ()"
    by (rule Suc.IH)
  then show ?case using s1 by (simp add: attempt_ops_Suc)
qed

lemma count_attempt_ops: "count_list (attempt_ops sel d) (click_op sel) = d"
  by (induction d) (simp_all add: attempt_ops_0 attempt_ops_Suc click_op_def)

text \<open>
  Claim C8, as the code has it. The backoff wait stands in the \<open>catch\<close> block of the loop, so
  the count holds when each failed attempt's backoff wait completes. With \<open>attempts = N\<close>:
  if every click fails (and every backoff wait completes), exactly N clicks are issued and
  the retrier throws the error of the last click (\<open>undefined\<close> when N is 0); if the first
  k - 1 clicks fail (each backoff wait completing) and the k-th does not, for 1 \<le> k \<le> N,
  exactly k clicks are issued and the retrier returns normally.
\<close>

theorem retry_attempts:
  "(attempts_fail e (length (trace s)) N \<longrightarrow>
      trace (snd (clickWithRetry sel N e s)) = trace s @ attempt_ops sel N
      \<and> count_list (attempt_ops sel N) (click_op sel) = N
      \<and> fst (clickWithRetry sel N e s)
          = Inl (if N = 0 then JsUndefined else thrown_at e (length (trace s) + 2 * (N - 1))))
   \<and> (0 < k \<and> k \<le> N \<and> attempts_fail e (length (trace s)) (k - 1)
        \<and> \<not> is_throw (resp e (length (trace s) + 2 * (k - 1))) \<longrightarrow>
      trace (snd (clickWithRetry sel N e s)) = trace s @ attempt_ops sel (k - 1) @ [click_op sel]
      \<and> count_list (attempt_ops sel (k - 1) @ [click_op sel]) (click_op sel) = k
      \<and> fst (clickWithRetry sel N e s) = Inr ())"
proof (rule conjI)
  show "attempts_fail e (length (trace s)) N \<longrightarrow>
      trace (snd (clickWithRetry sel N e s)) = trace s @ attempt_ops sel N
      \<and> count_list (attempt_ops sel N) (click_op sel) = N
      \<and> fst (clickWithRetry sel N e s)
          = Inl (if N = 0 then JsUndefined else thrown_at e (length (trace s) + 2 * (N - 1)))"
  proof (rule impI)
    assume "attempts_fail e (length (trace s)) N"
    from clickWithRetry_from_all_fail[OF this, of 0 N sel JsUndefined]
    show "trace (snd (clickWithRetry sel N e s)) = trace s @ attempt_ops sel N
      \<and> count_list (attempt_ops sel N) (click_op sel) = N
      \<and> fst (clickWithRetry sel N e s)
          = Inl (if N = 0 then JsUndefined else thrown_at e (length (trace s) + 2 * (N - 1)))"
      by (simp add: clickWithRetry_def count_attempt_ops)
  qed
next
  show "0 < k \<and> k \<le> N \<and> attempts_fail e (length (trace s)) (k - 1)
        \<and> \<not> is_throw (resp e (length (trace s) + 2 * (k - 1))) \<longrightarrow>
      trace (snd (clickWithRetry sel N e s)) = trace s @ attempt_ops sel (k - 1) @ [click_op sel]
      \<and> count_list (attempt_ops sel (k - 1) @ [click_op sel]) (click_op sel) = k
      \<and> fst (clickWithRetry sel N e s) = Inr ()"
  proof (rule impI)
    assume h: "0 < k \<and> k \<le> N \<and> attempts_fail e (length (trace s)) (k - 1)
        \<and> \<not> is_throw (resp e (length (trace s) + 2 * (k - 1)))"
    then have a: "attempts_fail e (length (trace s)) (k - 1)"
      and b: "\<not> is_throw (resp e (length (trace s) + 2 * (k - 1)))"
      and c: "0 + (k - 1) < N" and k: "0 < k"
      by auto
    have "count_list (attempt_ops sel (k - 1) @ [click_op sel]) (click_op sel) = k"
      using k by (simp add: count_attempt_ops)
    with clickWithRetry_from_kth[OF a b c, of sel JsUndefined]
    show "trace (snd (clickWithRetry sel N e s)) = trace s @ attempt_ops sel (k - 1) @ [click_op sel]
      \<and> count_list (attempt_ops sel (k - 1) @ [click_op sel]) (click_op sel) = k
      \<and> fst (clickWithRetry sel N e s) = Inr ()"
      by (simp add: clickWithRetry_def)
  qed
qed

text \<open>Two attempts: both clicks fail; and the first fails, the second succeeds.\<close>

theorem retry_attempts_witness:
  \<open>attempts_fail env_two_fail (length (trace st0)) 2
   \<and> trace (snd (clickWithRetry saveButtonSel 2 env_two_fail st0))
        = [click_op saveButtonSel, WaitForTimeout 750, click_op saveButtonSel, WaitForTimeout 750]
   \<and> fst (clickWithRetry saveButtonSel 2 env_two_fail st0) = Inl (JsError ''TimeoutError'' ''click 2 timed out'')
   \<and> (0::nat) < 2 \<and> (2::nat) \<le> 2 \<and> attempts_fail env_first_fails (length (trace st0)) (2 - 1)
   \<and> \<not> is_throw (resp env_first_fails (length (trace st0) + 2 * (2 - 1)))
   \<and> trace (snd (clickWithRetry saveButtonSel 2 env_first_fails st0))
        = [click_op saveButtonSel, WaitForTimeout 750, click_op saveButtonSel]
   \<and> fst (clickWithRetry saveButtonSel 2 env_first_fails st0) = Inr ()\<close>
proof -
  have a: "attempts_fail env_two_fail (length (trace st0)) 2"
    by (simp add: numeral_2_eq_2 attempts_fail_Suc attempts_fail_0 env_two_fail_def is_throw_def st0_def)
  have b: "(0::nat) < 2 \<and> (2::nat) \<le> 2 \<and> attempts_fail env_first_fails (length (trace st0)) (2 - 1)
      \<and> \<not> is_throw (resp env_first_fails (length (trace st0) + 2 * (2 - 1)))"
    by (simp add: numeral_2_eq_2 attempts_fail_Suc attempts_fail_0 env_first_fails_def is_throw_def st0_def)
  have t: \<open>thrown_at env_two_fail (length (trace st0) + 2 * (2 - 1)) = JsError ''TimeoutError'' ''click 2 timed out''\<close>
    by (simp add: thrown_at_def env_two_fail_def st0_def)
  have l: "attempt_ops saveButtonSel 2 = [click_op saveButtonSel, WaitForTimeout 750, click_op saveButtonSel, WaitForTimeout 750]"
     "attempt_ops saveButtonSel (2 - 1) = [click_op saveButtonSel, WaitForTimeout 750]"
    by (simp_all add: attempt_ops_def numeral_2_eq_2)
  have z: "trace st0 = []" by (simp add: st0_def)
  from retry_attempts [of env_two_fail st0 2 saveButtonSel 2] a
  have 1: "trace (snd (clickWithRetry saveButtonSel 2 env_two_fail st0)) = trace st0 @ attempt_ops saveButtonSel 2"
     "fst (clickWithRetry saveButtonSel 2 env_two_fail st0)
        = Inl (thrown_at env_two_fail (length (trace st0) + 2 * (2 - 1)))"
    by simp_all
  from retry_attempts [of env_first_fails st0 2 saveButtonSel 2] b
  have 2: "trace (snd (clickWithRetry saveButtonSel 2 env_first_fails st0))
        = trace st0 @ attempt_ops saveButtonSel (2 - 1) @ [click_op saveButtonSel]"
     "fst (clickWithRetry saveButtonSel 2 env_first_fails st0) = Inr ()"
    by blast+
  have r1: \<open>fst (clickWithRetry saveButtonSel 2 env_two_fail st0) = Inl (JsError ''TimeoutError'' ''click 2 timed out'')\<close>
    using 1(2) t by simp
  have r2: "trace (snd (clickWithRetry saveButtonSel 2 env_two_fail st0))
        = [click_op saveButtonSel, WaitForTimeout 750, click_op saveButtonSel, WaitForTimeout 750]"
    using 1(1) l(1) z by simp
  have r3: "trace (snd (clickWithRetry saveButtonSel 2 env_first_fails st0))
        = [click_op saveButtonSel, WaitForTimeout 750, click_op saveButtonSel]"
    using 2(1) l(2) z by simp
  show ?thesis using a b r1 r2 r3 2(2) by blast
qed

text \<open>
  The claim as the specification words it fails: with two attempts, when the first click
  fails and the backoff wait throws as well (the page was closed), the retrier stops after
  one click, with the error of the wait.
\<close>

theorem retry_attempts_counterexample:
  \<open>is_throw (resp env_page_closed 0)
   \<and> trace (snd (clickWithRetry saveButtonSel 2 env_page_closed st0)) = [click_op saveButtonSel, WaitForTimeout 750]
   \<and> count_list (trace (snd (clickWithRetry saveButtonSel 2 env_page_closed st0))) (click_op saveButtonSel) = 1
   \<and> fst (clickWithRetry saveButtonSel 2 env_page_closed st0)
       = Inl (JsError ''Error'' ''Target page, context or browser has been closed'')\<close>
  by (simp add: clickWithRetry_def clickWithRetry_from.simps[of _ _ 0] click_op_def is_throw_def
      env_page_closed_def catch_def seq_def bind_def perform_def call_def throw_def ret_def console_def st0_def)

section \<open>Logs and credentials\<close>

lemma bind_ret: "bind (ret x) f = f x"
  by (simp add: bind_def ret_def)

lemma maskSecret_empty_iff: "(maskSecret v = []) = (\<not> truthy v)"
  by (simp add: maskSecret_def)

lemma maskSecret_shape:
  "truthy v \<Longrightarrow> length (maskSecret v) = max 4 (min (length (given v)) 12) \<and> set (maskSecret v) \<subseteq> {CHR ''*''}"
  by (auto simp: maskSecret_def)

lemma mask_examples:
  \<open>maskSecret (Some ''P@ss1'') = ''*****''\<close>
  \<open>maskSecret (Some ''P@ssw0rd1'') = ''*********''\<close>
  \<open>maskSecret (Some ''P@ss2!'') = ''******''\<close>
  \<open>maskSecret (Some ''alice@example.com'') = ''************''\<close>
  by (simp_all add: maskSecret_def truthy_def given_def eval_nat_numeral)

lemma answered_iff: "answered P e t = (\<forall>k<length t. resp e k = P k (t ! k))"
  by (auto simp: answered_def list_all_iff)

lemma answered_append: "answered P e (t @ zs) \<Longrightarrow> answered P e t"
  unfolding answered_iff by (metis length_append nth_append trans_less_add1)

lemma answered_last: "answered P e (t @ [a]) \<Longrightarrow> resp e (length t) = P (length t) a"
  unfolding answered_iff by (metis length_append_singleton lessI nth_append_length)

lemma emits_extends: "emits m (\<lambda>o'. True) \<Longrightarrow> \<exists>ys. trace (snd (m e s)) = trace s @ ys"
  unfolding emits_def by blast

lemma low_eq_length: "low_eq s1 s2 \<Longrightarrow> length (trace s1) = length (trace s2)"
  unfolding low_eq_def by (metis length_map)

lemma simI:
  assumes "emits m1 (\<lambda>o'. True)" and "emits m2 (\<lambda>o'. True)"
    and "\<And>P e1 e2 s1 s2. same_parser e1 e2 \<Longrightarrow> low_eq s1 s2
          \<Longrightarrow> answered (discreet P) e1 (trace (snd (m1 e1 s1)))
          \<Longrightarrow> answered (discreet P) e2 (trace (snd (m2 e2 s2)))
          \<Longrightarrow> fst (m1 e1 s1) = fst (m2 e2 s2) \<and> low_eq (snd (m1 e1 s1)) (snd (m2 e2 s2))"
  shows "sim m1 m2"
  unfolding sim_def using assms by blast

lemma simD:
  assumes "sim m1 m2" and "same_parser e1 e2" and "low_eq s1 s2"
    and "answered (discreet P) e1 (trace (snd (m1 e1 s1)))"
    and "answered (discreet P) e2 (trace (snd (m2 e2 s2)))"
  shows "fst (m1 e1 s1) = fst (m2 e2 s2) \<and> low_eq (snd (m1 e1 s1)) (snd (m2 e2 s2))"
  using assms unfolding sim_def by blast

lemma sim_emits1: "sim m1 m2 \<Longrightarrow> emits m1 (\<lambda>o'. True)"
  unfolding sim_def by blast

lemma sim_emits2: "sim m1 m2 \<Longrightarrow> emits m2 (\<lambda>o'. True)"
  unfolding sim_def by blast

lemma sim_extends1: "sim m1 m2 \<Longrightarrow> \<exists>ys. trace (snd (m1 e s)) = trace s @ ys"
  by (rule emits_extends) (rule sim_emits1)

lemma sim_extends2: "sim m1 m2 \<Longrightarrow> \<exists>ys. trace (snd (m2 e s)) = trace s @ ys"
  by (rule emits_extends) (rule sim_emits2)

lemma sim_ret [sim_intros]: "sim (ret x) (ret x)"
  by (rule simI) (simp_all add: emits_ret, simp add: ret_def)

lemma sim_throw [sim_intros]: "sim (throw err) (throw err)"
  by (rule simI) (simp_all add: emits_throw, simp add: throw_def)

lemma sim_console [sim_intros]: "sim (console l m) (console l m)"
  by (rule simI) (simp_all add: emits_console, simp add: console_def low_eq_def)

lemma sim_call [sim_intros]:
  assumes "hide a = hide b"
  shows "sim (call a) (call b)"
proof (rule simI)
  show "emits (call a) (\<lambda>o'. True)" "emits (call b) (\<lambda>o'. True)" by (simp_all add: emits_call)
next
  fix P e1 e2 s1 s2
  assume l: "low_eq s1 s2"
    and a1: "answered (discreet P) e1 (trace (snd (call a e1 s1)))"
    and a2: "answered (discreet P) e2 (trace (snd (call b e2 s2)))"
  have n: "length (trace s1) = length (trace s2)" using l by (rule low_eq_length)
  from a1 have "resp e1 (length (trace s1)) = discreet P (length (trace s1)) a"
    by (simp add: call_def answered_last)
  moreover from a2 have "resp e2 (length (trace s2)) = discreet P (length (trace s2)) b"
    by (simp add: call_def answered_last)
  ultimately have "resp e1 (length (trace s1)) = resp e2 (length (trace s2))"
    using n assms by (simp add: discreet_def)
  then show "fst (call a e1 s1) = fst (call b e2 s2) \<and> low_eq (snd (call a e1 s1)) (snd (call b e2 s2))"
    using l assms by (simp add: call_def low_eq_def)
qed

lemma sim_bind [sim_intros]:
  assumes "sim m1 m2" and "\<And>x. sim (f1 x) (f2 x)"
  shows "sim (bind m1 f1) (bind m2 f2)"
proof (rule simI)
  show "emits (bind m1 f1) (\<lambda>o'. True)"
    by (rule emits_bind) (rule sim_emits1[OF assms(1)], rule sim_emits1[OF assms(2)])
  show "emits (bind m2 f2) (\<lambda>o'. True)"
    by (rule emits_bind) (rule sim_emits2[OF assms(1)], rule sim_emits2[OF assms(2)])
next
  fix P e1 e2 s1 s2
  assume sp: "same_parser e1 e2" and l: "low_eq s1 s2"
    and a1: "answered (discreet P) e1 (trace (snd (bind m1 f1 e1 s1)))"
    and a2: "answered (discreet P) e2 (trace (snd (bind m2 f2 e2 s2)))"
  obtain r1 t1 where m1: "m1 e1 s1 = (r1, t1)" by (cases "m1 e1 s1")
  obtain r2 t2 where m2: "m2 e2 s2 = (r2, t2)" by (cases "m2 e2 s2")
  have x1: "\<exists>zs. trace (snd (bind m1 f1 e1 s1)) = trace t1 @ zs"
  proof (cases r1)
    case (Inl err) then show ?thesis using m1 by (simp add: bind_def)
  next
    case (Inr x)
    then show ?thesis using m1 sim_extends1[OF assms(2)[of x], of e1 t1]
      by (simp add: bind_def)
  qed
  have x2: "\<exists>zs. trace (snd (bind m2 f2 e2 s2)) = trace t2 @ zs"
  proof (cases r2)
    case (Inl err) then show ?thesis using m2 by (simp add: bind_def)
  next
    case (Inr x)
    then show ?thesis using m2 sim_extends2[OF assms(2)[of x], of e2 t2]
      by (simp add: bind_def)
  qed
  have b1: "answered (discreet P) e1 (trace (snd (m1 e1 s1)))"
    using x1 a1 m1 by (auto dest: answered_append)
  have b2: "answered (discreet P) e2 (trace (snd (m2 e2 s2)))"
    using x2 a2 m2 by (auto dest: answered_append)
  from simD[OF assms(1) sp l b1 b2] m1 m2 have r: "r1 = r2" "low_eq t1 t2" by simp_all
  show "fst (bind m1 f1 e1 s1) = fst (bind m2 f2 e2 s2)
      \<and> low_eq (snd (bind m1 f1 e1 s1)) (snd (bind m2 f2 e2 s2))"
  proof (cases r1)
    case (Inl err)
    then show ?thesis using m1 m2 r by (simp add: bind_def)
  next
    case (Inr x)
    then have e: "bind m1 f1 e1 s1 = f1 x e1 t1" "bind m2 f2 e2 s2 = f2 x e2 t2"
      using m1 m2 r by (simp_all add: bind_def)
    from simD[OF assms(2)[of x] sp r(2)] a1 a2 show ?thesis unfolding e by simp
  qed
qed

lemma sim_seq [sim_intros]: "sim m1 m2 \<Longrightarrow> sim n1 n2 \<Longrightarrow> sim (seq m1 n1) (seq m2 n2)"
  by (simp add: seq_def sim_bind)

lemma sim_catch [sim_intros]:
  assumes "sim m1 m2" and "\<And>err. sim (h1 err) (h2 err)"
  shows "sim (catch m1 h1) (catch m2 h2)"
proof (rule simI)
  show "emits (catch m1 h1) (\<lambda>o'. True)"
    by (rule emits_catch) (rule sim_emits1[OF assms(1)], rule sim_emits1[OF assms(2)])
  show "emits (catch m2 h2) (\<lambda>o'. True)"
    by (rule emits_catch) (rule sim_emits2[OF assms(1)], rule sim_emits2[OF assms(2)])
next
  fix P e1 e2 s1 s2
  assume sp: "same_parser e1 e2" and l: "low_eq s1 s2"
    and a1: "answered (discreet P) e1 (trace (snd (catch m1 h1 e1 s1)))"
    and a2: "answered (discreet P) e2 (trace (snd (catch m2 h2 e2 s2)))"
  obtain r1 t1 where m1: "m1 e1 s1 = (r1, t1)" by (cases "m1 e1 s1")
  obtain r2 t2 where m2: "m2 e2 s2 = (r2, t2)" by (cases "m2 e2 s2")
  have x1: "\<exists>zs. trace (snd (catch m1 h1 e1 s1)) = trace t1 @ zs"
  proof (cases r1)
    case (Inr x) then show ?thesis using m1 by (simp add: catch_def)
  next
    case (Inl err)
    then show ?thesis using m1 sim_extends1[OF assms(2)[of err], of e1 t1]
      by (simp add: catch_def)
  qed
  have x2: "\<exists>zs. trace (snd (catch m2 h2 e2 s2)) = trace t2 @ zs"
  proof (cases r2)
    case (Inr x) then show ?thesis using m2 by (simp add: catch_def)
  next
    case (Inl err)
    then show ?thesis using m2 sim_extends2[OF assms(2)[of err], of e2 t2]
      by (simp add: catch_def)
  qed
  have b1: "answered (discreet P) e1 (trace (snd (m1 e1 s1)))"
    using x1 a1 m1 by (auto dest: answered_append)
  have b2: "answered (discreet P) e2 (trace (snd (m2 e2 s2)))"
    using x2 a2 m2 by (auto dest: answered_append)
  from simD[OF assms(1) sp l b1 b2] m1 m2 have r: "r1 = r2" "low_eq t1 t2" by simp_all
  show "fst (catch m1 h1 e1 s1) = fst (catch m2 h2 e2 s2)
      \<and> low_eq (snd (catch m1 h1 e1 s1)) (snd (catch m2 h2 e2 s2))"
  proof (cases r1)
    case (Inr x)
    then show ?thesis using m1 m2 r by (simp add: catch_def)
  next
    case (Inl err)
    then have e: "catch m1 h1 e1 s1 = h1 err e1 t1" "catch m2 h2 e2 s2 = h2 err e2 t2"
      using m1 m2 r by (simp_all add: catch_def)
    from simD[OF assms(2)[of err] sp r(2)] a1 a2 show ?thesis unfolding e by simp
  qed
qed

lemma sim_swallow [sim_intros]: "sim m1 m2 \<Longrightarrow> sim (swallow m1) (swallow m2)"
  by (simp add: swallow_def sim_catch sim_ret)

lemma sim_promise_all [sim_intros]:
  assumes "sim a1 a2" and "sim b1 b2"
  shows "sim (promise_all a1 b1) (promise_all a2 b2)"
proof (rule simI)
  show "emits (promise_all a1 b1) (\<lambda>o'. True)"
    by (rule emits_promise_all) (rule sim_emits1[OF assms(1)], rule sim_emits1[OF assms(2)])
  show "emits (promise_all a2 b2) (\<lambda>o'. True)"
    by (rule emits_promise_all) (rule sim_emits2[OF assms(1)], rule sim_emits2[OF assms(2)])
next
  fix P e1 e2 s1 s2
  assume sp: "same_parser e1 e2" and l: "low_eq s1 s2"
    and c1: "answered (discreet P) e1 (trace (snd (promise_all a1 b1 e1 s1)))"
    and c2: "answered (discreet P) e2 (trace (snd (promise_all a2 b2 e2 s2)))"
  obtain ra1 t1 where a1: "a1 e1 s1 = (ra1, t1)" by (cases "a1 e1 s1")
  obtain ra2 t2 where a2: "a2 e2 s2 = (ra2, t2)" by (cases "a2 e2 s2")
  obtain rb1 u1 where b1: "b1 e1 t1 = (rb1, u1)" by (cases "b1 e1 t1")
  obtain rb2 u2 where b2: "b2 e2 t2 = (rb2, u2)" by (cases "b2 e2 t2")
  have f1: "snd (promise_all a1 b1 e1 s1) = u1" using a1 b1 by (simp add: promise_all_def split: sum.splits)
  have f2: "snd (promise_all a2 b2 e2 s2) = u2" using a2 b2 by (simp add: promise_all_def split: sum.splits)
  from sim_extends1[OF assms(2), of e1 t1] b1 obtain zs1 where z1: "trace u1 = trace t1 @ zs1"
    by auto
  from sim_extends2[OF assms(2), of e2 t2] b2 obtain zs2 where z2: "trace u2 = trace t2 @ zs2"
    by auto
  have d1: "answered (discreet P) e1 (trace (snd (a1 e1 s1)))"
    using c1 f1 z1 a1 by (auto dest: answered_append)
  have d2: "answered (discreet P) e2 (trace (snd (a2 e2 s2)))"
    using c2 f2 z2 a2 by (auto dest: answered_append)
  from simD[OF assms(1) sp l d1 d2] a1 a2 have ra: "ra1 = ra2" "low_eq t1 t2" by simp_all
  have g1: "answered (discreet P) e1 (trace (snd (b1 e1 t1)))" using c1 f1 b1 by simp
  have g2: "answered (discreet P) e2 (trace (snd (b2 e2 t2)))" using c2 f2 b2 by simp
  from simD[OF assms(2) sp ra(2) g1 g2] b1 b2 have rb: "rb1 = rb2" "low_eq u1 u2" by simp_all
  have "left_first e1 (length (trace s1)) = left_first e2 (length (trace s2))"
    using sp low_eq_length[OF l] by (simp add: same_parser_def)
  then show "fst (promise_all a1 b1 e1 s1) = fst (promise_all a2 b2 e2 s2)
      \<and> low_eq (snd (promise_all a1 b1 e1 s1)) (snd (promise_all a2 b2 e2 s2))"
    using a1 a2 b1 b2 ra rb by (simp add: promise_all_def split: sum.splits)
qed

lemma sim_perform [sim_intros]: "hide a = hide b \<Longrightarrow> sim (perform a) (perform b)"
  unfolding perform_def by (rule sim_bind) (auto intro: sim_call sim_ret sim_throw split: response.splits)

lemma sim_ask_bool [sim_intros]: "sim (ask_bool a) (ask_bool a)"
  unfolding ask_bool_def by (rule sim_bind) (auto intro: sim_call sim_ret sim_throw split: response.splits)

lemma sim_ask_nat [sim_intros]: "sim (ask_nat a) (ask_nat a)"
  unfolding ask_nat_def by (rule sim_bind) (auto intro: sim_call sim_ret sim_throw split: response.splits)

lemma sim_ask_str [sim_intros]: "sim (ask_str a) (ask_str a)"
  unfolding ask_str_def by (rule sim_bind) (auto intro: sim_call sim_ret sim_throw split: response.splits)

lemma sim_goto_resp [sim_intros]: "sim (goto_resp u t) (goto_resp u t)"
  unfolding goto_resp_def by (rule sim_bind) (auto intro: sim_call sim_ret sim_throw split: response.splits)

lemma sim_page_url [sim_intros]: "sim page_url page_url"
  unfolding page_url_def by (rule sim_bind) (auto intro: sim_call sim_ret sim_throw split: response.splits)

lemma sim_with_env:
  assumes "\<And>ea eb. same_parser ea eb \<Longrightarrow> sim (f1 ea) (f2 eb)"
  shows "sim (with_env f1) (with_env f2)"
proof (rule simI)
  have "same_parser ea ea" for ea by (simp add: same_parser_def)
  then have s: "\<And>ea. sim (f1 ea) (f2 ea)" using assms by blast
  show "emits (with_env f1) (\<lambda>o'. True)"
    by (rule emits_with_env) (rule sim_emits1[OF s])
  show "emits (with_env f2) (\<lambda>o'. True)"
    by (rule emits_with_env) (rule sim_emits2[OF s])
next
  fix P e1 e2 s1 s2
  assume sp: "same_parser e1 e2" and l: "low_eq s1 s2"
    and a1: "answered (discreet P) e1 (trace (snd (with_env f1 e1 s1)))"
    and a2: "answered (discreet P) e2 (trace (snd (with_env f2 e2 s2)))"
  from simD[OF assms[OF sp] sp l] a1 a2
  show "fst (with_env f1 e1 s1) = fst (with_env f2 e2 s2)
      \<and> low_eq (snd (with_env f1 e1 s1)) (snd (with_env f2 e2 s2))"
    by (simp add: with_env_def)
qed

lemma sim_clickWithRetry_from [sim_intros]:
  "sim (clickWithRetry_from selector attempts i lastErr) (clickWithRetry_from selector attempts i lastErr)"
proof (induction "attempts - i" arbitrary: i lastErr)
  case 0
  then show ?case
    by (subst (1 2) clickWithRetry_from.simps) (auto intro!: sim_intros)
next
  case (Suc d)
  from Suc.hyps(2) have "d = attempts - (i + 1)" by simp
  then have "\<And>err. sim (clickWithRetry_from selector attempts (i + 1) err)
      (clickWithRetry_from selector attempts (i + 1) err)"
    by (rule Suc.hyps(1))
  then show ?case
    by (subst (1 2) clickWithRetry_from.simps) (auto intro!: sim_intros)
qed

lemma sim_clickWithRetry [sim_intros]: "sim (clickWithRetry selector attempts) (clickWithRetry selector attempts)"
  by (simp add: clickWithRetry_def sim_clickWithRetry_from)

lemma sim_openPage:
  "sessionId pe1 = sessionId pe2 \<Longrightarrow> sim (openPage pe1) (openPage pe2)"
  unfolding openPage_def getAnchorBrowser_def by (auto intro!: sim_intros)

lemma sim_pcpp_safeGoto [sim_intros]: "sim (pcpp_safeGoto url w) (pcpp_safeGoto url w)"
  unfolding pcpp_safeGoto_def by (auto intro!: sim_intros)

lemma sim_pcpp_waitForVisible [sim_intros]: "sim (pcpp_waitForVisible sel t) (pcpp_waitForVisible sel t)"
  unfolding pcpp_waitForVisible_def by (auto intro!: sim_intros)

lemma sim_isVisible_or_false [sim_intros]: "sim (isVisible_or_false a) (isVisible_or_false a)"
  unfolding isVisible_or_false_def by (auto intro!: sim_intros)

lemma sim_pcpp_verify [sim_intros]: "sim pcpp_verify pcpp_verify"
  unfolding pcpp_verify_def Let_def by (auto intro!: sim_intros)

lemma sim_pcpp_body:
  assumes "pcpp_loginUrl i1 = pcpp_loginUrl i2" and "pcpp_changePasswordUrl i1 = pcpp_changePasswordUrl i2"
  shows "sim (pcpp_body i1) (pcpp_body i2)"
  unfolding pcpp_body_def pcpp_login_def pcpp_change_def Let_def using assms
  by (auto intro!: sim_intros)

lemma sim_output:
  assumes "sim m1 m2" and "same_page P m1 e1 m2 e2"
  shows "same_output m1 e1 m2 e2"
proof -
  have l: "low_eq st0 st0" by (simp add: low_eq_def)
  from assms(2) have sp: "same_parser e1 e2"
    and a1: "answered (discreet P) e1 (trace (snd (m1 e1 st0)))"
    and a2: "answered (discreet P) e2 (trace (snd (m2 e2 st0)))"
    by (simp_all add: same_page_def run_def)
  from simD[OF assms(1) sp l a1 a2] show ?thesis
    by (simp add: same_output_def run_def low_eq_def)
qed

lemma pcpp_same_output:
  assumes "pcpp_alike pe1 pe2"
  shows "sim (pcppChangePasswordTask pe1) (pcppChangePasswordTask pe2)"
proof -
  from assms have s: "sessionId pe1 = sessionId pe2"
    and u: "pcpp_loginUrl (pcpp_INPUTS pe1) = pcpp_loginUrl (pcpp_INPUTS pe2)"
       "pcpp_changePasswordUrl (pcpp_INPUTS pe1) = pcpp_changePasswordUrl (pcpp_INPUTS pe2)"
    and t: "truthy (pcpp_username (pcpp_INPUTS pe1)) = truthy (pcpp_username (pcpp_INPUTS pe2))"
       "truthy (pcpp_oldPassword (pcpp_INPUTS pe1)) = truthy (pcpp_oldPassword (pcpp_INPUTS pe2))"
       "truthy (pcpp_newPassword (pcpp_INPUTS pe1)) = truthy (pcpp_newPassword (pcpp_INPUTS pe2))"
    by (simp_all add: pcpp_alike_def same_presence_def)
  have m: "listMissingInputs (pcpp_INPUTS pe1) = listMissingInputs (pcpp_INPUTS pe2)"
    by (simp add: listMissingInputs_def t)
  show ?thesis
    unfolding pcppChangePasswordTask_def Let_def m
    by (auto intro!: sim_intros sim_openPage[OF s] sim_pcpp_body[OF u])
qed

lemma sim_signIn [sim_intros]: "sim (signIn u1 p1) (signIn u2 p2)"
  unfolding signIn_def by (auto intro!: sim_intros)

lemma sim_safeClick [sim_intros]: "sim (safeClick sel d) (safeClick sel d)"
  unfolding safeClick_def by (auto intro!: sim_intros)

lemma sim_fandom_body: "sim (fandom_body urls u1 p1 n1) (fandom_body urls u2 p2 n2)"
  unfolding fandom_body_def fandom_steps_1_4_def fandom_reauth_def fandom_logout_def Let_def
  by (auto intro!: sim_intros)

lemma fandom_same_output:
  assumes "fandom_alike pe1 pe2"
  shows "sim (FandomChangePasswordFlow pe1) (FandomChangePasswordFlow pe2)"
proof -
  from assms have s: "sessionId pe1 = sessionId pe2"
    and u: "fandom_baseUrl (fandom_INPUTS pe1) = fandom_baseUrl (fandom_INPUTS pe2)"
    and t: "truthy (fandom_username (fandom_INPUTS pe1)) = truthy (fandom_username (fandom_INPUTS pe2))"
       "truthy (fandom_password (fandom_INPUTS pe1)) = truthy (fandom_password (fandom_INPUTS pe2))"
       "truthy (fandom_newPassword (fandom_INPUTS pe1)) = truthy (fandom_newPassword (fandom_INPUTS pe2))"
    by (simp_all add: fandom_alike_def same_presence_def)
  show ?thesis
    unfolding FandomChangePasswordFlow_def Let_def t u
    by (auto intro!: sim_intros sim_openPage[OF s] sim_fandom_body)
qed

lemma sim_zillow_safeGoto [sim_intros]: "sim (zillow_safeGoto url label t) (zillow_safeGoto url label t)"
  unfolding zillow_safeGoto_def
  by (auto intro!: sim_intros sim_with_env simp: same_parser_def split: option.splits)

lemma sim_expectVisible [sim_intros]: "sim (expectVisible l desc t) (expectVisible l desc t)"
  unfolding expectVisible_def by (auto intro!: sim_intros)

lemma sim_fail_with [sim_intros]: "sim (fail_with m) (fail_with m)"
  by (simp add: fail_with_def sim_ret)

lemma sim_zillow_body:
  assumes "zillow_startUrl i1 = zillow_startUrl i2" "zillow_profileUrl i1 = zillow_profileUrl i2"
    "zillow_logoutUrl i1 = zillow_logoutUrl i2"
    "maskSecret (zillow_email i1) = maskSecret (zillow_email i2)"
    "maskSecret (zillow_currentPassword i1) = maskSecret (zillow_currentPassword i2)"
    "maskSecret (zillow_newPassword i1) = maskSecret (zillow_newPassword i2)"
  shows "sim (zillow_body i1) (zillow_body i2)"
  unfolding zillow_body_def zillow_dialog_def zillow_submit_def zillow_finish_def Let_def assms
  by (auto intro!: sim_intros)

lemma same_mask_truthy: "same_mask a b \<Longrightarrow> truthy a = truthy b"
  unfolding same_mask_def by (metis maskSecret_empty_iff)

lemma zillow_same_output:
  assumes "zillow_alike pe1 pe2"
  shows "sim (zillowChangePasswordFlow pe1) (zillowChangePasswordFlow pe2)"
proof -
  from assms have s: "sessionId pe1 = sessionId pe2"
    and u: "zillow_startUrl (zillow_INPUTS pe1) = zillow_startUrl (zillow_INPUTS pe2)"
       "zillow_profileUrl (zillow_INPUTS pe1) = zillow_profileUrl (zillow_INPUTS pe2)"
       "zillow_logoutUrl (zillow_INPUTS pe1) = zillow_logoutUrl (zillow_INPUTS pe2)"
    and k: "maskSecret (zillow_email (zillow_INPUTS pe1)) = maskSecret (zillow_email (zillow_INPUTS pe2))"
       "maskSecret (zillow_currentPassword (zillow_INPUTS pe1)) = maskSecret (zillow_currentPassword (zillow_INPUTS pe2))"
       "maskSecret (zillow_newPassword (zillow_INPUTS pe1)) = maskSecret (zillow_newPassword (zillow_INPUTS pe2))"
    and t: "truthy (zillow_email (zillow_INPUTS pe1)) = truthy (zillow_email (zillow_INPUTS pe2))"
       "truthy (zillow_currentPassword (zillow_INPUTS pe1)) = truthy (zillow_currentPassword (zillow_INPUTS pe2))"
       "truthy (zillow_newPassword (zillow_INPUTS pe1)) = truthy (zillow_newPassword (zillow_INPUTS pe2))"
    by (simp_all add: zillow_alike_def same_mask_truthy) (simp_all add: same_mask_def)
  have m: "zillow_missing (zillow_INPUTS pe1) = zillow_missing (zillow_INPUTS pe2)"
    by (simp add: zillow_missing_def t)
  show ?thesis
    unfolding zillowChangePasswordFlow_def Let_def t m
    by (auto intro!: sim_intros sim_openPage[OF s] sim_zillow_body[OF u k])
qed

lemma sim_gotoWithLoad [sim_intros]: "sim (gotoWithLoad url t) (gotoWithLoad url t)"
  unfolding gotoWithLoad_def
  by (auto intro!: sim_intros sim_with_env simp: same_parser_def split: option.splits)

lemma sim_weather_waitVisible [sim_intros]: "sim (weather_waitVisible sel t) (weather_waitVisible sel t)"
  unfolding weather_waitVisible_def by (auto intro!: sim_intros)

lemma sim_fillInput [sim_intros]: "sim (fillInput sel v1) (fillInput sel v2)"
  unfolding fillInput_def by (auto intro!: sim_intros)

lemma sim_isLoggedIn [sim_intros]: "sim isLoggedIn isLoggedIn"
  unfolding isLoggedIn_def by (auto intro!: sim_intros)

lemma sim_weather_body: "sim (weather_body b e1 l1 c1 n1) (weather_body b e2 l2 c2 n2)"
  unfolding weather_body_def weather_login_def weather_settings_def weather_verify_def Let_def
  by (auto intro!: sim_intros)

lemma weather_same_output:
  assumes "weather_alike pe1 pe2"
  shows "sim (WeatherComChangePassword pe1) (WeatherComChangePassword pe2)"
proof -
  from assms have s: "sessionId pe1 = sessionId pe2"
    and u: "weather_baseUrl (weather_INPUTS pe1) = weather_baseUrl (weather_INPUTS pe2)"
    and t: "truthy (weather_username (weather_INPUTS pe1)) = truthy (weather_username (weather_INPUTS pe2))"
       "truthy (weather_password (weather_INPUTS pe1)) = truthy (weather_password (weather_INPUTS pe2))"
       "truthy (weather_newPassword (weather_INPUTS pe1)) = truthy (weather_newPassword (weather_INPUTS pe2))"
    by (simp_all add: weather_alike_def same_presence_def)
  show ?thesis
    unfolding WeatherComChangePassword_def Let_def t u
    by (auto intro!: sim_intros sim_openPage[OF s] sim_weather_body)
qed

lemma sim_safeWaitForLoad [sim_intros]: "sim (safeWaitForLoad label t) (safeWaitForLoad label t)"
  unfolding safeWaitForLoad_def by (auto intro!: sim_intros)

lemma sim_wiki_safeGoto [sim_intros]: "sim (wiki_safeGoto url label t) (wiki_safeGoto url label t)"
  unfolding wiki_safeGoto_def by (auto intro!: sim_intros)

lemma sim_wiki_waitVisible [sim_intros]: "sim (wiki_waitVisible l label t) (wiki_waitVisible l label t)"
  unfolding wiki_waitVisible_def by (auto intro!: sim_intros)

lemma sim_ensureLoggedIn [sim_intros]: "sim ensureLoggedIn ensureLoggedIn"
  unfolding ensureLoggedIn_def by (auto intro!: sim_intros)

lemma sim_click_or_enter [sim_intros]: "sim (click_or_enter b f) (click_or_enter b f)"
  unfolding click_or_enter_def by (auto intro!: sim_intros)

lemma sim_locator_or_label [sim_intros]: "sim (locator_or_label sel l) (locator_or_label sel l)"
  unfolding locator_or_label_def by (auto intro!: sim_intros)

lemma sim_click_clear_type [sim_intros]: "sim (click_clear_type l v1 d) (click_clear_type l v2 d)"
  unfolding click_clear_type_def by (auto intro!: sim_intros)

lemma sim_handleTwoFactorIfPresent:
  assumes "(wiki_totpCode i1 = []) = (wiki_totpCode i2 = [])"
  shows "sim (handleTwoFactorIfPresent i1) (handleTwoFactorIfPresent i2)"
  unfolding handleTwoFactorIfPresent_def Let_def using assms
  by (cases "wiki_totpCode i1 = []")
     (auto simp: bind_ret intro!: sim_intros split: response.splits option.splits)

lemma sim_login:
  assumes "(wiki_totpCode i1 = []) = (wiki_totpCode i2 = [])" and "wiki_baseUrl i1 = wiki_baseUrl i2"
  shows "sim (login i1) (login i2)"
  unfolding login_def Let_def assms(2)
  by (auto intro!: sim_intros sim_handleTwoFactorIfPresent[OF assms(1)])

lemma sim_navigateToChangePassword:
  assumes "wiki_baseUrl i1 = wiki_baseUrl i2"
  shows "sim (navigateToChangePassword i1) (navigateToChangePassword i2)"
  unfolding navigateToChangePassword_def Let_def assms
  by (auto intro!: sim_intros)

lemma sim_verifyIdentityIfPrompted: "sim (verifyIdentityIfPrompted i1) (verifyIdentityIfPrompted i2)"
  unfolding verifyIdentityIfPrompted_def Let_def
  by (auto intro!: sim_intros)

lemma sim_changePassword: "sim (changePassword i1) (changePassword i2)"
  unfolding changePassword_def Let_def
  by (auto intro!: sim_intros sim_verifyIdentityIfPrompted)

lemma wiki_same_output:
  assumes "wiki_alike pe1 pe2"
  shows "sim (ChangeWikipediaPassword pe1) (ChangeWikipediaPassword pe2)"
proof -
  from assms have s: "sessionId pe1 = sessionId pe2"
    and u: "wiki_baseUrl (wiki_INPUTS pe1) = wiki_baseUrl (wiki_INPUTS pe2)"
    and t: "(wiki_username (wiki_INPUTS pe1) = []) = (wiki_username (wiki_INPUTS pe2) = [])"
       "(wiki_password (wiki_INPUTS pe1) = []) = (wiki_password (wiki_INPUTS pe2) = [])"
       "(wiki_newPassword (wiki_INPUTS pe1) = []) = (wiki_newPassword (wiki_INPUTS pe2) = [])"
    and c: "(wiki_totpCode (wiki_INPUTS pe1) = []) = (wiki_totpCode (wiki_INPUTS pe2) = [])"
    by (simp_all add: wiki_alike_def same_presence_def truthy_def)
  show ?thesis
    unfolding ChangeWikipediaPassword_def Let_def t
    by (auto intro!: sim_intros sim_openPage[OF s] sim_login[OF c u] sim_navigateToChangePassword[OF u]
        sim_changePassword)
qed

text \<open>
  Claim C7, as the code has it. No flow passes a credential to a log line or to a result
  itself; but every flow copies the message of a caught error into both, so a credential
  appears there when the page's error message quotes it. Zillow writes its three
  credentials through \<open>maskSecret\<close>, a run of stars whose length is the credential's
  length clamped to the range 4 to 12, so not of a fixed length. Two runs against the same
  page, whose answers (error messages included) do not depend on the values written, with
  inputs that differ only in the values of the credentials supplied (for Zillow: values
  of equal masks), produce the same log output and the same result.
\<close>

theorem logs_independent_of_credentials:
  "(fandom_alike pe1 pe2 \<and> same_page P (FandomChangePasswordFlow pe1) e1 (FandomChangePasswordFlow pe2) e2
      \<longrightarrow> same_output (FandomChangePasswordFlow pe1) e1 (FandomChangePasswordFlow pe2) e2)
   \<and> (pcpp_alike pe1 pe2 \<and> same_page P (pcppChangePasswordTask pe1) e1 (pcppChangePasswordTask pe2) e2
      \<longrightarrow> same_output (pcppChangePasswordTask pe1) e1 (pcppChangePasswordTask pe2) e2)
   \<and> (zillow_alike pe1 pe2 \<and> same_page P (zillowChangePasswordFlow pe1) e1 (zillowChangePasswordFlow pe2) e2
      \<longrightarrow> same_output (zillowChangePasswordFlow pe1) e1 (zillowChangePasswordFlow pe2) e2)
   \<and> (weather_alike pe1 pe2 \<and> same_page P (WeatherComChangePassword pe1) e1 (WeatherComChangePassword pe2) e2
      \<longrightarrow> same_output (WeatherComChangePassword pe1) e1 (WeatherComChangePassword pe2) e2)
   \<and> (wiki_alike pe1 pe2 \<and> same_page P (ChangeWikipediaPassword pe1) e1 (ChangeWikipediaPassword pe2) e2
      \<longrightarrow> same_output (ChangeWikipediaPassword pe1) e1 (ChangeWikipediaPassword pe2) e2)
   \<and> (truthy v \<longrightarrow> length (maskSecret v) = max 4 (min (length (given v)) 12)
                    \<and> set (maskSecret v) \<subseteq> {CHR ''*''})"
proof -
  have f: "fandom_alike pe1 pe2 \<and> same_page P (FandomChangePasswordFlow pe1) e1 (FandomChangePasswordFlow pe2) e2
      \<longrightarrow> same_output (FandomChangePasswordFlow pe1) e1 (FandomChangePasswordFlow pe2) e2"
    using sim_output[OF fandom_same_output] by blast
  have p: "pcpp_alike pe1 pe2 \<and> same_page P (pcppChangePasswordTask pe1) e1 (pcppChangePasswordTask pe2) e2
      \<longrightarrow> same_output (pcppChangePasswordTask pe1) e1 (pcppChangePasswordTask pe2) e2"
    using sim_output[OF pcpp_same_output] by blast
  have z: "zillow_alike pe1 pe2 \<and> same_page P (zillowChangePasswordFlow pe1) e1 (zillowChangePasswordFlow pe2) e2
      \<longrightarrow> same_output (zillowChangePasswordFlow pe1) e1 (zillowChangePasswordFlow pe2) e2"
    using sim_output[OF zillow_same_output] by blast
  have w: "weather_alike pe1 pe2 \<and> same_page P (WeatherComChangePassword pe1) e1 (WeatherComChangePassword pe2) e2
      \<longrightarrow> same_output (WeatherComChangePassword pe1) e1 (WeatherComChangePassword pe2) e2"
    using sim_output[OF weather_same_output] by blast
  have k: "wiki_alike pe1 pe2 \<and> same_page P (ChangeWikipediaPassword pe1) e1 (ChangeWikipediaPassword pe2) e2
      \<longrightarrow> same_output (ChangeWikipediaPassword pe1) e1 (ChangeWikipediaPassword pe2) e2"
    using sim_output[OF wiki_same_output] by blast
  have m: "truthy v \<longrightarrow> length (maskSecret v) = max 4 (min (length (given v)) 12)
                    \<and> set (maskSecret v) \<subseteq> {CHR ''*''}"
    using maskSecret_shape by blast
  show ?thesis
    by (rule conjI[OF f conjI[OF p conjI[OF z conjI[OF w conjI[OF k m]]]]])
qed

lemma zillow_alike_example: "zillow_alike pe_zillow pe_zillow_b"
  by (simp add: zillow_alike_def same_mask_def maskSecret_def truthy_def given_def zillow_INPUTS_def
      sessionId_def or_default_def pe_zillow_def pe_zillow_b_def)

lemma zillow_stuck_answered:
  "answered (discreet (page_stuck confirmPwdInput)) (env_stop 17)
     (trace (snd (run (zillowChangePasswordFlow pe_zillow) (env_stop 17))))"
  "answered (discreet (page_stuck confirmPwdInput)) (env_stop 17)
     (trace (snd (run (zillowChangePasswordFlow pe_zillow_b) (env_stop 17))))"
  by (simp_all add: zillow_eval_defs(1-15,17) eval_defs pe_zillow_def pe_zillow_b_def env_stop_def locator_defs
      answered_def discreet_def page_stuck_def)

text \<open>
  Two Zillow runs with different credentials of the same clamped lengths, against a page on
  which filling the confirmation field times out with a message that does not quote the
  value.
\<close>

theorem logs_independent_of_credentials_witness:
  \<open>zillow_alike pe_zillow pe_zillow_b
   \<and> same_page (page_stuck confirmPwdInput) (zillowChangePasswordFlow pe_zillow) (env_stop 17)
        (zillowChangePasswordFlow pe_zillow_b) (env_stop 17)
   \<and> trace (snd (run (zillowChangePasswordFlow pe_zillow) (env_stop 17))) ! 17
        = Fill confirmPwdInput ''P@ss2!'' None
   \<and> trace (snd (run (zillowChangePasswordFlow pe_zillow_b) (env_stop 17))) ! 17
        = Fill confirmPwdInput ''Zx8&kL'' None
   \<and> fst (run (zillowChangePasswordFlow pe_zillow) (env_stop 17))
        = Inr \<lparr>success = False, message = ''Workflow error: Timeout exceeded.''\<rparr>
   \<and> fst (run (zillowChangePasswordFlow pe_zillow_b) (env_stop 17))
        = Inr \<lparr>success = False, message = ''Workflow error: Timeout exceeded.''\<rparr>
   \<and> logs (snd (run (zillowChangePasswordFlow pe_zillow) (env_stop 17)))
       = logs (snd (run (zillowChangePasswordFlow pe_zillow_b) (env_stop 17)))
   \<and> truthy (Some ''P@ss1'')
   \<and> length (maskSecret (Some ''P@ss1'')) = 5\<close>
proof -
  have t: \<open>truthy (Some ''P@ss1'')\<close> by (simp add: truthy_def)
  have p: "same_page (page_stuck confirmPwdInput) (zillowChangePasswordFlow pe_zillow) (env_stop 17)
        (zillowChangePasswordFlow pe_zillow_b) (env_stop 17)"
    using zillow_stuck_answered by (simp add: same_page_def same_parser_def)
  have r: \<open>fst (run (zillowChangePasswordFlow pe_zillow) (env_stop 17))
        = Inr \<lparr>success = False, message = ''Workflow error: Timeout exceeded.''\<rparr>\<close>
      \<open>trace (snd (run (zillowChangePasswordFlow pe_zillow) (env_stop 17))) ! 17
        = Fill confirmPwdInput ''P@ss2!'' None\<close>
      \<open>trace (snd (run (zillowChangePasswordFlow pe_zillow_b) (env_stop 17))) ! 17
        = Fill confirmPwdInput ''Zx8&kL'' None\<close>
    by (simp_all add: zillow_eval_defs(1-15,17) eval_defs pe_zillow_def pe_zillow_b_def env_stop_def locator_defs)
  from logs_independent_of_credentials [of pe_zillow pe_zillow_b "page_stuck confirmPwdInput" "env_stop 17"
      "env_stop 17" \<open>Some ''P@ss1''\<close>] zillow_alike_example p t
  have "same_output (zillowChangePasswordFlow pe_zillow) (env_stop 17) (zillowChangePasswordFlow pe_zillow_b) (env_stop 17)"
    and \<open>length (maskSecret (Some ''P@ss1'')) = max 4 (min (length (given (Some ''P@ss1''))) 12)\<close>
    by blast+
  then show ?thesis using zillow_alike_example p t r by (simp add: same_output_def given_def)
qed

lemma zillow_echo_answered:
  \<open>answered (page_echo confirmPwdInput) (env_echo ''P@ss2!'')
     (trace (snd (run (zillowChangePasswordFlow pe_zillow) (env_echo ''P@ss2!''))))\<close>
  \<open>answered (page_echo confirmPwdInput) (env_echo ''Zx8&kL'')
     (trace (snd (run (zillowChangePasswordFlow pe_zillow_b) (env_echo ''Zx8&kL''))))\<close>
  by (simp_all add: zillow_eval_defs(1-15,17) eval_defs pe_zillow_def pe_zillow_b_def env_echo_def locator_defs
      answered_def page_echo_def)

lemma zillow_echo_result:
  \<open>fst (run (zillowChangePasswordFlow pe_zillow) (env_echo ''P@ss2!''))
     = Inr \<lparr>success = False,
            message = ''Workflow error: locator.fill: Timeout 30000ms exceeded. Call log: fill("P@ss2!")''\<rparr>\<close>
  \<open>fst (run (zillowChangePasswordFlow pe_zillow_b) (env_echo ''Zx8&kL''))
     = Inr \<lparr>success = False,
            message = ''Workflow error: locator.fill: Timeout 30000ms exceeded. Call log: fill("Zx8&kL")''\<rparr>\<close>
  \<open>last (logs (snd (run (zillowChangePasswordFlow pe_zillow) (env_echo ''P@ss2!''))))
     = (Error, ''Workflow error: locator.fill: Timeout 30000ms exceeded. Call log: fill("P@ss2!")'')\<close>
  by (simp_all add: zillow_eval_defs(1-15,17) eval_defs pe_zillow_def pe_zillow_b_def env_echo_def locator_defs)

text \<open>
  The claim as the specification words it fails, in two ways. Every flow copies the message
  of a caught error into its log and its result, and the page library's message for a fill
  that timed out quotes the value: against such a page two Zillow runs that differ only in
  credential values (of equal masks) end with different messages, each carrying the new
  password. And two Zillow runs that differ only in the current password (5 against 9
  characters) log different lines, the placeholder having the length of the password.
\<close>

theorem logs_independent_of_credentials_counterexample:
  \<open>zillow_alike pe_zillow pe_zillow_b
   \<and> answered (page_echo confirmPwdInput) (env_echo ''P@ss2!'')
        (trace (snd (run (zillowChangePasswordFlow pe_zillow) (env_echo ''P@ss2!''))))
   \<and> answered (page_echo confirmPwdInput) (env_echo ''Zx8&kL'')
        (trace (snd (run (zillowChangePasswordFlow pe_zillow_b) (env_echo ''Zx8&kL''))))
   \<and> fst (run (zillowChangePasswordFlow pe_zillow) (env_echo ''P@ss2!''))
       = Inr \<lparr>success = False,
              message = ''Workflow error: locator.fill: Timeout 30000ms exceeded. Call log: fill("P@ss2!")''\<rparr>
   \<and> fst (run (zillowChangePasswordFlow pe_zillow_b) (env_echo ''Zx8&kL''))
       = Inr \<lparr>success = False,
              message = ''Workflow error: locator.fill: Timeout 30000ms exceeded. Call log: fill("Zx8&kL")''\<rparr>
   \<and> last (logs (snd (run (zillowChangePasswordFlow pe_zillow) (env_echo ''P@ss2!''))))
       = (Error, ''Workflow error: locator.fill: Timeout 30000ms exceeded. Call log: fill("P@ss2!")'')
   \<and> zillow_newPassword (zillow_INPUTS pe_zillow) = Some ''P@ss2!''
   \<and> logs (snd (run (zillowChangePasswordFlow pe_zillow) env_ok)) ! 3
      = (Log, ''[ACTION] Typing current password (*****) and submitting'')
   \<and> logs (snd (run (zillowChangePasswordFlow pe_zillow_long) env_ok)) ! 3
      = (Log, ''[ACTION] Typing current password (*********) and submitting'')
   \<and> maskSecret (Some ''P@ss1'') = ''*****''
   \<and> maskSecret (Some ''P@ssw0rd1'') = ''*********''\<close>
proof -
  have a: \<open>logs (snd (run (zillowChangePasswordFlow pe_zillow) env_ok)) ! 3
      = (Log, ''[ACTION] Typing current password ('' @ maskSecret (Some ''P@ss1'') @ '') and submitting'')\<close>
    by (simp add: zillow_eval_defs(1-15,17) eval_defs pe_zillow_def env_ok_def locator_defs)
  have b: \<open>logs (snd (run (zillowChangePasswordFlow pe_zillow_long) env_ok)) ! 3
      = (Log, ''[ACTION] Typing current password ('' @ maskSecret (Some ''P@ssw0rd1'') @ '') and submitting'')\<close>
    by (simp add: zillow_eval_defs(1-15,17) eval_defs pe_zillow_long_def env_ok_def locator_defs)
  have c: \<open>zillow_newPassword (zillow_INPUTS pe_zillow) = Some ''P@ss2!''\<close>
    by (simp add: zillow_INPUTS_def pe_zillow_def)
  show ?thesis
    using a b c zillow_alike_example zillow_echo_answered zillow_echo_result by (simp add: mask_examples)
qed

section \<open>Timeouts\<close>

lemma emits_all_bounded: "emits m (bounded d c) \<Longrightarrow> all_bounded d c m"
  unfolding emits_def all_bounded_def run_def by (metis append_Nil st.select_convs(1) st0_def)

lemma fandom_bounded:
  assumes "0 < d" "0 < c"
  shows "emits (FandomChangePasswordFlow pe) (bounded d c)"
  unfolding FandomChangePasswordFlow_def Let_def fandom_body_def fandom_steps_1_4_def fandom_reauth_def
    fandom_logout_def safeClick_def
  using assms by (auto intro!: emits_intros simp: effective_def signIn_ops_def)

lemma pcpp_bounded:
  assumes "0 < d" "0 < c"
  shows "emits (pcppChangePasswordTask pe) (bounded d c)"
  unfolding pcppChangePasswordTask_def Let_def pcpp_body_def pcpp_login_def pcpp_change_def pcpp_verify_def
  using assms by (auto intro!: emits_intros simp: effective_def)

lemma zillow_bounded:
  assumes "0 < d" "0 < c"
  shows "emits (zillowChangePasswordFlow pe) (bounded d c)"
  unfolding zillowChangePasswordFlow_def Let_def zillow_body_def zillow_dialog_def zillow_submit_def
    zillow_finish_def fail_with_def
  using assms by (auto intro!: emits_intros simp: effective_def)

lemma weather_bounded:
  assumes "0 < d" "0 < c"
  shows "emits (WeatherComChangePassword pe) (bounded d c)"
  unfolding WeatherComChangePassword_def Let_def weather_body_def weather_login_def weather_settings_def
    weather_verify_def fillInput_def weather_waitVisible_def gotoWithLoad_def isLoggedIn_def
  using assms by (auto intro!: emits_intros simp: effective_def split: option.splits)

lemma wiki_bounded:
  assumes "0 < d" "0 < c"
  shows "emits (ChangeWikipediaPassword pe) (bounded d c)"
  unfolding ChangeWikipediaPassword_def Let_def login_def navigateToChangePassword_def changePassword_def
    verifyIdentityIfPrompted_def handleTwoFactorIfPresent_def wiki_safeGoto_def safeWaitForLoad_def
    wiki_waitVisible_def ensureLoggedIn_def click_or_enter_def locator_or_label_def click_clear_type_def
  using assms by (auto intro!: emits_intros simp: effective_def split: response.splits option.splits)

lemma openPage_bounded:
  assumes "0 < c"
  shows "list_all (bounded d c) (trace (snd (run (openPage pe) e)))"
proof -
  have "emits (openPage pe) (bounded d c)" using assms by (auto intro!: emits_intros)
  then show ?thesis unfolding emits_def run_def st0_def by (metis append_Nil st.select_convs(1))
qed

lemma openPage_first:
  "trace (snd (run (seq (openPage pe) rest) env_no_browser))
     = [if sessionId pe \<noteq> [] then BrowserConnect (sessionId pe) else BrowserCreate]"
  by (simp add: run_def st0_def openPage_def getAnchorBrowser_def seq_def bind_def perform_run
      env_no_browser_def is_throw_def)

lemma needs_client:
  assumes "flow = seq (openPage pe) rest" and "all_bounded d c flow"
  shows "0 < c"
proof -
  from assms have "list_all (bounded d c) (trace (snd (run (seq (openPage pe) rest) env_no_browser)))"
    unfolding all_bounded_def by blast
  then show ?thesis unfolding openPage_first by (simp split: if_splits)
qed

lemma all_bounded_iff:
  assumes fl: "flow = seq (openPage pe) rest"
    and em: "0 < d \<Longrightarrow> 0 < c \<Longrightarrow> emits flow (bounded d c)"
    and val: "validates_before_page pe flow req"
    and needs: "names_missing req = [] \<Longrightarrow> k < length (trace (snd (run flow e)))
                  \<and> bounded d c (trace (snd (run flow e)) ! k) = (0 < d)"
  shows "all_bounded d c flow = (0 < c \<and> (names_missing req = [] \<longrightarrow> 0 < d))"
proof
  assume a: "all_bounded d c flow"
  have "names_missing req = [] \<longrightarrow> 0 < d"
  proof
    assume "names_missing req = []"
    from needs[OF this] have k: "k < length (trace (snd (run flow e)))"
        "bounded d c (trace (snd (run flow e)) ! k) = (0 < d)"
      by simp_all
    from a have "list_all (bounded d c) (trace (snd (run flow e)))"
      unfolding all_bounded_def by blast
    then show "0 < d" using k by (simp add: list_all_length)
  qed
  then show "0 < c \<and> (names_missing req = [] \<longrightarrow> 0 < d)" using needs_client[OF fl a] by simp
next
  assume h: "0 < c \<and> (names_missing req = [] \<longrightarrow> 0 < d)"
  show "all_bounded d c flow"
  proof (cases "names_missing req = []")
    case True
    then show ?thesis using h em by (simp add: emits_all_bounded)
  next
    case False
    then have "\<And>e. trace (snd (run flow e)) = trace (snd (run (openPage pe) e))"
      using val unfolding validates_before_page_def by blast
    then show ?thesis unfolding all_bounded_def using openPage_bounded h by simp
  qed
qed

lemma fandom_needs:
  assumes "names_missing (fandom_required pe) = []"
  shows "2 < length (trace (snd (run (FandomChangePasswordFlow pe) (env_stop 2))))
     \<and> trace (snd (run (FandomChangePasswordFlow pe) (env_stop 2))) ! 2
         = Goto (loginUrl (buildUrls (fandom_baseUrl (fandom_INPUTS pe)))) None"
proof -
  have v: "truthy (fandom_username (fandom_INPUTS pe))" "truthy (fandom_password (fandom_INPUTS pe))"
      "truthy (fandom_newPassword (fandom_INPUTS pe))"
    using assms by (auto simp: names_missing_def fandom_required_def split: if_splits)
  show ?thesis
    unfolding FandomChangePasswordFlow_def Let_def
    by (simp add: v fandom_body_def fandom_steps_1_4_def run_def st0_def openPage_def getAnchorBrowser_def
        seq_def bind_def catch_def perform_run console_run env_stop_def is_throw_def ret_def)
qed

lemma pcpp_needs:
  assumes "names_missing (pcpp_required pe) = []"
  shows "6 < length (trace (snd (run (pcppChangePasswordTask pe) (env_stop 6))))
     \<and> trace (snd (run (pcppChangePasswordTask pe) (env_stop 6))) ! 6
         = Fill (First (Locator userSel)) (or_default (pcpp_username (pcpp_INPUTS pe)) '''') None"
  unfolding pcppChangePasswordTask_def Let_def
  by (simp add: pcpp_valid[OF assms] pcpp_body_def pcpp_login_def pcpp_safeGoto_def pcpp_waitForVisible_def
      run_def st0_def openPage_def getAnchorBrowser_def
      seq_def bind_def catch_def perform_run console_run env_stop_def is_throw_def ret_def)

lemma zillow_needs:
  assumes "names_missing (zillow_required pe) = []"
  shows "4 < length (trace (snd (run (zillowChangePasswordFlow pe) (env_stop 4))))
     \<and> trace (snd (run (zillowChangePasswordFlow pe) (env_stop 4))) ! 4
         = Fill emailInput (given (zillow_email (zillow_INPUTS pe))) None"
proof -
  have v: "truthy (zillow_email (zillow_INPUTS pe))" "truthy (zillow_currentPassword (zillow_INPUTS pe))"
      "truthy (zillow_newPassword (zillow_INPUTS pe))"
    using assms by (auto simp: names_missing_def zillow_required_def split: if_splits)
  show ?thesis
    unfolding zillowChangePasswordFlow_def Let_def
    by (simp add: v zillow_body_def zillow_safeGoto_def expectVisible_def goto_resp_def call_def
        run_def st0_def openPage_def getAnchorBrowser_def
        seq_def bind_def catch_def perform_run console_run env_stop_def is_throw_def ret_def)
qed

lemma weather_needs:
  assumes "names_missing (weather_required pe) = []"
  shows \<open>6 < length (trace (snd (run (WeatherComChangePassword pe) (env_stop 6))))
     \<and> trace (snd (run (WeatherComChangePassword pe) (env_stop 6))) ! 6
         = Fill (First (Locator ''#loginEmail'')) '''' None\<close>
proof -
  have v: "truthy (weather_username (weather_INPUTS pe))" "truthy (weather_password (weather_INPUTS pe))"
      "truthy (weather_newPassword (weather_INPUTS pe))"
    using assms by (auto simp: names_missing_def weather_required_def split: if_splits)
  show ?thesis
    unfolding WeatherComChangePassword_def Let_def
    by (simp add: v weather_body_def weather_login_def gotoWithLoad_def isLoggedIn_def fillInput_def
        weather_waitVisible_def ask_bool_def call_def
        run_def st0_def openPage_def getAnchorBrowser_def
        seq_def bind_def catch_def perform_run console_run env_stop_def is_throw_def ret_def)
qed

lemma wiki_needs:
  assumes "names_missing (wiki_required pe) = []"
  shows \<open>8 < length (trace (snd (run (ChangeWikipediaPassword pe) (env_stop 8))))
     \<and> trace (snd (run (ChangeWikipediaPassword pe) (env_stop 8))) ! 8
         = Click (First (GetByLabel ''/username|user name/i'')) None None\<close>
  unfolding ChangeWikipediaPassword_def Let_def
  by (simp add: wiki_valid[OF assms] login_def ensureLoggedIn_def wiki_safeGoto_def safeWaitForLoad_def
      locator_or_label_def wiki_waitVisible_def click_clear_type_def ask_nat_def call_def
      run_def st0_def openPage_def getAnchorBrowser_def
      seq_def bind_def catch_def perform_run console_run env_stop_def is_throw_def ret_def)

lemma fandom_bounded_iff:
  "all_bounded d c (FandomChangePasswordFlow pe) = (0 < c \<and> (names_missing (fandom_required pe) = [] \<longrightarrow> 0 < d))"
proof (rule all_bounded_iff[OF FandomChangePasswordFlow_def, where k = 2 and e = "env_stop 2"])
  show "0 < d \<Longrightarrow> 0 < c \<Longrightarrow> emits (FandomChangePasswordFlow pe) (bounded d c)"
    by (rule fandom_bounded)
  show "validates_before_page pe (FandomChangePasswordFlow pe) (fandom_required pe)"
    by (rule fandom_validates)
  assume "names_missing (fandom_required pe) = []"
  from fandom_needs[OF this]
  show "2 < length (trace (snd (run (FandomChangePasswordFlow pe) (env_stop 2))))
      \<and> bounded d c (trace (snd (run (FandomChangePasswordFlow pe) (env_stop 2))) ! 2) = (0 < d)"
    by (simp add: effective_def)
qed

lemma pcpp_bounded_iff:
  "all_bounded d c (pcppChangePasswordTask pe) = (0 < c \<and> (names_missing (pcpp_required pe) = [] \<longrightarrow> 0 < d))"
proof (rule all_bounded_iff[OF pcppChangePasswordTask_def, where k = 6 and e = "env_stop 6"])
  show "0 < d \<Longrightarrow> 0 < c \<Longrightarrow> emits (pcppChangePasswordTask pe) (bounded d c)"
    by (rule pcpp_bounded)
  show "validates_before_page pe (pcppChangePasswordTask pe) (pcpp_required pe)"
    by (rule pcpp_validates)
  assume "names_missing (pcpp_required pe) = []"
  from pcpp_needs[OF this]
  show "6 < length (trace (snd (run (pcppChangePasswordTask pe) (env_stop 6))))
      \<and> bounded d c (trace (snd (run (pcppChangePasswordTask pe) (env_stop 6))) ! 6) = (0 < d)"
    by (simp add: effective_def)
qed

lemma zillow_bounded_iff:
  "all_bounded d c (zillowChangePasswordFlow pe) = (0 < c \<and> (names_missing (zillow_required pe) = [] \<longrightarrow> 0 < d))"
proof (rule all_bounded_iff[OF zillowChangePasswordFlow_def, where k = 4 and e = "env_stop 4"])
  show "0 < d \<Longrightarrow> 0 < c \<Longrightarrow> emits (zillowChangePasswordFlow pe) (bounded d c)"
    by (rule zillow_bounded)
  show "validates_before_page pe (zillowChangePasswordFlow pe) (zillow_required pe)"
    by (rule zillow_validates)
  assume "names_missing (zillow_required pe) = []"
  from zillow_needs[OF this]
  show "4 < length (trace (snd (run (zillowChangePasswordFlow pe) (env_stop 4))))
      \<and> bounded d c (trace (snd (run (zillowChangePasswordFlow pe) (env_stop 4))) ! 4) = (0 < d)"
    by (simp add: effective_def)
qed

lemma weather_bounded_iff:
  "all_bounded d c (WeatherComChangePassword pe) = (0 < c \<and> (names_missing (weather_required pe) = [] \<longrightarrow> 0 < d))"
proof (rule all_bounded_iff[OF WeatherComChangePassword_def, where k = 6 and e = "env_stop 6"])
  show "0 < d \<Longrightarrow> 0 < c \<Longrightarrow> emits (WeatherComChangePassword pe) (bounded d c)"
    by (rule weather_bounded)
  show "validates_before_page pe (WeatherComChangePassword pe) (weather_required pe)"
    by (rule weather_validates)
  assume "names_missing (weather_required pe) = []"
  from weather_needs[OF this]
  show "6 < length (trace (snd (run (WeatherComChangePassword pe) (env_stop 6))))
      \<and> bounded d c (trace (snd (run (WeatherComChangePassword pe) (env_stop 6))) ! 6) = (0 < d)"
    by (simp add: effective_def)
qed

lemma wiki_bounded_iff:
  "all_bounded d c (ChangeWikipediaPassword pe) = (0 < c \<and> (names_missing (wiki_required pe) = [] \<longrightarrow> 0 < d))"
proof (rule all_bounded_iff[OF ChangeWikipediaPassword_def, where k = 8 and e = "env_stop 8"])
  show "0 < d \<Longrightarrow> 0 < c \<Longrightarrow> emits (ChangeWikipediaPassword pe) (bounded d c)"
    by (rule wiki_bounded)
  show "validates_before_page pe (ChangeWikipediaPassword pe) (wiki_required pe)"
    by (rule wiki_validates)
  assume "names_missing (wiki_required pe) = []"
  from wiki_needs[OF this]
  show "8 < length (trace (snd (run (ChangeWikipediaPassword pe) (env_stop 8))))
      \<and> bounded d c (trace (snd (run (ChangeWikipediaPassword pe) (env_stop 8))) ! 8) = (0 < d)"
    by (simp add: effective_def)
qed

text \<open>
  Claim C9, as the code has it. Where a call passes a timeout, the timeout is positive.
  Every flow, its inputs being present, also issues blocking calls that pass none (in the
  Fandom flow, for one, the first navigation and the visibility wait, the click and the
  navigation wait of the sign-in), which leaves the page library's default in force, and
  every flow calls the provider (connect or create), which only its client bounds. So all
  operations of all runs of a flow are bounded exactly when the request timeout \<open>c\<close> of
  the provider's client is positive and, if the required inputs are present, the default
  timeout \<open>d\<close> of the page library is positive too. Both are set outside the repository.
\<close>

theorem waits_bounded:
  "all_bounded d c (FandomChangePasswordFlow pe) = (0 < c \<and> (names_missing (fandom_required pe) = [] \<longrightarrow> 0 < d))
   \<and> all_bounded d c (pcppChangePasswordTask pe) = (0 < c \<and> (names_missing (pcpp_required pe) = [] \<longrightarrow> 0 < d))
   \<and> all_bounded d c (zillowChangePasswordFlow pe) = (0 < c \<and> (names_missing (zillow_required pe) = [] \<longrightarrow> 0 < d))
   \<and> all_bounded d c (WeatherComChangePassword pe) = (0 < c \<and> (names_missing (weather_required pe) = [] \<longrightarrow> 0 < d))
   \<and> all_bounded d c (ChangeWikipediaPassword pe) = (0 < c \<and> (names_missing (wiki_required pe) = [] \<longrightarrow> 0 < d))"
  by (intro conjI fandom_bounded_iff pcpp_bounded_iff zillow_bounded_iff weather_bounded_iff wiki_bounded_iff)

lemmas weather_eval_defs = WeatherComChangePassword_def weather_INPUTS_def truthy_def given_def js_or_def
  stripTrailingSlash_def weather_body_def weather_login_def weather_settings_def weather_verify_def
  gotoWithLoad_def weather_waitVisible_def fillInput_def isLoggedIn_def clickWithRetry_def
  clickWithRetry_from.simps ask_bool_def ask_str_def page_url_def with_env_def Let_def

lemmas wiki_eval_defs = ChangeWikipediaPassword_def wiki_INPUTS_def login_def navigateToChangePassword_def
  changePassword_def verifyIdentityIfPrompted_def handleTwoFactorIfPresent_def wiki_safeGoto_def
  safeWaitForLoad_def wiki_waitVisible_def ensureLoggedIn_def click_or_enter_def locator_or_label_def
  click_clear_type_def ask_nat_def page_url_def passwordFormPath_def Let_def

lemma full_runs:
  "length (trace (snd (run (FandomChangePasswordFlow pe_fandom) env_ok))) = 33"
  "length (trace (snd (run (pcppChangePasswordTask pe_alice) env_ok))) = 24"
  "length (trace (snd (run (zillowChangePasswordFlow pe_zillow) env_ok))) = 23"
  "length (trace (snd (run (WeatherComChangePassword pe_weather) env_ok))) = 31"
  "length (trace (snd (run (ChangeWikipediaPassword pe_wiki) env_found))) = 32"
      apply (simp add: fandom_eval_defs eval_defs pe_fandom_def env_ok_def)
     apply (simp add: pcpp_eval_defs eval_defs pe_alice_def env_ok_def)
    apply (simp add: zillow_eval_defs(1-15,17) eval_defs pe_zillow_def env_ok_def)
   apply (simp add: weather_eval_defs eval_defs pe_weather_def env_ok_def)
  apply (simp add: wiki_eval_defs eval_defs pe_wiki_def env_found_def)
  done

lemma inputs_present:
  "names_missing (fandom_required pe_fandom) = []"
  "names_missing (pcpp_required pe_alice) = []"
  "names_missing (zillow_required pe_zillow) = []"
  "names_missing (weather_required pe_weather) = []"
  "names_missing (wiki_required pe_wiki) = []"
  by (simp_all add: names_missing_def truthy_def js_or_def
      fandom_required_def fandom_INPUTS_def pe_fandom_def
      pcpp_required_def pcpp_INPUTS_def pe_alice_def
      zillow_required_def zillow_INPUTS_def pe_zillow_def
      weather_required_def weather_INPUTS_def pe_weather_def
      wiki_required_def pe_wiki_def)

text \<open>
  The five flows with their inputs present, under the page library's documented default of
  30 seconds and a client timeout of 60 seconds: every operation of every run is bounded,
  as in these complete runs. With the default timeout disabled the Fandom flow is not
  bounded; with its inputs missing it is, having issued the provider's calls only.
\<close>

theorem waits_bounded_witness:
  "names_missing (fandom_required pe_fandom) = [] \<and> names_missing (pcpp_required pe_alice) = []
   \<and> names_missing (zillow_required pe_zillow) = [] \<and> names_missing (weather_required pe_weather) = []
   \<and> names_missing (wiki_required pe_wiki) = []
   \<and> (0::nat) < 30000 \<and> (0::nat) < 60000
   \<and> length (trace (snd (run (FandomChangePasswordFlow pe_fandom) env_ok))) = 33
   \<and> list_all (bounded 30000 60000) (trace (snd (run (FandomChangePasswordFlow pe_fandom) env_ok)))
   \<and> length (trace (snd (run (pcppChangePasswordTask pe_alice) env_ok))) = 24
   \<and> list_all (bounded 30000 60000) (trace (snd (run (pcppChangePasswordTask pe_alice) env_ok)))
   \<and> length (trace (snd (run (zillowChangePasswordFlow pe_zillow) env_ok))) = 23
   \<and> list_all (bounded 30000 60000) (trace (snd (run (zillowChangePasswordFlow pe_zillow) env_ok)))
   \<and> length (trace (snd (run (WeatherComChangePassword pe_weather) env_ok))) = 31
   \<and> list_all (bounded 30000 60000) (trace (snd (run (WeatherComChangePassword pe_weather) env_ok)))
   \<and> length (trace (snd (run (ChangeWikipediaPassword pe_wiki) env_found))) = 32
   \<and> list_all (bounded 30000 60000) (trace (snd (run (ChangeWikipediaPassword pe_wiki) env_found)))
   \<and> \<not> all_bounded 0 60000 (FandomChangePasswordFlow pe_fandom)
   \<and> names_missing (fandom_required pe_none) \<noteq> []
   \<and> all_bounded 0 60000 (FandomChangePasswordFlow pe_none)"
proof -
  have a: "(0::nat) < 30000" and b: "(0::nat) < 60000" by simp_all
  have m: "names_missing (fandom_required pe_none) \<noteq> []"
    by (simp add: names_missing_def fandom_required_def fandom_INPUTS_def pe_none_def truthy_def)
  from waits_bounded [of 30000 60000 pe_fandom] inputs_present(1)
  have 1: "all_bounded 30000 60000 (FandomChangePasswordFlow pe_fandom)" by simp
  from waits_bounded [of 30000 60000 pe_alice] inputs_present(2)
  have 2: "all_bounded 30000 60000 (pcppChangePasswordTask pe_alice)" by simp
  from waits_bounded [of 30000 60000 pe_zillow] inputs_present(3)
  have 3: "all_bounded 30000 60000 (zillowChangePasswordFlow pe_zillow)" by simp
  from waits_bounded [of 30000 60000 pe_weather] inputs_present(4)
  have 4: "all_bounded 30000 60000 (WeatherComChangePassword pe_weather)" by simp
  from waits_bounded [of 30000 60000 pe_wiki] inputs_present(5)
  have 5: "all_bounded 30000 60000 (ChangeWikipediaPassword pe_wiki)" by simp
  from waits_bounded [of 0 60000 pe_fandom] inputs_present(1)
  have 6: "\<not> all_bounded 0 60000 (FandomChangePasswordFlow pe_fandom)" by simp
  from waits_bounded [of 0 60000 pe_none] m
  have 7: "all_bounded 0 60000 (FandomChangePasswordFlow pe_none)" by simp
  show ?thesis
    using 1 2 3 4 5 6 7 m inputs_present full_runs unfolding all_bounded_def by simp
qed

lemma fandom_first_ops:
  \<open>take 10 (trace (snd (run (FandomChangePasswordFlow pe_fandom) env_ok)))
     = [BrowserCreate, ContextsPages,
        Goto ''https://community.fandom.com/wiki/Special:UserLogin'' None,
        WaitForSelector SEL_signinUsername Visible None,
        WaitForSelector SEL_signinUsername Visible None,
        Click (First (Locator SEL_signinUsername)) None None,
        Fill (First (Locator SEL_signinUsername)) ''alice'' (Some 15000),
        Click (First (Locator SEL_signinPassword)) None None,
        Fill (First (Locator SEL_signinPassword)) ''P@ss1'' None,
        WaitForNavigation None]\<close>
  by (simp add: fandom_eval_defs eval_defs pe_fandom_def env_ok_def)

text \<open>
  The claim as the specification words it fails: the navigation, the visibility wait, the
  click and the navigation wait of the Fandom sign-in are called without a timeout. What
  bounds them is the page library's default; where that is disabled (0), they can block for
  ever, and the flow is not bounded.
\<close>

theorem waits_bounded_counterexample:
  \<open>trace (snd (run (FandomChangePasswordFlow pe_fandom) env_ok)) ! 2
      = Goto ''https://community.fandom.com/wiki/Special:UserLogin'' None
   \<and> trace (snd (run (FandomChangePasswordFlow pe_fandom) env_ok)) ! 3
      = WaitForSelector SEL_signinUsername Visible None
   \<and> trace (snd (run (FandomChangePasswordFlow pe_fandom) env_ok)) ! 5
      = Click (First (Locator SEL_signinUsername)) None None
   \<and> trace (snd (run (FandomChangePasswordFlow pe_fandom) env_ok)) ! 9 = WaitForNavigation None
   \<and> \<not> bounded 0 60000 (Goto ''https://community.fandom.com/wiki/Special:UserLogin'' None)
   \<and> \<not> bounded 0 60000 (WaitForSelector SEL_signinUsername Visible None)
   \<and> \<not> bounded 0 60000 (Click (First (Locator SEL_signinUsername)) None None)
   \<and> \<not> bounded 0 60000 (WaitForNavigation None)
   \<and> \<not> all_bounded 0 60000 (FandomChangePasswordFlow pe_fandom)\<close>
proof -
  let ?t = "trace (snd (run (FandomChangePasswordFlow pe_fandom) env_ok))"
  have n: "\<And>i. i < 10 \<Longrightarrow> ?t ! i = take 10 ?t ! i" by simp
  have t: \<open>?t ! 2 = Goto ''https://community.fandom.com/wiki/Special:UserLogin'' None\<close>
      "?t ! 3 = WaitForSelector SEL_signinUsername Visible None"
      "?t ! 5 = Click (First (Locator SEL_signinUsername)) None None"
      "?t ! 9 = WaitForNavigation None"
    by (simp_all add: n fandom_first_ops)
  have l: "2 < length ?t" using full_runs(1) by simp
  have b: \<open>\<not> bounded 0 60000 (Goto ''https://community.fandom.com/wiki/Special:UserLogin'' None)\<close>
      "\<not> bounded 0 60000 (WaitForSelector SEL_signinUsername Visible None)"
      "\<not> bounded 0 60000 (Click (First (Locator SEL_signinUsername)) None None)"
      "\<not> bounded 0 60000 (WaitForNavigation None)"
    by (simp_all add: effective_def)
  have "\<not> list_all (bounded 0 60000) ?t"
    using l t(1) b(1) by (auto simp: list_all_length)
  then have "\<not> all_bounded 0 60000 (FandomChangePasswordFlow pe_fandom)"
    unfolding all_bounded_def by blast
  then show ?thesis using t b by blast
qed

end
